theory Spec2Isabelle
  imports Complex_Main
begin

section \<open>Python values, exceptions and tensors\<close>

text \<open>
  The exceptions the modelled code can raise. \<open>TorchError\<close> stands for a failure inside a
  library layer (a shape or dtype mismatch reported by torch); \<open>OSError\<close> covers its
  subclasses (a missing file, a directory in the place of a file); \<open>URLError\<close> any failure
  of the network.
\<close>

datatype error =
    ValueError
  | NameError
  | AttributeError
  | IndexError
  | TypeError
  | KeyError
  | TorchError
  | URLError
  | OSError

section \<open>Floating-point numbers\<close>

text \<open>
  An element of a tensor is a finite number, an infinity or NaN. The finite numbers are
  the real numbers: rounding, overflow and the sign of zero are not represented. On
  infinities and NaN the operations follow IEEE 754, as torch does: NaN is absorbing,
  \<open>inf - inf\<close> and \<open>0 * inf\<close> are NaN, and every comparison with NaN is false.
\<close>

datatype float = Fin real | PosInf | NegInf | NaN

instantiation float :: "{zero, one, plus, uminus, minus, times, ord}"
begin

definition zero_float :: float where
  "zero_float = Fin 0"

definition one_float :: float where
  "one_float = Fin 1"

fun plus_float :: "float \<Rightarrow> float \<Rightarrow> float" where
  "plus_float (Fin a) (Fin b) = Fin (a + b)"
| "plus_float NaN y = NaN"
| "plus_float x NaN = NaN"
| "plus_float PosInf NegInf = NaN"
| "plus_float NegInf PosInf = NaN"
| "plus_float PosInf y = PosInf"
| "plus_float NegInf y = NegInf"
| "plus_float (Fin a) y = y"

fun uminus_float :: "float \<Rightarrow> float" where
  "uminus_float (Fin a) = Fin (- a)"
| "uminus_float PosInf = NegInf"
| "uminus_float NegInf = PosInf"
| "uminus_float NaN = NaN"

definition minus_float :: "float \<Rightarrow> float \<Rightarrow> float" where
  "minus_float x y = x + (- y)"

fun times_float :: "float \<Rightarrow> float \<Rightarrow> float" where
  "times_float (Fin a) (Fin b) = Fin (a * b)"
| "times_float NaN y = NaN"
| "times_float x NaN = NaN"
| "times_float (Fin a) y = (if a = 0 then NaN else if 0 < a then y else - y)"
| "times_float x (Fin b) = (if b = 0 then NaN else if 0 < b then x else - x)"
| "times_float PosInf y = y"
| "times_float NegInf y = - y"

fun less_float :: "float \<Rightarrow> float \<Rightarrow> bool" where
  "less_float (Fin a) (Fin b) = (a < b)"
| "less_float NaN y = False"
| "less_float x NaN = False"
| "less_float x NegInf = False"
| "less_float PosInf y = False"
| "less_float NegInf y = True"
| "less_float (Fin a) PosInf = True"

definition less_eq_float :: "float \<Rightarrow> float \<Rightarrow> bool" where
  "less_eq_float x y = (x < y \<or> (x = y \<and> x \<noteq> NaN))"

instance ..

end

instance float :: comm_monoid_add
proof
  fix u v w :: float
  show "u + v = v + u"
    by (cases u; cases v; simp)
  show "u + v + w = u + (v + w)"
    by (cases u; cases v; cases w; simp)
  show "0 + u = u"
    by (cases u; simp add: zero_float_def)
qed

instance float :: numeral ..

text \<open>
  An element divided by a Python number \<open>c\<close>, which torch takes as a number of the tensor's
  type; \<^verbatim>\<open>x % 1\<close>, the fractional part in \<open>[0, 1)\<close> of a finite number; and the elementwise
  functions \<^verbatim>\<open>torch.sin\<close>, \<^verbatim>\<open>torch.tanh\<close> and \<^verbatim>\<open>torch.exp\<close>.
\<close>

fun div_scalar :: "float \<Rightarrow> real \<Rightarrow> float" where
  "div_scalar (Fin a) c =
     (if c \<noteq> 0 then Fin (a / c) else if 0 < a then PosInf else if a < 0 then NegInf else NaN)"
| "div_scalar PosInf c = (if 0 \<le> c then PosInf else NegInf)"
| "div_scalar NegInf c = (if 0 \<le> c then NegInf else PosInf)"
| "div_scalar NaN c = NaN"

definition mod1 :: "real \<Rightarrow> real" where
  "mod1 x = x - real_of_int \<lfloor>x\<rfloor>"

fun fmod1 :: "float \<Rightarrow> float" where
  "fmod1 (Fin a) = Fin (mod1 a)"
| "fmod1 x = NaN"

fun fsin :: "float \<Rightarrow> float" where
  "fsin (Fin a) = Fin (sin a)"
| "fsin x = NaN"

fun ftanh :: "float \<Rightarrow> float" where
  "ftanh (Fin a) = Fin (tanh a)"
| "ftanh PosInf = Fin 1"
| "ftanh NegInf = Fin (- 1)"
| "ftanh NaN = NaN"

fun fexp :: "float \<Rightarrow> float" where
  "fexp (Fin a) = Fin (exp a)"
| "fexp PosInf = PosInf"
| "fexp NegInf = Fin 0"
| "fexp NaN = NaN"

text \<open>
  A tensor of rank three is a list of lists of lists of numbers, indexed in the order of
  the torch shape.
\<close>

type_synonym tensor2 = "float list list"
type_synonym tensor = "float list list list"

text \<open>
  What a Python call may hand back where the source does not fix it to a tensor:
  \<^verbatim>\<open>None\<close>, a tensor of rank three or two, or a tuple of such values.
\<close>

datatype pyval = PNone | PTensor tensor | PTensor2 tensor2 | PTuple "pyval list"

text \<open>
  \<^verbatim>\<open>a, b, c = value\<close>: a tuple of exactly three items is taken apart; a tuple of another
  length is a \<open>ValueError\<close> (not enough, or too many, values to unpack). A tensor is
  iterated along its first axis, and \<^verbatim>\<open>None\<close> cannot be iterated.
\<close>

fun unpack3 :: "pyval \<Rightarrow> error + pyval \<times> pyval \<times> pyval" where
  "unpack3 (PTuple [a, b, c]) = Inr (a, b, c)"
| "unpack3 (PTuple xs) = Inl ValueError"
| "unpack3 (PTensor [a, b, c]) = Inr (PTensor2 a, PTensor2 b, PTensor2 c)"
| "unpack3 (PTensor xs) = Inl ValueError"
| "unpack3 (PTensor2 xs) = Inl ValueError"
| "unpack3 PNone = Inl TypeError"

text \<open>The use of a value as a tensor of rank three, as a torch function or a tensor method
  needs it; \<open>e\<close> is what Python raises for another value at that place.\<close>

fun as_tensor :: "error \<Rightarrow> pyval \<Rightarrow> error + tensor" where
  "as_tensor e (PTensor t) = Inr t"
| "as_tensor e v = Inl e"

text \<open>\<^verbatim>\<open>xs[i]\<close> for \<open>i \<ge> 0\<close>.\<close>

definition py_item :: "'a list \<Rightarrow> nat \<Rightarrow> error + 'a" where
  "py_item xs i = (if i < length xs then Inr (xs ! i) else Inl IndexError)"

section \<open>Tensor arithmetic\<close>

text \<open>The first exception of a list of results, or all the values.\<close>

fun sequence :: "(error + 'a) list \<Rightarrow> error + 'a list" where
  "sequence [] = Inr []"
| "sequence (r # rs) =
     (case r of
        Inl e \<Rightarrow> Inl e
      | Inr v \<Rightarrow> (case sequence rs of Inl e \<Rightarrow> Inl e | Inr vs \<Rightarrow> Inr (v # vs)))"

text \<open>
  An operation on two tensors of the same rank broadcasts along each axis: equal sizes
  go together item by item, a size of 1 is repeated, and other sizes are an error of
  torch. The in-place form \<^verbatim>\<open>x += y\<close> keeps the shape of \<open>x\<close>, so only \<open>y\<close> is repeated.
\<close>

definition bzip :: "('a \<Rightarrow> 'b \<Rightarrow> error + 'c) \<Rightarrow> 'a list \<Rightarrow> 'b list \<Rightarrow> error + 'c list" where
  "bzip f xs ys =
     (if length xs = length ys then sequence (map2 f xs ys)
      else if length xs = 1 then sequence (map (f (xs ! 0)) ys)
      else if length ys = 1 then sequence (map (\<lambda>x. f x (ys ! 0)) xs)
      else Inl TorchError)"

definition izip :: "('a \<Rightarrow> 'b \<Rightarrow> error + 'a) \<Rightarrow> 'a list \<Rightarrow> 'b list \<Rightarrow> error + 'a list" where
  "izip f xs ys =
     (if length xs = length ys then sequence (map2 f xs ys)
      else if length ys = 1 then sequence (map (\<lambda>x. f x (ys ! 0)) xs)
      else Inl TorchError)"

definition tadd :: "tensor \<Rightarrow> tensor \<Rightarrow> error + tensor" where
  "tadd = bzip (bzip (bzip (\<lambda>a b. Inr (a + b))))"

definition tmul :: "tensor \<Rightarrow> tensor \<Rightarrow> error + tensor" where
  "tmul = bzip (bzip (bzip (\<lambda>a b. Inr (a * b))))"

definition iadd :: "tensor \<Rightarrow> tensor \<Rightarrow> error + tensor" where
  "iadd = izip (izip (izip (\<lambda>a b. Inr (a + b))))"

definition tmap :: "(float \<Rightarrow> float) \<Rightarrow> tensor \<Rightarrow> tensor" where
  "tmap f = map (map (map f))"

text \<open>\<^verbatim>\<open>F.leaky_relu(x, negative_slope)\<close>: \<open>x\<close> where \<open>x > 0\<close>, and \<open>x * negative_slope\<close>
  elsewhere, also for NaN. The default slope is 0.01.\<close>

definition leaky_relu :: "real \<Rightarrow> tensor \<Rightarrow> tensor" where
  "leaky_relu negative_slope = tmap (\<lambda>v. if 0 < v then v else v * Fin negative_slope)"

text \<open>\<^verbatim>\<open>x.transpose(1, 2)\<close>.\<close>

definition transpose12 :: "tensor \<Rightarrow> tensor" where
  "transpose12 = map transpose"

text \<open>A layer of torch or of \<^verbatim>\<open>modules.py\<close> with its weights: a function on tensors that may
  raise.\<close>

type_synonym layer = "tensor \<Rightarrow> error + tensor"

section \<open>ResidualCouplingBlock\<close>

text \<open>
  \<^verbatim>\<open>modules.ResidualCouplingLayer\<close> and \<^verbatim>\<open>modules.Flip\<close> are defined in
  \<^verbatim>\<open>src/infer_pack/modules.py\<close>, which is not among the sources. A flow step is therefore a
  module with a class name and an arbitrary \<open>call\<close>, which receives
  \<^verbatim>\<open>(x, x_mask, g=g, reverse=reverse)\<close> and returns a value or raises.
\<close>

record flow_module =
  class_name :: string
  call :: "pyval \<Rightarrow> tensor \<Rightarrow> tensor option \<Rightarrow> bool \<Rightarrow> error + pyval"

record ResidualCouplingBlock =
  flows :: "flow_module list"

text \<open>
  \<^verbatim>\<open>self.flows = nn.ModuleList([ResidualCouplingLayer(...), Flip()] * n_flows)\<close>:
  the two-element list is built once and repeated, so the same two modules recur.
  A Python list repeated a negative number of times is empty.
\<close>

definition ResidualCouplingBlock_init ::
  "flow_module \<Rightarrow> flow_module \<Rightarrow> int \<Rightarrow> ResidualCouplingBlock" where
  "ResidualCouplingBlock_init layer flip n_flows =
     \<lparr>flows = concat (replicate (nat n_flows) [layer, flip])\<rparr>"

text \<open>
  The loop \<^verbatim>\<open>for flow in flows: x = flow(x, x_mask, g=g, reverse=reverse)\<close>.
  Each invocation is an observable effect: the loop appends the module called and the
  \<open>reverse\<close> flag it was called with to a log. An exception leaves the loop.
\<close>

type_synonym flow_log = "(flow_module \<times> bool) list"

fun run_flows ::
  "flow_module list \<Rightarrow> pyval \<Rightarrow> tensor \<Rightarrow> tensor option \<Rightarrow> bool \<Rightarrow> flow_log
     \<Rightarrow> (error + pyval) \<times> flow_log" where
  "run_flows [] x x_mask g reverse calls = (Inr x, calls)"
| "run_flows (flow # rest) x x_mask g reverse calls =
     (case call flow x x_mask g reverse of
        Inl e \<Rightarrow> (Inl e, calls @ [(flow, reverse)])
      | Inr x' \<Rightarrow> run_flows rest x' x_mask g reverse (calls @ [(flow, reverse)]))"

definition ResidualCouplingBlock_forward ::
  "ResidualCouplingBlock \<Rightarrow> pyval \<Rightarrow> tensor \<Rightarrow> tensor option \<Rightarrow> bool
     \<Rightarrow> (error + pyval) \<times> flow_log" where
  "ResidualCouplingBlock_forward self x x_mask g reverse =
     run_flows (if reverse then rev (flows self) else flows self) x x_mask g reverse []"

section \<open>Files\<close>

text \<open>
  A file holds bytes; a directory holds named entries in the order the operating system
  lists them.
\<close>

type_synonym bytes = "nat list"

datatype node = File bytes | Dir "(string \<times> node) list"

section \<open>download\_hubert.py\<close>

text \<open>
  The keys of the dictionary \<^verbatim>\<open>models\<close> are seven Russian descriptions; they are
  represented by a constructor each, in the order of the source. \<open>OtherDesc\<close> is any other
  string, which is not a key.
\<close>

datatype model_desc =
    Standard
  | ImprovedStandard
  | KoreanBase
  | ChineseBase
  | ChineseLarge
  | JapaneseBase
  | JapaneseLarge
  | OtherDesc string

definition base_url :: string where
  "base_url = ''https://huggingface.co/Politrees/all_RVC-pretrained_and_other/resolve/main/HuBERTs/''"

fun models :: "model_desc \<Rightarrow> string option" where
  "models Standard = Some ''hubert_base.pt''"
| "models ImprovedStandard = Some ''contentvec_base.pt''"
| "models KoreanBase = Some ''korean_hubert_base.pt''"
| "models ChineseBase = Some ''chinese_hubert_base.pt''"
| "models ChineseLarge = Some ''chinese_hubert_large.pt''"
| "models JapaneseBase = Some ''japanese_hubert_base.pt''"
| "models JapaneseLarge = Some ''japanese_hubert_large.pt''"
| "models (OtherDesc s) = None"

text \<open>
  The network is a parameter: \<^verbatim>\<open>urllib.request.urlopen(url)\<close> raises, or returns a response
  whose body arrives in chunks and may break off with an exception after some of them.
\<close>

datatype response = Response (chunks: "bytes list") (failure: "error option")

type_synonym network = "string \<Rightarrow> error + response"

text \<open>
  The state is the directory \<^verbatim>\<open>rvc_models_dir\<close> of this module (\<^verbatim>\<open>now_dir/rvc_models\<close>):
  \<open>None\<close> when it does not exist, else its entries by name. \<^verbatim>\<open>hubert_base_path\<close> and
  \<^verbatim>\<open>tmp_model_path\<close> are the entries \<^verbatim>\<open>hubert_base.pt\<close> and \<^verbatim>\<open>tmp_model.pt\<close> of it.
  Failures of the operating system that do not follow from this state (permissions, a
  full disk) are not represented.
\<close>

type_synonym hubert_dir = "(string \<Rightarrow> node option) option"

definition hubert_base :: string where
  "hubert_base = ''hubert_base.pt''"

definition tmp_model :: string where
  "tmp_model = ''tmp_model.pt''"

definition entry :: "hubert_dir \<Rightarrow> string \<Rightarrow> node option" where
  "entry d name = (case d of None \<Rightarrow> None | Some es \<Rightarrow> es name)"

text \<open>\<^verbatim>\<open>open(path, 'wb')\<close>: creates the file or truncates it.\<close>

definition open_wb :: "hubert_dir \<Rightarrow> string \<Rightarrow> error + hubert_dir" where
  "open_wb d name =
     (case d of
        None \<Rightarrow> Inl OSError
      | Some es \<Rightarrow>
          (case es name of
             Some (Dir c) \<Rightarrow> Inl OSError
           | _ \<Rightarrow> Inr (Some (es(name \<mapsto> File [])))))"

text \<open>\<^verbatim>\<open>shutil.copyfileobj\<close> appends the chunks it reads to the open file, one by one.\<close>

fun copyfileobj :: "bytes list \<Rightarrow> bytes \<Rightarrow> bytes" where
  "copyfileobj [] out = out"
| "copyfileobj (c # cs) out = copyfileobj cs (out @ c)"

text \<open>\<^verbatim>\<open>os.remove\<close> deletes a file and raises on a directory or a missing path.\<close>

definition os_remove :: "hubert_dir \<Rightarrow> string \<Rightarrow> error + hubert_dir" where
  "os_remove d name =
     (case d of
        None \<Rightarrow> Inl OSError
      | Some es \<Rightarrow>
          (case es name of
             Some (File b) \<Rightarrow> Inr (Some (es(name := None)))
           | _ \<Rightarrow> Inl OSError))"

text \<open>
  \<^verbatim>\<open>os.rename(src, dst)\<close> of a file: \<open>dst\<close> is replaced when it is a file (POSIX), and the
  call raises when \<open>src\<close> is missing or \<open>dst\<close> is a directory.
\<close>

definition os_rename :: "hubert_dir \<Rightarrow> string \<Rightarrow> string \<Rightarrow> error + hubert_dir" where
  "os_rename d src dst =
     (case d of
        None \<Rightarrow> Inl OSError
      | Some es \<Rightarrow>
          (case es src of
             Some (File b) \<Rightarrow>
               (case es dst of
                  Some (Dir c) \<Rightarrow> Inl OSError
                | _ \<Rightarrow> Inr (Some ((es(src := None))(dst \<mapsto> File b))))
           | _ \<Rightarrow> Inl OSError))"

text \<open>The value returned: the message that the model of this description is installed.\<close>

datatype hubert_message = Installed model_desc

definition download_and_replace_model ::
  "network \<Rightarrow> hubert_dir \<Rightarrow> model_desc \<Rightarrow> (error + hubert_message) \<times> hubert_dir" where
  "download_and_replace_model net fs model_desc =
     (case models model_desc of
        None \<Rightarrow> (Inl KeyError, fs)
      | Some model_name \<Rightarrow>
          (case net (base_url @ model_name) of
             Inl e \<Rightarrow> (Inl e, fs)
           | Inr response \<Rightarrow>
               (case open_wb fs tmp_model of
                  Inl e \<Rightarrow> (Inl e, fs)
                | Inr fs1 \<Rightarrow>
                    (let fs2 = map_option
                           (\<lambda>es. es(tmp_model \<mapsto> File (copyfileobj (chunks response) [])))
                           fs1
                     in case failure response of
                          Some e \<Rightarrow> (Inl e, fs2)
                        | None \<Rightarrow>
                            (case (if entry fs2 hubert_base \<noteq> None
                                   then os_remove fs2 hubert_base else Inr fs2) of
                               Inl e \<Rightarrow> (Inl e, fs2)
                             | Inr fs3 \<Rightarrow>
                                 (case os_rename fs3 tmp_model hubert_base of
                                    Inl e \<Rightarrow> (Inl e, fs3)
                                  | Inr fs4 \<Rightarrow> (Inr (Installed model_desc), fs4)))))))"

section \<open>Random numbers\<close>

text \<open>
  The state of torch's random-number generator determines every number it will hand
  out: the \<open>i\<close>-th number it draws from now on is \<open>uniform_draws i\<close> when asked by
  \<^verbatim>\<open>torch.rand\<close> and \<open>normal_draws i\<close> when asked by \<^verbatim>\<open>torch.randn_like\<close>; \<open>consumed\<close>
  counts the numbers drawn so far. A call for \<open>n\<close> numbers takes the next \<open>n\<close>.
\<close>

record rng =
  uniform_draws :: "nat \<Rightarrow> real"
  normal_draws :: "nat \<Rightarrow> real"
  consumed :: nat

definition torch_rand :: "nat \<Rightarrow> rng \<Rightarrow> real list \<times> rng" where
  "torch_rand n gen =
     (map (uniform_draws gen) [consumed gen ..< consumed gen + n],
      gen\<lparr>consumed := consumed gen + n\<rparr>)"

definition torch_randn :: "nat \<Rightarrow> rng \<Rightarrow> real list \<times> rng" where
  "torch_randn n gen =
     (map (normal_draws gen) [consumed gen ..< consumed gen + n],
      gen\<lparr>consumed := consumed gen + n\<rparr>)"

text \<open>A flat list of numbers read as rows of \<open>d\<close> numbers, and a list of rows read as
  blocks of \<open>t\<close> rows: the row-major layout of a tensor.\<close>

definition rows_of :: "nat \<Rightarrow> nat \<Rightarrow> 'a list \<Rightarrow> 'a list list" where
  "rows_of n d xs = map (\<lambda>i. take d (drop (i * d) xs)) [0..<n]"

section \<open>Operations along the time axis\<close>

text \<open>
  In \<open>SineGen\<close> a tensor has the shape \<open>[B, T, D]\<close>: per batch element a list of \<open>T\<close>
  frames, each a list of \<open>D\<close> harmonics. \<open>series k\<close> is harmonic \<open>k\<close> as a sequence over
  time; \<open>along_time D f\<close> applies \<open>f\<close> to each of the \<open>D\<close> sequences and puts the results
  back into frames. This is \<^verbatim>\<open>torch.cumsum(x, 1)\<close> for \<open>f = cumsum\<close> and
  \<^verbatim>\<open>F.interpolate(x.transpose(2, 1), ...).transpose(2, 1)\<close> for an interpolation \<open>f\<close>.
\<close>

definition series :: "nat \<Rightarrow> 'a list list \<Rightarrow> 'a list" where
  "series k frames = map (\<lambda>r. r ! k) frames"

definition along_time :: "nat \<Rightarrow> ('a list \<Rightarrow> 'a list) \<Rightarrow> 'a list list \<Rightarrow> 'a list list" where
  "along_time D f frames =
     (let cols = map (\<lambda>k. f (series k frames)) [0..<D];
          n = (case cols of [] \<Rightarrow> 0 | c # cs \<Rightarrow> length c)
      in map (\<lambda>t. map (\<lambda>c. c ! t) cols) [0..<n])"

fun cumsum_from :: "float \<Rightarrow> float list \<Rightarrow> float list" where
  "cumsum_from acc [] = []"
| "cumsum_from acc (x # xs) = (acc + x) # cumsum_from (acc + x) xs"

definition cumsum :: "float list \<Rightarrow> float list" where
  "cumsum xs = cumsum_from 0 xs"

text \<open>
  \<^verbatim>\<open>F.interpolate(..., scale_factor=upp, mode="nearest")\<close> on a sequence of length \<open>T\<close>:
  \<open>T * upp\<close> values, the \<open>i\<close>-th taken from position \<open>min (i div upp) (T - 1)\<close>.
\<close>

definition interpolate_nearest :: "nat \<Rightarrow> 'a list \<Rightarrow> 'a list" where
  "interpolate_nearest upp xs =
     map (\<lambda>i. xs ! min (i div upp) (length xs - 1)) [0..<length xs * upp]"

text \<open>
  \<^verbatim>\<open>F.interpolate(..., scale_factor=upp, mode="linear", align_corners=True)\<close>: \<open>T * upp\<close>
  values; the \<open>i\<close>-th lies at position \<open>i * (T - 1) / (T * upp - 1)\<close> of the input (at 0
  when there is one output value) and is the sum of its two neighbours, each multiplied
  by its weight.
\<close>

definition interpolate_linear :: "nat \<Rightarrow> float list \<Rightarrow> float list" where
  "interpolate_linear upp xs =
     (let n = length xs; m = n * upp
      in map (\<lambda>i.
           let pos = (if m > 1 then real i * real (n - 1) / real (m - 1) else 0);
               lo = nat \<lfloor>pos\<rfloor>;
               hi = min (lo + 1) (n - 1);
               w = pos - real lo
           in Fin (1 - w) * xs ! lo + Fin w * xs ! hi) [0..<m])"

section \<open>SineGen\<close>

text \<open>
  \<open>sampling_rate\<close> is \<open>None\<close> when the constructor was given \<^verbatim>\<open>None\<close>.
  \<open>flag_for_pulse\<close> is accepted by the constructor and not stored.
\<close>

record SineGen =
  sine_amp :: real
  noise_std :: real
  harmonic_num :: nat
  dim :: nat
  sampling_rate :: "real option"
  voiced_threshold :: real

definition SineGen_init :: "real option \<Rightarrow> nat \<Rightarrow> real \<Rightarrow> real \<Rightarrow> real \<Rightarrow> SineGen" where
  "SineGen_init samp_rate harmonic_num' sine_amp' noise_std' voiced_threshold' =
     \<lparr>sine_amp = sine_amp', noise_std = noise_std', harmonic_num = harmonic_num',
      dim = harmonic_num' + 1, sampling_rate = samp_rate,
      voiced_threshold = voiced_threshold'\<rparr>"

text \<open>\<^verbatim>\<open>uv = torch.ones_like(f0) * (f0 > self.voiced_threshold)\<close>; the conversion on the
  device \<^verbatim>\<open>privateuseone\<close> changes no value.\<close>

definition SineGen_f02uv :: "SineGen \<Rightarrow> tensor \<Rightarrow> tensor" where
  "SineGen_f02uv self f0 =
     map (map (map (\<lambda>v. 1 * (if Fin (voiced_threshold self) < v then 1 else 0)))) f0"

text \<open>
  Lines 138 to 141: \<open>f0_buf\<close> holds the pitch in harmonic 0 and \<open>idx + 2\<close> times the pitch
  in harmonic \<open>idx + 1\<close>, for \<open>idx\<close> below \<open>harmonic_num\<close>; writing a harmonic that \<open>dim\<close> does
  not have is an \<open>IndexError\<close>.
\<close>

definition SineGen_f0_buf :: "SineGen \<Rightarrow> tensor2 \<Rightarrow> error + tensor" where
  "SineGen_f0_buf self f0 =
     (if dim self = 0 then Inl IndexError
      else if harmonic_num self \<ge> dim self then Inl IndexError
      else Inr (map (map (\<lambda>v. map (\<lambda>k. if k = 0 then v
                                        else if k \<le> harmonic_num self then v * Fin (real (k + 1))
                                        else 0) [0..<dim self])) f0))"

text \<open>
  Lines 142 and 145: the phase increment per frame, \<^verbatim>\<open>(f0_buf / sampling_rate) % 1\<close>, and
  the initial phase \<open>rand_ini\<close> added to frame 0 of every batch element.
\<close>

definition SineGen_rad_values :: "real \<Rightarrow> tensor \<Rightarrow> float list list \<Rightarrow> tensor" where
  "SineGen_rad_values sr f0_buf rand_ini =
     map2 (\<lambda>frames ini.
             case map (map (\<lambda>v. fmod1 (div_scalar v sr))) frames of
               [] \<Rightarrow> []
             | first # rest \<Rightarrow> map2 (+) first ini # rest)
          f0_buf rand_ini"

text \<open>
  Lines 146 to 152 for one batch element: the cumulative phase, scaled by \<open>upp\<close>,
  interpolated linearly to the sample rate and reduced modulo 1; where it drops from
  one sample to the next, the shift is \<open>-1\<close>, elsewhere and at sample 0 it is 0.
\<close>

definition shift_of :: "float list list \<Rightarrow> float list list" where
  "shift_of tmp_over_one =
     (case tmp_over_one of
        [] \<Rightarrow> []
      | first # rest \<Rightarrow>
          map (\<lambda>v. 0) first
            # map2 (map2 (\<lambda>b a. (if b - a < 0 then 1 else 0) * (- 1)))
                   rest (butlast tmp_over_one))"

definition SineGen_cumsum_shift :: "nat \<Rightarrow> nat \<Rightarrow> float list list \<Rightarrow> float list list" where
  "SineGen_cumsum_shift D upp rad_values =
     (let tmp_over_one = map (map (\<lambda>v. v * Fin (real upp))) (along_time D cumsum rad_values);
          tmp_over_one = along_time D (interpolate_linear upp) tmp_over_one;
          tmp_over_one = map (map fmod1) tmp_over_one
      in shift_of tmp_over_one)"

text \<open>Line 148: the increments repeated \<open>upp\<close> times each, modulo 1.\<close>

definition SineGen_upsampled :: "nat \<Rightarrow> nat \<Rightarrow> float list list \<Rightarrow> float list list" where
  "SineGen_upsampled D upp rad_values =
     map (map fmod1) (along_time D (interpolate_nearest upp) rad_values)"

text \<open>The argument of line 153's cumulative sum: increment plus shift, per sample.\<close>

definition SineGen_increments :: "nat \<Rightarrow> nat \<Rightarrow> float list list \<Rightarrow> float list list" where
  "SineGen_increments D upp rad_values =
     map2 (map2 (+)) (SineGen_upsampled D upp rad_values)
                     (SineGen_cumsum_shift D upp rad_values)"

text \<open>Line 153: \<^verbatim>\<open>torch.sin(torch.cumsum(..., dim=1) * 2 * np.pi) * self.sine_amp\<close>.\<close>

definition SineGen_sine_waves :: "SineGen \<Rightarrow> nat \<Rightarrow> float list list \<Rightarrow> float list list" where
  "SineGen_sine_waves self upp rad_values =
     map (map (\<lambda>p. fsin (p * 2 * Fin pi) * Fin (sine_amp self)))
         (along_time (dim self) cumsum (SineGen_increments (dim self) upp rad_values))"

text \<open>The length of the time axis of a tensor of shape \<open>[B, T]\<close>; without a batch element it
  is taken as 0.\<close>

definition time_length :: "tensor2 \<Rightarrow> nat" where
  "time_length f0 = (case f0 of [] \<Rightarrow> 0 | r # rs \<Rightarrow> length r)"

text \<open>A tensor of shape \<open>[.., 1]\<close> combined with one of shape \<open>[.., D]\<close>: the single value
  of a frame is used for all its harmonics.\<close>

definition with_frame_value :: "(float \<Rightarrow> float \<Rightarrow> float) \<Rightarrow> tensor \<Rightarrow> tensor \<Rightarrow> tensor" where
  "with_frame_value f x u = map2 (map2 (\<lambda>row v. map (\<lambda>a. f a (v ! 0)) row)) x u"

text \<open>
  \<open>SineGen.forward(f0, upp)\<close> with \<open>f0\<close> of shape \<open>[B, T]\<close>. It returns
  \<open>(sine_waves, uv, noise)\<close> or raises, and advances the generator by the numbers drawn
  before that. Dividing by a \<open>sampling_rate\<close> of \<^verbatim>\<open>None\<close> is a \<open>TypeError\<close>; dividing by a
  \<open>sampling_rate\<close> of 0 raises nothing and gives infinities and NaN.
\<close>

definition SineGen_forward ::
  "SineGen \<Rightarrow> tensor2 \<Rightarrow> nat \<Rightarrow> rng \<Rightarrow> (error + tensor \<times> tensor \<times> tensor) \<times> rng" where
  "SineGen_forward self f0 upp gen =
     (let f0' = map (map (\<lambda>v. [v])) f0
      in case SineGen_f0_buf self (map (map (\<lambda>r. r ! 0)) f0') of
        Inl e \<Rightarrow> (Inl e, gen)
      | Inr f0_buf \<Rightarrow>
      (case sampling_rate self of
        None \<Rightarrow> (Inl TypeError, gen)
      | Some sr \<Rightarrow>
      (case torch_rand (length f0_buf * dim self) gen of (draws, gen1) \<Rightarrow>
      (let rand_ini = map (\<lambda>r. r[0 := 0])
                        (rows_of (length f0_buf) (dim self) (map Fin draws))
       in if time_length f0 = 0 then (Inl IndexError, gen1)
          else if upp = 0 then (Inl TorchError, gen1)
          else
          (let rad_values = SineGen_rad_values sr f0_buf rand_ini;
               sine_waves = map (SineGen_sine_waves self upp) rad_values;
               uv = SineGen_f02uv self f0';
               uv = map (along_time 1 (interpolate_nearest upp)) uv;
               noise_amp = map (map (map (\<lambda>u. u * Fin (noise_std self)
                                  + div_scalar ((1 - u) * Fin (sine_amp self)) 3))) uv
           in case torch_randn (length sine_waves * (time_length f0 * upp) * dim self) gen1 of
                (normals, gen2) \<Rightarrow>
                (let randn = rows_of (length sine_waves) (time_length f0 * upp)
                               (rows_of (length sine_waves * (time_length f0 * upp)) (dim self)
                                  (map Fin normals));
                     noise = with_frame_value (\<lambda>n a. a * n) randn noise_amp;
                     sine_waves = map2 (map2 (map2 (+)))
                                    (with_frame_value (*) sine_waves uv) noise
                 in (Inr (sine_waves, uv, noise), gen2)))))))"

section \<open>SourceModuleHnNSF\<close>

text \<open>The floating-point types a weight may have.\<close>

datatype dtype = Float16 | BFloat16 | Float32 | Float64

text \<open>
  \<open>l_linear\<close> is \<^verbatim>\<open>nn.Linear(harmonic_num + 1, 1)\<close> with its weights, and
  \<open>l_linear_weight_dtype\<close> is \<^verbatim>\<open>self.l_linear.weight.dtype\<close>. \<open>l_tanh\<close> is \<^verbatim>\<open>nn.Tanh()\<close>, which
  has no state. \<open>ddtype\<close> is \<open>None\<close> while the module has no attribute of that name.
\<close>

record SourceModuleHnNSF =
  src_sine_amp :: real
  src_noise_std :: real
  is_half :: bool
  l_sin_gen :: SineGen
  l_linear :: layer
  l_linear_weight_dtype :: dtype
  ddtype :: "dtype option"

text \<open>
  \<open>SourceModuleHnNSF.forward(x, upp)\<close>. The first call stores \<open>ddtype\<close> in the module.
  The conversion \<^verbatim>\<open>sine_wavs.to(self.ddtype)\<close> changes the floating-point format only,
  which the numbers of this model do not show. The result is the tuple
  \<^verbatim>\<open>(sine_merge, None, None)\<close>.
\<close>

definition SourceModuleHnNSF_forward ::
  "SourceModuleHnNSF \<Rightarrow> tensor2 \<Rightarrow> nat \<Rightarrow> rng
     \<Rightarrow> (error + pyval) \<times> SourceModuleHnNSF \<times> rng" where
  "SourceModuleHnNSF_forward self x upp gen =
     (let self1 = (case ddtype self of
                     None \<Rightarrow> self\<lparr>ddtype := Some (l_linear_weight_dtype self)\<rparr>
                   | Some d \<Rightarrow> self)
      in case SineGen_forward (l_sin_gen self1) x upp gen of
           (Inl e, gen1) \<Rightarrow> (Inl e, self1, gen1)
         | (Inr (sine_wavs, uv, noise), gen1) \<Rightarrow>
             (case l_linear self1 sine_wavs of
                Inl e \<Rightarrow> (Inl e, self1, gen1)
              | Inr y \<Rightarrow>
                  (Inr (PTuple [PTensor (tmap ftanh y), PNone, PNone]), self1, gen1)))"

section \<open>Generator and GeneratorNSF\<close>

text \<open>
  \<open>cond\<close> is \<open>None\<close> when the constructor was given \<open>gin_channels = 0\<close> and the module has no
  such attribute.
\<close>

record Generator =
  num_kernels :: nat
  num_upsamples :: nat
  conv_pre :: layer
  ups :: "layer list"
  resblocks :: "layer list"
  conv_post :: layer
  cond :: "layer option"

text \<open>\<open>f0_upsamp\<close> is \<^verbatim>\<open>nn.Upsample\<close> with its scale factor; \<open>self_upp\<close> is the attribute
  \<^verbatim>\<open>self.upp\<close>.\<close>

record GeneratorNSF = Generator +
  f0_upsamp :: nat
  m_source :: SourceModuleHnNSF
  noise_convs :: "layer list"
  self_upp :: nat

text \<open>
  The inner loop of both generators, over \<open>j\<close> in \<^verbatim>\<open>range(self.num_kernels)\<close>: \<open>x_source\<close>
  starts as \<^verbatim>\<open>None\<close>, takes the output of the first residual block and has the output of
  each further one added. \<open>idxs\<close> are the indices \<open>i * num_kernels + j\<close>.
\<close>

fun resblock_sum :: "layer list \<Rightarrow> tensor \<Rightarrow> nat list \<Rightarrow> tensor option \<Rightarrow> error + tensor option" where
  "resblock_sum rb x [] x_source = Inr x_source"
| "resblock_sum rb x (idx # idxs) x_source =
     (case py_item rb idx of
        Inl e \<Rightarrow> Inl e
      | Inr block \<Rightarrow>
          (case block x of
             Inl e \<Rightarrow> Inl e
           | Inr r \<Rightarrow>
               (case x_source of
                  None \<Rightarrow> resblock_sum rb x idxs (Some r)
                | Some s \<Rightarrow>
                    (case tadd s r of
                       Inl e \<Rightarrow> Inl e
                     | Inr s' \<Rightarrow> resblock_sum rb x idxs (Some s')))))"

text \<open>
  The inner loop followed by \<^verbatim>\<open>x = x_source / self.num_kernels\<close>; dividing \<^verbatim>\<open>None\<close>, which
  is what \<open>x_source\<close> still is when there are no kernels, is a \<open>TypeError\<close>.
\<close>

definition mix_resblocks :: "layer list \<Rightarrow> nat \<Rightarrow> nat \<Rightarrow> tensor \<Rightarrow> error + tensor" where
  "mix_resblocks rb nk i x =
     (case resblock_sum rb x (map (\<lambda>j. i * nk + j) [0..<nk]) None of
        Inl e \<Rightarrow> Inl e
      | Inr None \<Rightarrow> Inl TypeError
      | Inr (Some x_source) \<Rightarrow> Inr (tmap (\<lambda>v. div_scalar v (real nk)) x_source))"

text \<open>
  The loop over \<open>i\<close> in \<^verbatim>\<open>range(self.num_upsamples)\<close> of \<open>Generator.forward\<close>.
  \<open>LRELU_SLOPE\<close> is the constant \<^verbatim>\<open>modules.LRELU_SLOPE\<close> of \<^verbatim>\<open>modules.py\<close>, which is
  not among the sources; it is a parameter.
\<close>

fun Generator_stages ::
  "real \<Rightarrow> 'a Generator_scheme \<Rightarrow> nat list \<Rightarrow> tensor \<Rightarrow> error + tensor" where
  "Generator_stages LRELU_SLOPE self [] x = Inr x"
| "Generator_stages LRELU_SLOPE self (i # rest) x =
     (case py_item (ups self) i of
        Inl e \<Rightarrow> Inl e
      | Inr up \<Rightarrow>
          (case up (leaky_relu LRELU_SLOPE x) of
             Inl e \<Rightarrow> Inl e
           | Inr x1 \<Rightarrow>
               (case mix_resblocks (resblocks self) (num_kernels self) i x1 of
                  Inl e \<Rightarrow> Inl e
                | Inr x2 \<Rightarrow> Generator_stages LRELU_SLOPE self rest x2)))"

text \<open>\<^verbatim>\<open>if g is not None: x += self.cond(g)\<close>.\<close>

definition add_cond :: "'a Generator_scheme \<Rightarrow> tensor \<Rightarrow> tensor option \<Rightarrow> error + tensor" where
  "add_cond self x g =
     (case g of
        None \<Rightarrow> Inr x
      | Some gv \<Rightarrow>
          (case cond self of
             None \<Rightarrow> Inl AttributeError
           | Some c \<Rightarrow> (case c gv of Inl e \<Rightarrow> Inl e | Inr cg \<Rightarrow> iadd x cg)))"

definition Generator_forward ::
  "real \<Rightarrow> Generator \<Rightarrow> tensor \<Rightarrow> tensor option \<Rightarrow> error + tensor" where
  "Generator_forward LRELU_SLOPE self x g =
     (case conv_pre self x of
        Inl e \<Rightarrow> Inl e
      | Inr x1 \<Rightarrow>
      (case add_cond self x1 g of
        Inl e \<Rightarrow> Inl e
      | Inr x2 \<Rightarrow>
      (case Generator_stages LRELU_SLOPE self [0..<num_upsamples self] x2 of
        Inl e \<Rightarrow> Inl e
      | Inr x3 \<Rightarrow>
      (case conv_post self (leaky_relu (1 / 100) x3) of
        Inl e \<Rightarrow> Inl e
      | Inr y \<Rightarrow> Inr (tmap ftanh y)))))"

text \<open>The loop of \<open>GeneratorNSF.forward\<close>, which adds
  \<^verbatim>\<open>self.noise_convs[i](har_source)\<close> in place after the upsampling.\<close>

fun GeneratorNSF_stages ::
  "real \<Rightarrow> GeneratorNSF \<Rightarrow> tensor \<Rightarrow> nat list \<Rightarrow> tensor \<Rightarrow> error + tensor" where
  "GeneratorNSF_stages LRELU_SLOPE self har_source [] x = Inr x"
| "GeneratorNSF_stages LRELU_SLOPE self har_source (i # rest) x =
     (case py_item (ups self) i of
        Inl e \<Rightarrow> Inl e
      | Inr up \<Rightarrow>
      (case up (leaky_relu LRELU_SLOPE x) of
        Inl e \<Rightarrow> Inl e
      | Inr x1 \<Rightarrow>
      (case py_item (noise_convs self) i of
        Inl e \<Rightarrow> Inl e
      | Inr noise_conv \<Rightarrow>
      (case noise_conv har_source of
        Inl e \<Rightarrow> Inl e
      | Inr n \<Rightarrow>
      (case iadd x1 n of
        Inl e \<Rightarrow> Inl e
      | Inr x2 \<Rightarrow>
      (case mix_resblocks (resblocks self) (num_kernels self) i x2 of
        Inl e \<Rightarrow> Inl e
      | Inr x3 \<Rightarrow> GeneratorNSF_stages LRELU_SLOPE self har_source rest x3))))))"

text \<open>
  \<open>GeneratorNSF.forward(x, f0, g)\<close>. The call of \<open>m_source\<close> may change that submodule and
  draws from the generator, also when a later step raises.
\<close>

definition GeneratorNSF_forward ::
  "real \<Rightarrow> GeneratorNSF \<Rightarrow> tensor \<Rightarrow> tensor2 \<Rightarrow> tensor option \<Rightarrow> rng
     \<Rightarrow> (error + tensor) \<times> GeneratorNSF \<times> rng" where
  "GeneratorNSF_forward LRELU_SLOPE self x f0 g gen =
     (case SourceModuleHnNSF_forward (m_source self) f0 (self_upp self) gen of
        (r, m_source1, gen1) \<Rightarrow>
        (let self1 = self\<lparr>m_source := m_source1\<rparr>
         in (case (case r of
                 Inl e \<Rightarrow> Inl e
               | Inr v \<Rightarrow>
               (case unpack3 v of
                 Inl e \<Rightarrow> Inl e
               | Inr (har_source, noi_source, uv) \<Rightarrow>
               (case as_tensor AttributeError har_source of
                 Inl e \<Rightarrow> Inl e
               | Inr har_source1 \<Rightarrow>
               (case conv_pre self1 x of
                 Inl e \<Rightarrow> Inl e
               | Inr x1 \<Rightarrow>
               (case add_cond self1 x1 g of
                 Inl e \<Rightarrow> Inl e
               | Inr x2 \<Rightarrow>
               (case GeneratorNSF_stages LRELU_SLOPE self1 (transpose12 har_source1)
                       [0..<num_upsamples self1] x2 of
                 Inl e \<Rightarrow> Inl e
               | Inr x3 \<Rightarrow>
               (case conv_post self1 (leaky_relu (1 / 100) x3) of
                 Inl e \<Rightarrow> Inl e
               | Inr y \<Rightarrow> Inr (tmap ftanh y)))))))) of
              res \<Rightarrow> (res, self1, gen1))))"


section \<open>Shapes\<close>

text \<open>The shape of a tensor of nested lists, and the sum of two tensors of one shape.\<close>

definition shape3 :: "tensor \<Rightarrow> nat list list" where
  "shape3 x = map (map length) x"

definition padd :: "tensor \<Rightarrow> tensor \<Rightarrow> tensor" where
  "padd = map2 (map2 (map2 (+)))"

section \<open>TextEncoder\<close>

text \<open>
  \<open>emb_phone\<close> is \<^verbatim>\<open>nn.Linear\<close>, \<open>encoder\<close> is \<^verbatim>\<open>attentions.Encoder\<close> and \<open>proj\<close> is
  \<^verbatim>\<open>nn.Conv1d\<close>, each with its weights. \<open>emb_pitch\<close> is \<^verbatim>\<open>nn.Embedding(256, hidden_channels)\<close>
  on a tensor of pitch indices, and \<open>None\<close> when the constructor was given \<open>f0 = False\<close> and
  the module has no such attribute. \<open>lrelu\<close> is \<^verbatim>\<open>nn.LeakyReLU(0.1)\<close>.
\<close>

record TextEncoder =
  out_channels :: nat
  hidden_channels :: nat
  emb_phone :: layer
  emb_pitch :: "(int list list \<Rightarrow> error + tensor) option"
  encoder :: "tensor \<Rightarrow> tensor \<Rightarrow> error + tensor"
  proj :: layer


text \<open>\<^verbatim>\<open>x.size(2)\<close> and \<^verbatim>\<open>x.size(1)\<close> of a tensor of nested lists; an axis that cannot be
  seen because an outer one is empty counts as 0.\<close>

definition size2 :: "tensor \<Rightarrow> nat" where
  "size2 x = (case x of (r # rs) # ms \<Rightarrow> length r | _ \<Rightarrow> 0)"

definition size1 :: "tensor \<Rightarrow> nat" where
  "size1 x = (case x of m # ms \<Rightarrow> length m | [] \<Rightarrow> 0)"

text \<open>
  \<^verbatim>\<open>torch.split(stats, n, dim=1)\<close>: the channels in pieces of \<open>n\<close>, the last one shorter
  when \<open>n\<close> does not divide their number. A piece size of 0 is an error of torch unless
  there are no channels.
\<close>

definition torch_split :: "tensor \<Rightarrow> nat \<Rightarrow> error + tensor list" where
  "torch_split stats n =
     (if n = 0 then (if size1 stats = 0 then Inr [stats] else Inl TorchError)
      else Inr (map (\<lambda>i. map (\<lambda>m. take n (drop (i * n) m)) stats)
                    [0..<max 1 ((size1 stats + n - 1) div n)]))"

text \<open>
  Lines 31 to 36 of \<open>TextEncoder.forward\<close>, from the summed embedding \<open>x\<close> on.
  \<open>sequence_mask\<close> is defined in \<^verbatim>\<open>src/infer_pack/commons.py\<close>, which is not among the
  sources; it is a parameter that maps the lengths and the maximal length to a mask of
  shape \<open>[B, T]\<close>. The value returned is the pair of the tuple that \<^verbatim>\<open>torch.split\<close> returns
  and \<open>x_mask\<close>: a tuple of two items.
\<close>

definition TextEncoder_encode ::
  "(int list \<Rightarrow> nat \<Rightarrow> tensor2) \<Rightarrow> TextEncoder \<Rightarrow> tensor \<Rightarrow> int list \<Rightarrow> error + pyval" where
  "TextEncoder_encode sequence_mask self x lengths =
     (let x1 = tmap (\<lambda>v. v * Fin (sqrt (real (hidden_channels self)))) x;
          x2 = transpose12 (leaky_relu (1 / 10) x1);
          x_mask = map (\<lambda>r. [r]) (sequence_mask lengths (size2 x2))
      in case tmul x2 x_mask of
           Inl e \<Rightarrow> Inl e
         | Inr xm \<Rightarrow>
         (case encoder self xm x_mask of
           Inl e \<Rightarrow> Inl e
         | Inr x3 \<Rightarrow>
         (case proj self x3 of
           Inl e \<Rightarrow> Inl e
         | Inr p \<Rightarrow>
         (case tmul p x_mask of
           Inl e \<Rightarrow> Inl e
         | Inr stats \<Rightarrow>
         (case torch_split stats (out_channels self) of
           Inl e \<Rightarrow> Inl e
         | Inr pieces \<Rightarrow> Inr (PTuple [PTuple (map PTensor pieces), PTensor x_mask]))))))"

text \<open>
  \<open>TextEncoder.forward(phone, pitch, lengths)\<close>. Line 30 adds the integer 0 to the phone
  embedding when \<open>pitch\<close> is \<^verbatim>\<open>None\<close>, and the pitch embedding otherwise; reading
  \<^verbatim>\<open>self.emb_pitch\<close> of a module built with \<open>f0 = False\<close> is an \<open>AttributeError\<close>.
\<close>

definition TextEncoder_forward ::
  "(int list \<Rightarrow> nat \<Rightarrow> tensor2) \<Rightarrow> TextEncoder \<Rightarrow> tensor \<Rightarrow> int list list option \<Rightarrow> int list
     \<Rightarrow> error + pyval" where
  "TextEncoder_forward sequence_mask self phone pitch lengths =
     (case emb_phone self phone of
        Inl e \<Rightarrow> Inl e
      | Inr ep \<Rightarrow>
          (case (case pitch of
                   None \<Rightarrow> Inr (tmap (\<lambda>v. v + 0) ep)
                 | Some p \<Rightarrow>
                     (case emb_pitch self of
                        None \<Rightarrow> Inl AttributeError
                      | Some embedding \<Rightarrow>
                          (case embedding p of
                             Inl e \<Rightarrow> Inl e
                           | Inr epi \<Rightarrow> tadd ep epi))) of
             Inl e \<Rightarrow> Inl e
           | Inr x \<Rightarrow> TextEncoder_encode sequence_mask self x lengths))"

section \<open>SynthesizerTrnMsNSFsid\<close>

text \<open>\<open>PosteriorEncoder\<close> is used by the training pass only; its layers are attributes of
  the synthesizer all the same.\<close>

record PosteriorEncoder =
  q_out_channels :: nat
  q_pre :: layer
  q_enc :: "tensor \<Rightarrow> tensor \<Rightarrow> tensor option \<Rightarrow> error + tensor"
  q_proj :: layer

text \<open>\<open>emb_g\<close> is \<^verbatim>\<open>nn.Embedding(spk_embed_dim, gin_channels)\<close> on a tensor of speaker ids.\<close>

record SynthesizerTrnMsNSFsid =
  spec_channels :: nat
  segment_size :: nat
  gin_channels :: nat
  spk_embed_dim :: nat
  enc_p :: TextEncoder
  dec :: GeneratorNSF
  enc_q :: PosteriorEncoder
  flow :: ResidualCouplingBlock
  emb_g :: "int list \<Rightarrow> error + tensor2"

subsection \<open>Construction\<close>











subsection \<open>Inference\<close>

text \<open>\<^verbatim>\<open>torch.randn_like(x)\<close>: as many normal draws as \<open>x\<close> has entries, in the shape of \<open>x\<close>.\<close>

fun like2 :: "'a list list \<Rightarrow> 'b list \<Rightarrow> 'b list list" where
  "like2 [] xs = []"
| "like2 (r # rs) xs = take (length r) xs # like2 rs (drop (length r) xs)"

fun like3 :: "'a list list list \<Rightarrow> 'b list \<Rightarrow> 'b list list list" where
  "like3 [] xs = []"
| "like3 (m # ms) xs = like2 m xs # like3 ms (drop (sum_list (map length m)) xs)"

definition numel :: "tensor \<Rightarrow> nat" where
  "numel x = sum_list (map (\<lambda>m. sum_list (map length m)) x)"

definition randn_like :: "tensor \<Rightarrow> rng \<Rightarrow> tensor \<times> rng" where
  "randn_like x gen =
     (case torch_randn (numel x) gen of (draws, gen1) \<Rightarrow> (like3 x (map Fin draws), gen1))"

text \<open>
  Line 273:
  \<^verbatim>\<open>z_p = (m_p + torch.exp(logs_p) * torch.randn_like(m_p) * 0.66666) * x_mask\<close>.
\<close>

definition sample_prior :: "pyval \<Rightarrow> pyval \<Rightarrow> pyval \<Rightarrow> rng \<Rightarrow> (error + tensor) \<times> rng" where
  "sample_prior m_p logs_p x_mask gen =
     (case as_tensor TypeError logs_p of
        Inl e \<Rightarrow> (Inl e, gen)
      | Inr logs \<Rightarrow>
      (case as_tensor TypeError m_p of
        Inl e \<Rightarrow> (Inl e, gen)
      | Inr m \<Rightarrow>
      (case randn_like m gen of (noise, gen1) \<Rightarrow>
      (case tmul (tmap fexp logs) noise of
        Inl e \<Rightarrow> (Inl e, gen1)
      | Inr scaled \<Rightarrow>
      (case tadd m (tmap (\<lambda>v. v * Fin (66666 / 100000)) scaled) of
        Inl e \<Rightarrow> (Inl e, gen1)
      | Inr s \<Rightarrow>
      (case as_tensor TypeError x_mask of
        Inl e \<Rightarrow> (Inl e, gen1)
      | Inr x_mask1 \<Rightarrow>
      (case tmul s x_mask1 of
        Inl e \<Rightarrow> (Inl e, gen1)
      | Inr z_p \<Rightarrow> (Inr z_p, gen1))))))))"

text \<open>\<^verbatim>\<open>int(x)\<close> of a float rounds toward zero; \<^verbatim>\<open>xs[start:]\<close> counts a negative start from
  the end and clips it to the list.\<close>

definition py_int :: "real \<Rightarrow> int" where
  "py_int x = (if x \<ge> 0 then \<lfloor>x\<rfloor> else \<lceil>x\<rceil>)"

definition slice_from :: "int \<Rightarrow> 'a list \<Rightarrow> 'a list" where
  "slice_from start xs =
     (if start < 0 then drop (nat (max 0 (int (length xs) + start))) xs
      else drop (nat start) xs)"

text \<open>
  Lines 274 to 276. \<^verbatim>\<open>if rate:\<close> holds for a rate that is given and not 0; then
  \<^verbatim>\<open>head = int(z_p.shape[2] * rate)\<close> and the three sequences are sliced with
  \<^verbatim>\<open>[..., -head:]\<close>.
\<close>

definition truncate_by_rate ::
  "real option \<Rightarrow> tensor \<Rightarrow> tensor \<Rightarrow> tensor2 \<Rightarrow> tensor \<times> tensor \<times> tensor2" where
  "truncate_by_rate rate z_p x_mask nsff0 =
     (case rate of
        None \<Rightarrow> (z_p, x_mask, nsff0)
      | Some r \<Rightarrow>
          if r = 0 then (z_p, x_mask, nsff0)
          else (let head = py_int (real (size2 z_p) * r)
                in (map (map (slice_from (- head))) z_p,
                    map (map (slice_from (- head))) x_mask,
                    map (slice_from (- head)) nsff0)))"

text \<open>Lines 273 to 278 of \<open>infer\<close>, for the three values that line 272 unpacked.\<close>

definition infer_decode ::
  "real \<Rightarrow> SynthesizerTrnMsNSFsid \<Rightarrow> tensor \<Rightarrow> pyval \<Rightarrow> pyval \<Rightarrow> pyval \<Rightarrow> tensor2 \<Rightarrow> real option
     \<Rightarrow> rng \<Rightarrow> (error + pyval) \<times> SynthesizerTrnMsNSFsid \<times> rng" where
  "infer_decode LRELU_SLOPE self g m_p logs_p x_mask nsff0 rate gen =
     (case sample_prior m_p logs_p x_mask gen of
        (Inl e, gen1) \<Rightarrow> (Inl e, self, gen1)
      | (Inr z_p, gen1) \<Rightarrow>
      (case as_tensor TypeError x_mask of
        Inl e \<Rightarrow> (Inl e, self, gen1)
      | Inr x_mask1 \<Rightarrow>
      (case truncate_by_rate rate z_p x_mask1 nsff0 of (z_p1, x_mask2, nsff01) \<Rightarrow>
      (case fst (ResidualCouplingBlock_forward (flow self) (PTensor z_p1) x_mask2 (Some g) True) of
        Inl e \<Rightarrow> (Inl e, self, gen1)
      | Inr z \<Rightarrow>
      (case as_tensor TypeError z of
        Inl e \<Rightarrow> (Inl e, self, gen1)
      | Inr zt \<Rightarrow>
      (case tmul zt x_mask2 of
        Inl e \<Rightarrow> (Inl e, self, gen1)
      | Inr zm \<Rightarrow>
      (case GeneratorNSF_forward LRELU_SLOPE (dec self) zm nsff01 (Some g) gen1 of
        (Inl e, dec1, gen2) \<Rightarrow> (Inl e, self\<lparr>dec := dec1\<rparr>, gen2)
      | (Inr out, dec1, gen2) \<Rightarrow>
          (Inr (PTuple [PTensor out, PTensor x_mask2,
                        PTuple [z, PTensor z_p1, m_p, logs_p]]),
           self\<lparr>dec := dec1\<rparr>, gen2))))))))"

text \<open>
  \<open>SynthesizerTrnMsNSFsid.infer(phone, phone_lengths, pitch, nsff0, sid, rate)\<close>.
  Line 272 unpacks what \<open>enc_p\<close> returns into three names. \<open>TextEncoder.forward\<close> returns
  a tuple of two items (line 36), so this is where every call ends that got that far.
\<close>

definition infer ::
  "real \<Rightarrow> (int list \<Rightarrow> nat \<Rightarrow> tensor2) \<Rightarrow> SynthesizerTrnMsNSFsid \<Rightarrow> tensor \<Rightarrow> int list
     \<Rightarrow> int list list option \<Rightarrow> tensor2 \<Rightarrow> int list \<Rightarrow> real option \<Rightarrow> rng
     \<Rightarrow> (error + pyval) \<times> SynthesizerTrnMsNSFsid \<times> rng" where
  "infer LRELU_SLOPE sequence_mask self phone phone_lengths pitch nsff0 sid rate gen =
     (case emb_g self sid of
        Inl e \<Rightarrow> (Inl e, self, gen)
      | Inr embedded \<Rightarrow>
          (let g = map (map (\<lambda>v. [v])) embedded
           in case TextEncoder_forward sequence_mask (enc_p self) phone pitch phone_lengths of
                Inl e \<Rightarrow> (Inl e, self, gen)
              | Inr returned \<Rightarrow>
                  (case unpack3 returned of
                     Inl e \<Rightarrow> (Inl e, self, gen)
                   | Inr (m_p, logs_p, x_mask) \<Rightarrow>
                       infer_decode LRELU_SLOPE self g m_p logs_p x_mask nsff0 rate gen)))"

section \<open>Fixtures\<close>

text \<open>Two flow steps that return their input, and the block built from them.\<close>

definition ex_layer :: flow_module where
  "ex_layer = \<lparr>class_name = ''ResidualCouplingLayer'', call = (\<lambda>x x_mask g reverse. Inr x)\<rparr>"

definition ex_flip :: flow_module where
  "ex_flip = \<lparr>class_name = ''Flip'', call = (\<lambda>x x_mask g reverse. Inr x)\<rparr>"

definition ex_block :: ResidualCouplingBlock where
  "ex_block = ResidualCouplingBlock_init ex_layer ex_flip 2"

text \<open>Two flow steps that do not commute: one adds 1 to every entry and the other doubles
  it; called with \<open>reverse\<close> they subtract 1 and halve. The block repeats the pair twice.\<close>

definition ex_shift :: flow_module where
  "ex_shift = \<lparr>class_name = ''ResidualCouplingLayer'',
     call = (\<lambda>x x_mask g reverse.
               case x of
                 PTensor t \<Rightarrow> Inr (PTensor (tmap (\<lambda>v. if reverse then v - 1 else v + 1) t))
               | _ \<Rightarrow> Inl TypeError)\<rparr>"

definition ex_scale :: flow_module where
  "ex_scale = \<lparr>class_name = ''Flip'',
     call = (\<lambda>x x_mask g reverse.
               case x of
                 PTensor t \<Rightarrow> Inr (PTensor (tmap (\<lambda>v. if reverse then v * Fin (1 / 2) else v * 2) t))
               | _ \<Rightarrow> Inl TypeError)\<rparr>"

definition ex_block2 :: ResidualCouplingBlock where
  "ex_block2 = ResidualCouplingBlock_init ex_shift ex_scale 2"

text \<open>A network that delivers three bytes in two chunks, one that breaks off after the
  first chunk, and a directory with an installed checkpoint.\<close>

definition ex_net_ok :: network where
  "ex_net_ok = (\<lambda>url. Inr (Response [[1, 2], [3]] None))"

definition ex_net_broken :: network where
  "ex_net_broken = (\<lambda>url. Inr (Response [[1, 2]] (Some URLError)))"

definition ex_hubert_dir :: hubert_dir where
  "ex_hubert_dir = Some (Map.empty(hubert_base \<mapsto> File [9]))"

text \<open>A sine generator with one overtone at a sampling rate of 100, and a generator whose
  uniform draws are all 1/2 and whose normal draws are all 1.\<close>

definition ex_sine :: SineGen where
  "ex_sine = SineGen_init (Some 100) 1 (1 / 10) (3 / 1000) 0"

definition ex_gen :: rng where
  "ex_gen = \<lparr>uniform_draws = (\<lambda>i. 1 / 2), normal_draws = (\<lambda>i. 1), consumed = 0\<rparr>"

text \<open>
  Generators with one upsampling stage and two residual blocks, whose layers all differ:
  \<open>conv_pre\<close> adds 1, the upsampling layer doubles, the residual blocks add 1 and 3,
  \<open>conv_post\<close> halves, and the noise convolution adds 2. The source module's linear layer
  returns a zero.
\<close>

definition ex_generator :: Generator where
  "ex_generator = \<lparr>num_kernels = 2, num_upsamples = 1,
     conv_pre = (\<lambda>x. Inr (tmap (\<lambda>v. v + 1) x)),
     ups = [\<lambda>x. Inr (tmap (\<lambda>v. v * 2) x)],
     resblocks = [\<lambda>x. Inr (tmap (\<lambda>v. v + 1) x), \<lambda>x. Inr (tmap (\<lambda>v. v + 3) x)],
     conv_post = (\<lambda>x. Inr (tmap (\<lambda>v. v * Fin (1 / 2)) x)), cond = None\<rparr>"

definition ex_source :: SourceModuleHnNSF where
  "ex_source = \<lparr>src_sine_amp = 1 / 10, src_noise_std = 3 / 1000, is_half = False,
     l_sin_gen = SineGen_init (Some 100) 0 (1 / 10) (3 / 1000) 0,
     l_linear = (\<lambda>s. Inr [[[0]]]), l_linear_weight_dtype = Float32, ddtype = None\<rparr>"

definition ex_generator_nsf :: GeneratorNSF where
  "ex_generator_nsf = \<lparr>num_kernels = 2, num_upsamples = 1,
     conv_pre = (\<lambda>x. Inr (tmap (\<lambda>v. v + 1) x)),
     ups = [\<lambda>x. Inr (tmap (\<lambda>v. v * 2) x)],
     resblocks = [\<lambda>x. Inr (tmap (\<lambda>v. v + 1) x), \<lambda>x. Inr (tmap (\<lambda>v. v + 3) x)],
     conv_post = (\<lambda>x. Inr (tmap (\<lambda>v. v * Fin (1 / 2)) x)), cond = None,
     f0_upsamp = 1, m_source = ex_source,
     noise_convs = [\<lambda>h. Inr (tmap (\<lambda>v. v + 2) h)], self_upp = 1\<rparr>"

text \<open>A mask from lengths, a pitch embedding, a text encoder and a synthesizer built from
  the modules above.\<close>

definition ex_mask :: "int list \<Rightarrow> nat \<Rightarrow> tensor2" where
  "ex_mask lengths T = map (\<lambda>l. map (\<lambda>i. if int i < l then 1 else 0) [0..<T]) lengths"

definition ex_pitch_embedding :: "int list list \<Rightarrow> error + tensor" where
  "ex_pitch_embedding p = Inr (map (map (\<lambda>i. [Fin (real_of_int i)])) p)"

definition ex_encoder :: TextEncoder where
  "ex_encoder = \<lparr>out_channels = 1, hidden_channels = 1, emb_phone = Inr,
     emb_pitch = Some ex_pitch_embedding, encoder = (\<lambda>x x_mask. Inr x),
     proj = (\<lambda>x. Inr (map (\<lambda>m. m @ m) x))\<rparr>"

definition ex_synth :: SynthesizerTrnMsNSFsid where
  "ex_synth = \<lparr>spec_channels = 1, segment_size = 1, gin_channels = 1, spk_embed_dim = 1,
     enc_p = ex_encoder, dec = ex_generator_nsf,
     enc_q = \<lparr>q_out_channels = 1, q_pre = Inr, q_enc = (\<lambda>x x_mask g. Inr x), q_proj = Inr\<rparr>,
     flow = ex_block, emb_g = (\<lambda>sid. Inr (map (\<lambda>s. [0]) sid))\<rparr>"

section \<open>Properties of floating-point numbers\<close>

lemma numeral_float [simp]: "(numeral n :: float) = Fin (numeral n)"
proof (induction n)
  case One
  show ?case by (simp add: one_float_def)
next
  case (Bit0 n)
  have "(numeral (num.Bit0 n) :: float) = numeral n + numeral n"
    by (rule numeral_Bit0)
  also have "\<dots> = Fin (numeral n + numeral n)"
    unfolding Bit0 by (rule plus_float.simps(1))
  also have "(numeral n + numeral n :: real) = numeral (num.Bit0 n)"
    by (rule numeral_Bit0 [symmetric])
  finally show ?case .
next
  case (Bit1 n)
  have "(numeral (num.Bit1 n) :: float) = numeral n + numeral n + 1"
    by (rule numeral_Bit1)
  also have "\<dots> = Fin (numeral n + numeral n + 1)"
    unfolding Bit1 one_float_def plus_float.simps(1) by (rule refl)
  also have "(numeral n + numeral n + 1 :: real) = numeral (num.Bit1 n)"
    by (rule numeral_Bit1 [symmetric])
  finally show ?case .
qed

lemma zero_float [simp]: "(0 :: float) = Fin 0"
  by (rule zero_float_def)

lemma one_float [simp]: "(1 :: float) = Fin 1"
  by (rule one_float_def)

lemma Fin_minus [simp]: "Fin a - Fin b = Fin (a - b)"
  by (simp add: minus_float_def)

lemma plus_Fin_0 [simp]: "x + Fin 0 = x" "Fin 0 + x = x"
  by (cases x; simp)+

lemma times_Fin_1 [simp]: "x * Fin 1 = x" "Fin 1 * x = x"
  by (cases x; simp)+

lemma Fin_less_eq [simp]: "Fin a \<le> Fin b \<longleftrightarrow> a \<le> b"
  by (auto simp: less_eq_float_def)

lemma sum_list_Fin: "sum_list (map Fin xs) = Fin (sum_list xs)"
  by (induction xs) simp_all

lemma sum_Fin: "(\<Sum>s\<le>t. Fin (x s)) = Fin (\<Sum>s\<le>(t::nat). x s)"
  by (induction t) simp_all

lemma tmap_ident [simp]: "tmap (\<lambda>v. v) x = x"
  by (simp add: tmap_def)

section \<open>Properties of ResidualCouplingBlock\<close>

lemma run_flows_log:
  "run_flows fs x x_mask g reverse calls = (Inr y, calls') \<Longrightarrow>
     calls' = calls @ map (\<lambda>f. (f, reverse)) fs"
proof (induction fs arbitrary: x calls)
  case Nil
  then show ?case by simp
next
  case (Cons f fs)
  from Cons.prems obtain x2 where
    r: "run_flows fs x2 x_mask g reverse (calls @ [(f, reverse)]) = (Inr y, calls')"
    by (auto split: sum.splits)
  from Cons.IH [OF r] show ?case by simp
qed

lemma ResidualCouplingBlock_forward_log:
  "ResidualCouplingBlock_forward self x x_mask g reverse = (Inr y, calls) \<Longrightarrow>
     calls = map (\<lambda>f. (f, reverse)) (if reverse then rev (flows self) else flows self)"
  unfolding ResidualCouplingBlock_forward_def
  using run_flows_log [of _ x x_mask g reverse "[]" y calls] by simp

lemma ResidualCouplingBlock_init_alternates:
  "i < length (flows (ResidualCouplingBlock_init layer flip n)) \<Longrightarrow>
     flows (ResidualCouplingBlock_init layer flip n) ! i = (if even i then layer else flip)"
proof (induction "nat n" arbitrary: n i)
  case 0
  then show ?case by (simp add: ResidualCouplingBlock_init_def)
next
  case (Suc k)
  have n: "nat n = Suc (nat (n - 1))" and k: "k = nat (n - 1)"
    using Suc.hyps(2) by simp_all
  have step: "flows (ResidualCouplingBlock_init layer flip n) =
      layer # flip # flows (ResidualCouplingBlock_init layer flip (n - 1))"
    unfolding ResidualCouplingBlock_init_def by (subst n) simp
  show ?case
  proof (cases i)
    case 0
    then show ?thesis by (simp add: step)
  next
    case (Suc j)
    note i = Suc
    show ?thesis
    proof (cases j)
      case 0
      then show ?thesis by (simp add: step i)
    next
      case (Suc l)
      have "l < length (flows (ResidualCouplingBlock_init layer flip (n - 1)))"
        using Suc.prems i Suc by (simp add: step)
      from Suc.hyps(1) [OF k this] show ?thesis
        by (simp add: step i Suc)
    qed
  qed
qed

lemma ResidualCouplingBlock_init_length:
  "length (flows (ResidualCouplingBlock_init layer flip n)) = 2 * nat n"
  by (induction "nat n" arbitrary: n)
     (simp_all add: ResidualCouplingBlock_init_def length_concat sum_list_replicate)

lemma run_flows_value:
  "fst (run_flows fs x x_mask g reverse calls) = fst (run_flows fs x x_mask g reverse [])"
proof (induction fs arbitrary: x calls)
  case Nil
  show ?case by simp
next
  case (Cons f fs)
  show ?case
  proof (cases "call f x x_mask g reverse")
    case (Inl e)
    then show ?thesis by simp
  next
    case (Inr x')
    have "fst (run_flows fs x' x_mask g reverse (calls @ [(f, reverse)]))
        = fst (run_flows fs x' x_mask g reverse [])"
      by (rule Cons.IH)
    moreover have "fst (run_flows fs x' x_mask g reverse ([] @ [(f, reverse)]))
        = fst (run_flows fs x' x_mask g reverse [])"
      by (rule Cons.IH)
    ultimately show ?thesis using Inr by simp
  qed
qed

lemma run_flows_Cons:
  "fst (run_flows (f # fs) x x_mask g reverse [])
     = (case call f x x_mask g reverse of
          Inl e \<Rightarrow> Inl e
        | Inr x' \<Rightarrow> fst (run_flows fs x' x_mask g reverse []))"
  using run_flows_value [of fs _ x_mask g reverse "[(f, reverse)]"]
  by (simp split: sum.splits)

lemma run_flows_fold:
  "\<forall>f\<in>set fs. \<forall>v. call f v x_mask g reverse = Inr (step f v) \<Longrightarrow>
     fst (run_flows fs x x_mask g reverse calls) = Inr (fold step fs x)"
  by (induction fs arbitrary: x calls) simp_all

text \<open>
  C3. \<open>ResidualCouplingBlock.forward\<close> returns its input when no step is stored. With
  \<open>reverse=False\<close> it calls the first stored step on the input with \<open>reverse=False\<close> and
  passes what that returns through the remaining steps in list order; with
  \<open>reverse=True\<close> it calls the last stored step first, with \<open>reverse=True\<close>, and passes
  what that returns through the steps before it, in reversed order; an exception of a
  step ends the pass. So where every step returns, the result is the steps folded over
  the input in list order, or in reversed list order with \<open>reverse=True\<close>. The steps
  called by a pass that returns are the stored steps in that order, each with the
  \<open>reverse\<close> flag of the pass, and are the same set in both modes. For a block built by
  the constructor the stored list has \<open>2 * n_flows\<close> entries and alternates the coupling
  layer (even positions) with the flip step (odd positions).
\<close>

theorem ResidualCouplingBlock_forward_order:
  "fst (ResidualCouplingBlock_forward \<lparr>flows = []\<rparr> x x_mask g reverse) = Inr x
   \<and> fst (ResidualCouplingBlock_forward \<lparr>flows = f # fs\<rparr> x x_mask g False)
       = (case call f x x_mask g False of
            Inl e \<Rightarrow> Inl e
          | Inr x1 \<Rightarrow> fst (ResidualCouplingBlock_forward \<lparr>flows = fs\<rparr> x1 x_mask g False))
   \<and> fst (ResidualCouplingBlock_forward \<lparr>flows = fs @ [f]\<rparr> x x_mask g True)
       = (case call f x x_mask g True of
            Inl e \<Rightarrow> Inl e
          | Inr x1 \<Rightarrow> fst (ResidualCouplingBlock_forward \<lparr>flows = fs\<rparr> x1 x_mask g True))
   \<and> ((\<forall>s\<in>set (flows self). \<forall>v. call s v x_mask g reverse = Inr (step s v)) \<longrightarrow>
        fst (ResidualCouplingBlock_forward self x x_mask g reverse)
          = Inr (fold step (if reverse then rev (flows self) else flows self) x))
   \<and> (ResidualCouplingBlock_forward self x x_mask g False = (Inr y, log_fwd)
        \<and> ResidualCouplingBlock_forward self x' x_mask' g' True = (Inr y', log_rev) \<longrightarrow>
          log_fwd = map (\<lambda>s. (s, False)) (flows self)
        \<and> log_rev = map (\<lambda>s. (s, True)) (rev (flows self))
        \<and> map fst log_rev = rev (map fst log_fwd)
        \<and> set (map fst log_rev) = set (map fst log_fwd))
   \<and> length (flows (ResidualCouplingBlock_init layer flip n_flows)) = 2 * nat n_flows
   \<and> (\<forall>i < 2 * nat n_flows.
        flows (ResidualCouplingBlock_init layer flip n_flows) ! i
          = (if even i then layer else flip))"
proof -
  have 1: "fst (ResidualCouplingBlock_forward \<lparr>flows = []\<rparr> x x_mask g reverse) = Inr x"
    by (simp add: ResidualCouplingBlock_forward_def)
  have 2: "fst (ResidualCouplingBlock_forward \<lparr>flows = f # fs\<rparr> x x_mask g False)
       = (case call f x x_mask g False of
            Inl e \<Rightarrow> Inl e
          | Inr x1 \<Rightarrow> fst (ResidualCouplingBlock_forward \<lparr>flows = fs\<rparr> x1 x_mask g False))"
    by (simp add: ResidualCouplingBlock_forward_def run_flows_Cons del: run_flows.simps
        cong: sum.case_cong)
  have 3: "fst (ResidualCouplingBlock_forward \<lparr>flows = fs @ [f]\<rparr> x x_mask g True)
       = (case call f x x_mask g True of
            Inl e \<Rightarrow> Inl e
          | Inr x1 \<Rightarrow> fst (ResidualCouplingBlock_forward \<lparr>flows = fs\<rparr> x1 x_mask g True))"
    by (simp add: ResidualCouplingBlock_forward_def run_flows_Cons del: run_flows.simps
        cong: sum.case_cong)
  have 4: "fst (ResidualCouplingBlock_forward self x x_mask g reverse)
          = Inr (fold step (if reverse then rev (flows self) else flows self) x)"
    if "\<forall>s\<in>set (flows self). \<forall>v. call s v x_mask g reverse = Inr (step s v)"
    unfolding ResidualCouplingBlock_forward_def
    using that by (cases reverse) (simp_all add: run_flows_fold)
  have 5: "log_fwd = map (\<lambda>s. (s, False)) (flows self)
        \<and> log_rev = map (\<lambda>s. (s, True)) (rev (flows self))
        \<and> map fst log_rev = rev (map fst log_fwd)
        \<and> set (map fst log_rev) = set (map fst log_fwd)"
    if fwd: "ResidualCouplingBlock_forward self x x_mask g False = (Inr y, log_fwd)"
      and bwd: "ResidualCouplingBlock_forward self x' x_mask' g' True = (Inr y', log_rev)"
  proof -
    have f: "log_fwd = map (\<lambda>s. (s, False)) (flows self)"
      using ResidualCouplingBlock_forward_log [OF fwd] by simp
    have r: "log_rev = map (\<lambda>s. (s, True)) (rev (flows self))"
      using ResidualCouplingBlock_forward_log [OF bwd] by simp
    show ?thesis by (simp add: f r comp_def rev_map)
  qed
  have 6: "\<forall>i < 2 * nat n_flows.
      flows (ResidualCouplingBlock_init layer flip n_flows) ! i = (if even i then layer else flip)"
    using ResidualCouplingBlock_init_alternates [of _ layer flip n_flows]
    by (simp add: ResidualCouplingBlock_init_length)
  show ?thesis
    using 1 2 3 4 5 6 ResidualCouplingBlock_init_length [of layer flip n_flows] by blast
qed

theorem ResidualCouplingBlock_forward_order_witness:
  "ResidualCouplingBlock_forward ex_block2 (PTensor [[[1]]]) [] None False
      = (Inr (PTensor [[[10]]]),
         [(ex_shift, False), (ex_scale, False), (ex_shift, False), (ex_scale, False)])
   \<and> ResidualCouplingBlock_forward ex_block2 (PTensor [[[10]]]) [] None True
      = (Inr (PTensor [[[1]]]),
         [(ex_scale, True), (ex_shift, True), (ex_scale, True), (ex_shift, True)])
   \<and> fst (ResidualCouplingBlock_forward \<lparr>flows = [ex_shift, ex_scale]\<rparr> (PTensor [[[1]]]) [] None
            False)
      = fst (ResidualCouplingBlock_forward \<lparr>flows = [ex_scale]\<rparr> (PTensor [[[2]]]) [] None False)
   \<and> fst (ResidualCouplingBlock_forward \<lparr>flows = [ex_shift, ex_scale]\<rparr> (PTensor [[[4]]]) [] None
            True)
      = fst (ResidualCouplingBlock_forward \<lparr>flows = [ex_shift]\<rparr> (PTensor [[[2]]]) [] None True)
   \<and> fst (ResidualCouplingBlock_forward ex_block (PTensor [[[1]]]) [] None True)
      = Inr (fold (\<lambda>s v. v) (rev (flows ex_block)) (PTensor [[[1]]]))
   \<and> flows ex_block2 ! 0 = ex_shift \<and> flows ex_block2 ! 1 = ex_scale"
proof -
  have fl: "flows ex_block2 = [ex_shift, ex_scale, ex_shift, ex_scale]"
    by (simp add: ex_block2_def ResidualCouplingBlock_init_def numeral_2_eq_2)
  have c1: "call ex_shift (PTensor [[[v]]]) [] None r
      = Inr (PTensor [[[if r then v - 1 else v + 1]]])" for v r
    by (simp add: ex_shift_def tmap_def)
  have c2: "call ex_scale (PTensor [[[v]]]) [] None r
      = Inr (PTensor [[[if r then v * Fin (1 / 2) else v * 2]]])" for v r
    by (simp add: ex_scale_def tmap_def)
  have fwd: "ResidualCouplingBlock_forward ex_block2 (PTensor [[[1]]]) [] None False
      = (Inr (PTensor [[[10]]]),
         [(ex_shift, False), (ex_scale, False), (ex_shift, False), (ex_scale, False)])"
    by (simp add: ResidualCouplingBlock_forward_def fl c1 c2)
  have bwd: "ResidualCouplingBlock_forward ex_block2 (PTensor [[[10]]]) [] None True
      = (Inr (PTensor [[[1]]]),
         [(ex_scale, True), (ex_shift, True), (ex_scale, True), (ex_shift, True)])"
    by (simp add: ResidualCouplingBlock_forward_def fl c1 c2)
  have id: "\<forall>s\<in>set (flows ex_block). \<forall>v. call s v [] None True = Inr ((\<lambda>s v. v) s v)"
    by (simp add: ex_block_def ResidualCouplingBlock_init_def numeral_2_eq_2 ex_layer_def
        ex_flip_def)
  have a: "fst (ResidualCouplingBlock_forward \<lparr>flows = [ex_shift, ex_scale]\<rparr> (PTensor [[[1]]]) []
            None False)
      = fst (ResidualCouplingBlock_forward \<lparr>flows = [ex_scale]\<rparr> (PTensor [[[2]]]) [] None False)"
    using ResidualCouplingBlock_forward_order [where f = ex_shift and fs = "[ex_scale]"
        and x = "PTensor [[[1]]]" and x_mask = "[]" and g = None, THEN conjunct2, THEN conjunct1]
    by (simp add: c1)
  have b: "fst (ResidualCouplingBlock_forward \<lparr>flows = [ex_shift, ex_scale]\<rparr> (PTensor [[[4]]]) []
            None True)
      = fst (ResidualCouplingBlock_forward \<lparr>flows = [ex_shift]\<rparr> (PTensor [[[2]]]) [] None True)"
    using ResidualCouplingBlock_forward_order [where f = ex_scale and fs = "[ex_shift]"
        and x = "PTensor [[[4]]]" and x_mask = "[]" and g = None, THEN conjunct2, THEN conjunct2,
        THEN conjunct1]
    by (simp add: c2)
  have c: "fst (ResidualCouplingBlock_forward ex_block (PTensor [[[1]]]) [] None True)
      = Inr (fold (\<lambda>s v. v) (rev (flows ex_block)) (PTensor [[[1]]]))"
    using ResidualCouplingBlock_forward_order [where self = ex_block and reverse = True
        and step = "\<lambda>s v. v" and x = "PTensor [[[1]]]" and x_mask = "[]" and g = None,
        THEN conjunct2, THEN conjunct2, THEN conjunct2, THEN conjunct1, THEN mp, OF id]
    by simp
  note t6 = ResidualCouplingBlock_forward_order [where layer = ex_shift and flip = ex_scale
      and n_flows = 2, THEN conjunct2, THEN conjunct2, THEN conjunct2, THEN conjunct2,
      THEN conjunct2, THEN conjunct2, rule_format]
  have d: "flows ex_block2 ! 0 = ex_shift \<and> flows ex_block2 ! 1 = ex_scale"
    using t6 [of 0] t6 [of 1] by (simp add: ex_block2_def)
  show ?thesis using fwd bwd a b c d by blast
qed

section \<open>Properties of download\_hubert.py\<close>

lemma copyfileobj_concat: "copyfileobj cs out = out @ concat cs"
  by (induction cs arbitrary: out) simp_all

lemma entry_Some [simp]: "entry (Some es) n = es n"
  by (simp add: entry_def)

lemma entry_None [simp]: "entry None n = None"
  by (simp add: entry_def)

lemma hubert_tmp_distinct [simp]: "hubert_base \<noteq> tmp_model" "tmp_model \<noteq> hubert_base"
  by (simp_all add: hubert_base_def tmp_model_def)

text \<open>
  C9. \<open>download_and_replace_model\<close> replaces the installed checkpoint only by a complete
  download. Whenever the call raises, \<^verbatim>\<open>hubert_base.pt\<close> is what it was before the call.
  When \<^verbatim>\<open>urlopen\<close> raises, nothing at all has changed. When the body of the response
  breaks off, the bytes received so far are in \<^verbatim>\<open>tmp_model.pt\<close> (unless that file could
  not be opened) and the call raises. When the call returns, the download had completed,
  \<^verbatim>\<open>hubert_base.pt\<close> holds exactly the downloaded bytes and \<^verbatim>\<open>tmp_model.pt\<close> is gone.
\<close>

theorem download_and_replace_model_atomic:
  assumes "download_and_replace_model net fs model_desc = (r, fs')"
  shows "(\<forall>e. r = Inl e \<longrightarrow> entry fs' hubert_base = entry fs hubert_base)
       \<and> (\<forall>name e. models model_desc = Some name \<longrightarrow> net (base_url @ name) = Inl e
             \<longrightarrow> r = Inl e \<and> fs' = fs)
       \<and> (\<forall>name resp e. models model_desc = Some name \<longrightarrow> net (base_url @ name) = Inr resp
             \<longrightarrow> failure resp = Some e
             \<longrightarrow> (r = Inl OSError \<and> fs' = fs)
                 \<or> (r = Inl e \<and> entry fs' tmp_model = Some (File (concat (chunks resp)))))
       \<and> (\<forall>m. r = Inr m \<longrightarrow>
             m = Installed model_desc
             \<and> (\<exists>name resp. models model_desc = Some name
                   \<and> net (base_url @ name) = Inr resp \<and> failure resp = None
                   \<and> entry fs' hubert_base = Some (File (concat (chunks resp)))
                   \<and> entry fs' tmp_model = None))"
  using assms
  unfolding download_and_replace_model_def open_wb_def os_remove_def os_rename_def Let_def
  by (auto simp: copyfileobj_concat split: option.splits sum.splits node.splits if_splits)

theorem download_and_replace_model_atomic_witness:
  "fst (download_and_replace_model ex_net_broken ex_hubert_dir Standard) = Inl URLError
   \<and> entry (snd (download_and_replace_model ex_net_broken ex_hubert_dir Standard)) hubert_base
       = Some (File [9])
   \<and> entry (snd (download_and_replace_model ex_net_broken ex_hubert_dir Standard)) tmp_model
       = Some (File [1, 2])
   \<and> fst (download_and_replace_model ex_net_ok ex_hubert_dir Standard) = Inr (Installed Standard)
   \<and> entry (snd (download_and_replace_model ex_net_ok ex_hubert_dir Standard)) hubert_base
       = Some (File [1, 2, 3])
   \<and> entry (snd (download_and_replace_model ex_net_ok ex_hubert_dir Standard)) tmp_model = None"
proof -
  have b: "fst (download_and_replace_model ex_net_broken ex_hubert_dir Standard) = Inl URLError"
    by (simp add: download_and_replace_model_def ex_net_broken_def ex_hubert_dir_def open_wb_def)
  have g: "fst (download_and_replace_model ex_net_ok ex_hubert_dir Standard) = Inr (Installed Standard)"
    by (simp add: download_and_replace_model_def ex_net_ok_def ex_hubert_dir_def open_wb_def
        os_remove_def os_rename_def)
  have nb: "ex_net_broken (base_url @ ''hubert_base.pt'') = Inr (Response [[1, 2]] (Some URLError))"
    by (simp add: ex_net_broken_def)
  have ng: "ex_net_ok (base_url @ ''hubert_base.pt'') = Inr (Response [[1, 2], [3]] None)"
    by (simp add: ex_net_ok_def)
  have h0: "entry ex_hubert_dir hubert_base = Some (File [9])"
    by (simp add: ex_hubert_dir_def)
  from download_and_replace_model_atomic
    [OF surjective_pairing, of ex_net_broken ex_hubert_dir Standard] b nb h0
  have 1: "entry (snd (download_and_replace_model ex_net_broken ex_hubert_dir Standard)) hubert_base
       = Some (File [9])"
    and 2: "entry (snd (download_and_replace_model ex_net_broken ex_hubert_dir Standard)) tmp_model
       = Some (File [1, 2])"
    by auto
  from download_and_replace_model_atomic
    [OF surjective_pairing, of ex_net_ok ex_hubert_dir Standard] g ng
  have 3: "entry (snd (download_and_replace_model ex_net_ok ex_hubert_dir Standard)) hubert_base
       = Some (File [1, 2, 3])"
    and 4: "entry (snd (download_and_replace_model ex_net_ok ex_hubert_dir Standard)) tmp_model = None"
    by auto
  from b g 1 2 3 4 show ?thesis by simp
qed

section \<open>Properties of the operations along the time axis\<close>

lemma cumsum_from_length [simp]: "length (cumsum_from acc xs) = length xs"
  by (induction xs arbitrary: acc) simp_all

lemma cumsum_from_nth:
  "t < length xs \<Longrightarrow> cumsum_from acc xs ! t = acc + sum_list (take (Suc t) xs)"
proof (induction xs arbitrary: acc t)
  case Nil
  then show ?case by simp
next
  case (Cons x xs)
  show ?case
  proof (cases t)
    case 0
    then show ?thesis by simp
  next
    case (Suc n)
    then have "n < length xs" using Cons.prems by simp
    from Cons.IH [OF this, of "acc + x"] Suc show ?thesis by (simp add: add.assoc)
  qed
qed

lemma cumsum_length [simp]: "length (cumsum xs) = length xs"
  by (simp add: cumsum_def)

lemma cumsum_nth: "t < length xs \<Longrightarrow> cumsum xs ! t = sum_list (take (Suc t) xs)"
  by (simp add: cumsum_def cumsum_from_nth)

lemma interpolate_nearest_length [simp]:
  "length (interpolate_nearest upp xs) = length xs * upp"
  by (simp add: interpolate_nearest_def)

lemma interpolate_nearest_nth:
  assumes "i < length xs * upp"
  shows "interpolate_nearest upp xs ! i = xs ! (i div upp)"
proof -
  have "upp > 0" using assms by (cases upp) simp_all
  then have "i div upp < length xs"
    using assms by (simp add: less_mult_imp_div_less)
  then have "min (i div upp) (length xs - 1) = i div upp" by simp
  then show ?thesis using assms by (simp add: interpolate_nearest_def)
qed

lemma interpolate_linear_length [simp]:
  "length (interpolate_linear upp xs) = length xs * upp"
  by (simp add: interpolate_linear_def Let_def)

lemma series_length [simp]: "length (series k frames) = length frames"
  by (simp add: series_def)

lemma series_nth: "t < length frames \<Longrightarrow> series k frames ! t = frames ! t ! k"
  by (simp add: series_def)

lemma along_time_length:
  assumes "D > 0" and "\<And>k. k < D \<Longrightarrow> length (f (series k frames)) = n"
  shows "length (along_time D f frames) = n"
proof -
  have "map (\<lambda>k. f (series k frames)) [0..<D] \<noteq> []" using assms(1) by simp
  then obtain c cs where c: "map (\<lambda>k. f (series k frames)) [0..<D] = c # cs"
    by (cases "map (\<lambda>k. f (series k frames)) [0..<D]") auto
  then have "c = map (\<lambda>k. f (series k frames)) [0..<D] ! 0" by simp
  also have "\<dots> = f (series 0 frames)" using assms(1) by simp
  finally have "length c = n" using assms by simp
  then show ?thesis by (simp add: along_time_def c)
qed

lemma along_time_nth:
  assumes "D > 0" and "\<And>k. k < D \<Longrightarrow> length (f (series k frames)) = n"
    and "t < n" and "k < D"
  shows "along_time D f frames ! t ! k = f (series k frames) ! t"
    and "length (along_time D f frames ! t) = D"
proof -
  have "map (\<lambda>k. f (series k frames)) [0..<D] \<noteq> []" using assms(1) by simp
  then obtain c cs where c: "map (\<lambda>k. f (series k frames)) [0..<D] = c # cs"
    by (cases "map (\<lambda>k. f (series k frames)) [0..<D]") auto
  then have "c = map (\<lambda>k. f (series k frames)) [0..<D] ! 0" by simp
  also have "\<dots> = f (series 0 frames)" using assms(1) by simp
  finally have n: "length c = n" using assms by simp
  have eq: "along_time D f frames
      = map (\<lambda>t. map (\<lambda>c. c ! t) (map (\<lambda>k. f (series k frames)) [0..<D])) [0..<n]"
    by (simp add: along_time_def c [symmetric] Let_def) (simp add: c n)
  show "along_time D f frames ! t ! k = f (series k frames) ! t"
    using assms(3,4) by (simp add: eq)
  show "length (along_time D f frames ! t) = D"
    using assms(3) by (simp add: eq)
qed

lemma rows_of_length [simp]: "length (rows_of n d xs) = n"
  by (simp add: rows_of_def)

lemma rows_of_nth:
  assumes "i < n" and "k < d" and "n * d \<le> length xs"
  shows "rows_of n d xs ! i ! k = xs ! (i * d + k)"
    and "length (rows_of n d xs ! i) = d"
proof -
  have "Suc i * d \<le> n * d" using assms(1) by (simp add: Suc_leI mult_le_mono1 del: mult_Suc)
  then have le: "i * d + d \<le> length xs" using assms(3) by simp
  show "rows_of n d xs ! i ! k = xs ! (i * d + k)"
    using assms le by (simp add: rows_of_def)
  show "length (rows_of n d xs ! i) = d"
    using assms le by (simp add: rows_of_def)
qed

lemma sum_list_take_Suc:
  "t < length xs \<Longrightarrow> sum_list (take (Suc t) xs) = (\<Sum>s\<le>t. xs ! s)"
  for xs :: "'a::comm_monoid_add list"
proof (induction t)
  case 0
  then show ?case by (cases xs) simp_all
next
  case (Suc t)
  then have "sum_list (take (Suc (Suc t)) xs) = sum_list (take (Suc t) xs) + xs ! Suc t"
    by (simp add: take_Suc_conv_app_nth [of "Suc t"])
  then show ?case using Suc by simp
qed

lemma SineGen_f0_buf_ok:
  assumes "dim self = harmonic_num self + 1"
  shows "SineGen_f0_buf self f0
      = Inr (map (map (\<lambda>v. map (\<lambda>k. v * Fin (real (k + 1))) [0..<dim self])) f0)"
proof -
  have "map (\<lambda>k. if k = 0 then v else if k \<le> harmonic_num self then v * Fin (real (k + 1))
                   else 0) [0..<dim self]
      = map (\<lambda>k. v * Fin (real (k + 1))) [0..<dim self]" for v :: float
    using assms by (intro map_cong) auto
  then show ?thesis using assms by (simp add: SineGen_f0_buf_def)
qed

lemma rand_ini_nth:
  assumes "b < B" and "k < D"
  shows "map (\<lambda>r. r[0 := 0]) (rows_of B D (map Fin (fst (torch_rand (B * D) gen)))) ! b ! k
      = Fin (if k = 0 then 0 else uniform_draws gen (consumed gen + b * D + k))"
    and "length (map (\<lambda>r. r[0 := 0]) (rows_of B D (map Fin (fst (torch_rand (B * D) gen)))) ! b)
      = D"
proof -
  let ?xs = "map Fin (fst (torch_rand (B * D) gen))"
  have len: "length ?xs = B * D" by (simp add: torch_rand_def)
  have r: "rows_of B D ?xs ! b ! k = ?xs ! (b * D + k)" and l: "length (rows_of B D ?xs ! b) = D"
    using rows_of_nth [OF assms, of ?xs] len by simp_all
  have "Suc b * D \<le> B * D" using assms(1) by (simp add: Suc_leI mult_le_mono1 del: mult_Suc)
  then have "b * D + k < B * D" using assms(2) by simp
  then have x: "?xs ! (b * D + k) = Fin (uniform_draws gen (consumed gen + b * D + k))"
    by (simp add: torch_rand_def add.assoc)
  show "map (\<lambda>r. r[0 := 0]) (rows_of B D ?xs) ! b ! k
      = Fin (if k = 0 then 0 else uniform_draws gen (consumed gen + b * D + k))"
    using assms r l x by (simp add: nth_list_update)
  show "length (map (\<lambda>r. r[0 := 0]) (rows_of B D ?xs) ! b) = D"
    using assms l by simp
qed

lemma SineGen_rad_values_nth:
  assumes "length f0_buf = length rand_ini" and "b < length f0_buf"
    and "length (f0_buf ! b) = T" and "j < T"
    and "length (f0_buf ! b ! j) = D" and "length (rand_ini ! b) = D" and "k < D"
  shows "SineGen_rad_values sr f0_buf rand_ini ! b ! j ! k
      = fmod1 (div_scalar (f0_buf ! b ! j ! k) sr) + (if j = 0 then rand_ini ! b ! k else 0)"
    and "length (SineGen_rad_values sr f0_buf rand_ini ! b) = T"
    and "length (SineGen_rad_values sr f0_buf rand_ini ! b ! j) = D"
proof -
  obtain first rest where fr: "f0_buf ! b = first # rest"
    using assms(3,4) by (cases "f0_buf ! b") auto
  have rv: "SineGen_rad_values sr f0_buf rand_ini ! b
      = map2 (+) (map (\<lambda>v. fmod1 (div_scalar v sr)) first) (rand_ini ! b)
          # map (map (\<lambda>v. fmod1 (div_scalar v sr))) rest"
    using assms(1,2) by (simp add: SineGen_rad_values_def fr)
  show "length (SineGen_rad_values sr f0_buf rand_ini ! b) = T"
    using assms(3) by (simp add: rv fr)
  show "SineGen_rad_values sr f0_buf rand_ini ! b ! j ! k
      = fmod1 (div_scalar (f0_buf ! b ! j ! k) sr) + (if j = 0 then rand_ini ! b ! k else 0)"
  proof (cases j)
    case 0
    then show ?thesis using assms(5,6,7) by (simp add: rv fr)
  next
    case (Suc i)
    then have "i < length rest" using assms(3,4) fr by simp
    then show ?thesis using Suc assms(5,7) by (simp add: rv fr)
  qed
  show "length (SineGen_rad_values sr f0_buf rand_ini ! b ! j) = D"
  proof (cases j)
    case 0
    then show ?thesis using assms(5,6) by (simp add: rv fr)
  next
    case (Suc i)
    then have "i < length rest" using assms(3,4) fr by simp
    then show ?thesis using Suc assms(5) by (simp add: rv fr)
  qed
qed

lemma SineGen_upsampled_nth:
  assumes "D > 0" and "length r = T" and "\<And>j. j < T \<Longrightarrow> length (r ! j) = D"
    and "s < T * upp" and "k < D"
  shows "SineGen_upsampled D upp r ! s ! k = fmod1 (r ! (s div upp) ! k)"
    and "length (SineGen_upsampled D upp r) = T * upp"
    and "length (SineGen_upsampled D upp r ! s) = D"
proof -
  have len: "\<And>k. k < D \<Longrightarrow> length (interpolate_nearest upp (series k r)) = T * upp"
    using assms(2) by simp
  have l: "length (along_time D (interpolate_nearest upp) r) = T * upp"
    by (rule along_time_length) (use assms(1) len in simp_all)
  have "upp > 0" using assms(4) by (cases upp) simp_all
  then have d: "s div upp < T"
    using assms(4) by (simp add: less_mult_imp_div_less)
  have "along_time D (interpolate_nearest upp) r ! s ! k = interpolate_nearest upp (series k r) ! s"
    by (rule along_time_nth(1) [where n = "T * upp"]) (use assms(1,4,5) len in simp_all)
  also have "\<dots> = series k r ! (s div upp)"
    using assms(2,4) by (simp add: interpolate_nearest_nth)
  also have "\<dots> = r ! (s div upp) ! k"
    using d assms(2) by (simp add: series_nth)
  finally have v: "along_time D (interpolate_nearest upp) r ! s ! k = r ! (s div upp) ! k" .
  have rl: "length (along_time D (interpolate_nearest upp) r ! s) = D"
    by (rule along_time_nth(2) [where n = "T * upp" and k = k]) (use assms(1,4,5) len in simp_all)
  show "SineGen_upsampled D upp r ! s ! k = fmod1 (r ! (s div upp) ! k)"
    using l assms(4,5) rl v by (simp add: SineGen_upsampled_def)
  show "length (SineGen_upsampled D upp r) = T * upp"
    using l by (simp add: SineGen_upsampled_def)
  show "length (SineGen_upsampled D upp r ! s) = D"
    using l assms(4) rl by (simp add: SineGen_upsampled_def)
qed

lemma interpolate_linear_nth:
  assumes "i < length xs * upp"
  shows "interpolate_linear upp xs ! i
      = (let pos = (if length xs * upp > 1
                    then real i * real (length xs - 1) / real (length xs * upp - 1) else 0);
             lo = nat \<lfloor>pos\<rfloor>;
             hi = min (lo + 1) (length xs - 1);
             w = pos - real lo
         in Fin (1 - w) * xs ! lo + Fin w * xs ! hi)"
  using assms by (simp add: interpolate_linear_def Let_def)

lemma linear_position_bound:
  assumes "i < n * upp"
  shows "nat \<lfloor>if n * upp > 1 then real i * real (n - 1) / real (n * upp - 1) else 0\<rfloor> < n"
proof (cases "n * upp > 1")
  case False
  then show ?thesis using assms by (cases n) simp_all
next
  case True
  have n: "0 < n" using assms by (cases n) simp_all
  have "real i \<le> real (n * upp - 1)" using assms by simp
  then have "real i * real (n - 1) \<le> real (n * upp - 1) * real (n - 1)"
    by (rule mult_right_mono) simp
  then have "real i * real (n - 1) / real (n * upp - 1) \<le> real (n - 1)"
    using True by (simp add: pos_divide_le_eq mult.commute)
  then have "\<lfloor>real i * real (n - 1) / real (n * upp - 1)\<rfloor> \<le> int (n - 1)"
    by (simp add: floor_le_iff)
  then have "nat \<lfloor>real i * real (n - 1) / real (n * upp - 1)\<rfloor> \<le> n - 1"
    by simp
  then show ?thesis using True n by simp
qed

lemma interpolate_linear_Fin:
  assumes "i < length ys * upp"
  shows "interpolate_linear upp (map Fin ys) ! i
      = Fin (let pos = (if length ys * upp > 1
                        then real i * real (length ys - 1) / real (length ys * upp - 1) else 0);
                 lo = nat \<lfloor>pos\<rfloor>;
                 hi = min (lo + 1) (length ys - 1);
                 w = pos - real lo
             in (1 - w) * ys ! lo + w * ys ! hi)"
proof -
  let ?pos = "if length ys * upp > 1
              then real i * real (length ys - 1) / real (length ys * upp - 1) else 0"
  have lo: "nat \<lfloor>?pos\<rfloor> < length ys"
    using linear_position_bound [OF assms] .
  have n: "0 < length ys" using assms by (cases ys) simp_all
  then have hi: "min (nat \<lfloor>?pos\<rfloor> + 1) (length ys - 1) < length ys"
    by (intro min.strict_coboundedI2) simp
  have "interpolate_linear upp (map Fin ys) ! i
      = Fin (1 - (?pos - real (nat \<lfloor>?pos\<rfloor>))) * map Fin ys ! nat \<lfloor>?pos\<rfloor>
        + Fin (?pos - real (nat \<lfloor>?pos\<rfloor>))
          * map Fin ys ! min (nat \<lfloor>?pos\<rfloor> + 1) (length ys - 1)"
    using interpolate_linear_nth [of i "map Fin ys" upp] assms by (simp add: Let_def)
  also have "\<dots> = Fin ((1 - (?pos - real (nat \<lfloor>?pos\<rfloor>))) * ys ! nat \<lfloor>?pos\<rfloor>
        + (?pos - real (nat \<lfloor>?pos\<rfloor>)) * ys ! min (nat \<lfloor>?pos\<rfloor> + 1) (length ys - 1))"
    using lo hi by (simp only: nth_map times_float.simps plus_float.simps)
  finally show ?thesis by (simp add: Let_def)
qed

lemma shift_of_nth:
  assumes "\<And>s. s < length X \<Longrightarrow> length (X ! s) = D" and "s < length X" and "k < D"
  shows "shift_of X ! s ! k
      = (if 0 < s \<and> X ! s ! k - X ! (s - 1) ! k < 0 then Fin (- 1) else Fin 0)"
    and "length (shift_of X) = length X"
    and "length (shift_of X ! s) = D"
proof -
  obtain first rest where fr: "X = first # rest"
    using assms(2) by (cases X) auto
  have l0: "length first = D" using assms(1) [of 0] fr by simp
  have sh: "shift_of X = map (\<lambda>v. 0) first
      # map2 (map2 (\<lambda>b a. (if b - a < 0 then 1 else 0) * (- 1))) rest (butlast X)"
    by (simp add: shift_of_def fr)
  show "length (shift_of X) = length X"
    by (simp add: sh) (simp add: fr)
  have rows: "length (rest ! i) = D" "length (X ! i) = D" "butlast X ! i = X ! i"
    if "i < length rest" for i
  proof -
    have "rest ! i = X ! Suc i" by (simp add: fr)
    then show "length (rest ! i) = D"
      using assms(1) [of "Suc i"] that by (simp add: fr)
    show "length (X ! i) = D"
      using assms(1) [of i] that by (simp add: fr)
    have "i < length (butlast X)" using that by (auto simp: fr)
    then show "butlast X ! i = X ! i" by (rule nth_butlast)
  qed
  have lb: "length (butlast X) = length rest" by (simp add: fr)
  show "shift_of X ! s ! k
      = (if 0 < s \<and> X ! s ! k - X ! (s - 1) ! k < 0 then Fin (- 1) else Fin 0)"
  proof (cases s)
    case 0
    then show ?thesis using assms(3) l0 by (simp add: sh)
  next
    case (Suc i)
    then have i: "i < length rest" using assms(2) fr by simp
    have x: "X ! s = rest ! i" using Suc by (simp add: fr)
    note l1 = rows(1) [OF i] and l2 = rows(2) [OF i] and bl = rows(3) [OF i]
    have "shift_of X ! s ! k = (if rest ! i ! k - X ! i ! k < 0 then 1 else 0) * (- 1)"
      using Suc i lb assms(3) l1 l2 by (simp add: sh bl del: zero_float one_float)
    then show ?thesis using Suc x by simp
  qed
  show "length (shift_of X ! s) = D"
  proof (cases s)
    case 0
    then show ?thesis using l0 by (simp add: sh)
  next
    case (Suc i)
    then have i: "i < length rest" using assms(2) fr by simp
    then show ?thesis using Suc rows [OF i] lb by (simp add: sh)
  qed
qed

text \<open>The cumulative phase of harmonic \<open>k\<close>, scaled by \<open>upp\<close>, as a sequence over the frames.\<close>

lemma scaled_cumsum_series:
  assumes "D > 0" and "length r = T" and "k < D"
  shows "series k (map (map (\<lambda>v. v * c)) (along_time D cumsum r))
      = map (\<lambda>j. (\<Sum>i\<le>j. r ! i ! k) * c) [0..<T]"
proof (rule nth_equalityI)
  have lc: "length (along_time D cumsum r) = T"
    by (rule along_time_length) (use assms(1,2) in simp_all)
  show "length (series k (map (map (\<lambda>v. v * c)) (along_time D cumsum r)))
      = length (map (\<lambda>j. (\<Sum>i\<le>j. r ! i ! k) * c) [0..<T])"
    using lc by simp
  fix j assume "j < length (series k (map (map (\<lambda>v. v * c)) (along_time D cumsum r)))"
  then have j: "j < T" using lc by simp
  have rl: "length (along_time D cumsum r ! j) = D"
    by (rule along_time_nth(2) [where n = T and k = k]) (use assms j in simp_all)
  have "along_time D cumsum r ! j ! k = cumsum (series k r) ! j"
    by (rule along_time_nth(1) [where n = T]) (use assms j in simp_all)
  also have "\<dots> = sum_list (take (Suc j) (series k r))"
    using j assms(2) by (simp add: cumsum_nth)
  also have "\<dots> = (\<Sum>i\<le>j. series k r ! i)"
    using j assms(2) by (simp add: sum_list_take_Suc)
  also have "\<dots> = (\<Sum>i\<le>j. r ! i ! k)"
    using j assms(2) by (intro sum.cong) (simp_all add: series_nth)
  finally have "along_time D cumsum r ! j ! k = (\<Sum>i\<le>j. r ! i ! k)" .
  then show "series k (map (map (\<lambda>v. v * c)) (along_time D cumsum r)) ! j
      = map (\<lambda>j. (\<Sum>i\<le>j. r ! i ! k) * c) [0..<T] ! j"
    using j lc rl assms(3) by (simp add: series_nth)
qed

lemma SineGen_cumsum_shift_nth:
  assumes "D > 0" and "length r = T" and "s < T * upp" and "k < D"
  shows "SineGen_cumsum_shift D upp r ! s ! k
      = (if 0 < s
            \<and> fmod1 (interpolate_linear upp
                        (map (\<lambda>j. (\<Sum>i\<le>j. r ! i ! k) * Fin (real upp)) [0..<T]) ! s)
              - fmod1 (interpolate_linear upp
                        (map (\<lambda>j. (\<Sum>i\<le>j. r ! i ! k) * Fin (real upp)) [0..<T]) ! (s - 1))
              < 0
         then Fin (- 1) else Fin 0)"
    and "length (SineGen_cumsum_shift D upp r) = T * upp"
    and "length (SineGen_cumsum_shift D upp r ! s) = D"
proof -
  let ?c = "map (map (\<lambda>v. v * Fin (real upp))) (along_time D cumsum r)"
  let ?X = "map (map fmod1) (along_time D (interpolate_linear upp) ?c)"
  let ?col = "map (\<lambda>j. (\<Sum>i\<le>j. r ! i ! k) * Fin (real upp)) [0..<T]"
  have lc: "length (along_time D cumsum r) = T"
    by (rule along_time_length) (use assms(1,2) in simp_all)
  have lx: "length (along_time D (interpolate_linear upp) ?c) = T * upp"
    by (rule along_time_length) (use assms(1) lc in simp_all)
  have rx: "length (along_time D (interpolate_linear upp) ?c ! i) = D" if "i < T * upp" for i
    by (rule along_time_nth(2) [where n = "T * upp" and k = k]) (use assms(1,4) lc that in simp_all)
  have X: "length ?X = T * upp" and XR: "\<And>i. i < length ?X \<Longrightarrow> length (?X ! i) = D"
    using lx rx by simp_all
  have eq: "SineGen_cumsum_shift D upp r = shift_of ?X"
    by (simp add: SineGen_cumsum_shift_def)
  have sX: "s < length ?X" using X assms(3) by simp
  have col: "series k ?c = ?col"
    by (rule scaled_cumsum_series [OF assms(1,2,4)])
  have v: "?X ! i ! k = fmod1 (interpolate_linear upp ?col ! i)" if "i < T * upp" for i
  proof -
    have "along_time D (interpolate_linear upp) ?c ! i ! k
        = interpolate_linear upp (series k ?c) ! i"
      by (rule along_time_nth(1) [where n = "T * upp"]) (use assms(1,4) lc that in simp_all)
    then show ?thesis using that lx rx [OF that] assms(4) by (simp add: col)
  qed
  have "shift_of ?X ! s ! k
      = (if 0 < s \<and> ?X ! s ! k - ?X ! (s - 1) ! k < 0 then Fin (- 1) else Fin 0)"
    by (rule shift_of_nth(1) [OF XR sX assms(4)])
  moreover have "?X ! s ! k = fmod1 (interpolate_linear upp ?col ! s)"
    by (rule v [OF assms(3)])
  moreover have "?X ! (s - 1) ! k = fmod1 (interpolate_linear upp ?col ! (s - 1))"
    by (rule v) (use assms(3) in simp)
  ultimately show "SineGen_cumsum_shift D upp r ! s ! k
      = (if 0 < s
            \<and> fmod1 (interpolate_linear upp ?col ! s)
              - fmod1 (interpolate_linear upp ?col ! (s - 1)) < 0
         then Fin (- 1) else Fin 0)"
    unfolding eq by simp
  show "length (SineGen_cumsum_shift D upp r) = T * upp"
    unfolding eq using shift_of_nth(2) [OF XR sX assms(4)] X by simp
  show "length (SineGen_cumsum_shift D upp r ! s) = D"
    unfolding eq by (rule shift_of_nth(3) [OF XR sX assms(4)])
qed

lemma SineGen_increments_nth:
  assumes "D > 0" and "length r = T" and "\<And>j. j < T \<Longrightarrow> length (r ! j) = D"
    and "s < T * upp" and "k < D"
  shows "SineGen_increments D upp r ! s ! k
      = fmod1 (r ! (s div upp) ! k) + SineGen_cumsum_shift D upp r ! s ! k"
    and "length (SineGen_increments D upp r) = T * upp"
    and "length (SineGen_increments D upp r ! s) = D"
proof -
  note u = SineGen_upsampled_nth [OF assms]
  note c = SineGen_cumsum_shift_nth(2,3) [OF assms(1,2,4,5)]
  show "SineGen_increments D upp r ! s ! k
      = fmod1 (r ! (s div upp) ! k) + SineGen_cumsum_shift D upp r ! s ! k"
    using u c assms(4,5) by (simp add: SineGen_increments_def)
  show "length (SineGen_increments D upp r) = T * upp"
    using u c by (simp add: SineGen_increments_def)
  show "length (SineGen_increments D upp r ! s) = D"
    using u c assms(4) by (simp add: SineGen_increments_def)
qed

lemma SineGen_sine_waves_nth:
  assumes "dim self > 0" and "length r = T" and "\<And>j. j < T \<Longrightarrow> length (r ! j) = dim self"
    and "t < T * upp" and "k < dim self"
  shows "SineGen_sine_waves self upp r ! t ! k
      = fsin ((\<Sum>s\<le>t. SineGen_increments (dim self) upp r ! s ! k) * 2 * Fin pi)
        * Fin (sine_amp self)"
    and "length (SineGen_sine_waves self upp r) = T * upp"
    and "length (SineGen_sine_waves self upp r ! t) = dim self"
proof -
  let ?I = "SineGen_increments (dim self) upp r"
  have li: "length ?I = T * upp"
    using SineGen_increments_nth(2) [OF assms] .
  have lc: "length (along_time (dim self) cumsum ?I) = T * upp"
    by (rule along_time_length) (use assms(1) li in simp_all)
  have rc: "length (along_time (dim self) cumsum ?I ! t) = dim self"
    by (rule along_time_nth(2) [where n = "T * upp" and k = k]) (use assms(1,4,5) li in simp_all)
  have "along_time (dim self) cumsum ?I ! t ! k = cumsum (series k ?I) ! t"
    by (rule along_time_nth(1) [where n = "T * upp"]) (use assms(1,4,5) li in simp_all)
  also have "\<dots> = sum_list (take (Suc t) (series k ?I))"
    using assms(4) li by (simp add: cumsum_nth)
  also have "\<dots> = (\<Sum>s\<le>t. series k ?I ! s)"
    using assms(4) li by (simp add: sum_list_take_Suc)
  also have "\<dots> = (\<Sum>s\<le>t. ?I ! s ! k)"
    using assms(4) li by (intro sum.cong) (simp_all add: series_nth)
  finally have v: "along_time (dim self) cumsum ?I ! t ! k = (\<Sum>s\<le>t. ?I ! s ! k)" .
  show "SineGen_sine_waves self upp r ! t ! k
      = fsin ((\<Sum>s\<le>t. ?I ! s ! k) * 2 * Fin pi) * Fin (sine_amp self)"
    using lc rc v assms(4,5) by (simp add: SineGen_sine_waves_def del: numeral_float)
  show "length (SineGen_sine_waves self upp r) = T * upp"
    using lc by (simp add: SineGen_sine_waves_def)
  show "length (SineGen_sine_waves self upp r ! t) = dim self"
    using lc rc assms(4) by (simp add: SineGen_sine_waves_def)
qed

lemma with_frame_value_nth:
  assumes "b < length x" and "b < length u" and "t < length (x ! b)" and "t < length (u ! b)"
    and "k < length (x ! b ! t)"
  shows "with_frame_value f x u ! b ! t ! k = f (x ! b ! t ! k) (u ! b ! t ! 0)"
    and "length (with_frame_value f x u ! b ! t) = length (x ! b ! t)"
  using assms by (simp_all add: with_frame_value_def)

lemma with_frame_value_length:
  "length (with_frame_value f x u) = min (length x) (length u)"
  by (simp add: with_frame_value_def)

lemma with_frame_value_length_nth:
  "b < length x \<Longrightarrow> b < length u \<Longrightarrow>
     length (with_frame_value f x u ! b) = min (length (x ! b)) (length (u ! b))"
  by (simp add: with_frame_value_def)

lemma uv_upsampled_nth:
  assumes "b < length f0" and "length (f0 ! b) = T" and "t < T * upp"
  shows "map (along_time 1 (interpolate_nearest upp))
           (SineGen_f02uv self (map (map (\<lambda>v. [v])) f0)) ! b ! t
      = [if Fin (voiced_threshold self) < f0 ! b ! (t div upp) then 1 else 0]"
    and "length (map (along_time 1 (interpolate_nearest upp))
           (SineGen_f02uv self (map (map (\<lambda>v. [v])) f0)) ! b) = T * upp"
proof -
  let ?fr = "SineGen_f02uv self (map (map (\<lambda>v. [v])) f0) ! b"
  have fr: "?fr = map (\<lambda>v. [if Fin (voiced_threshold self) < v then 1 else 0]) (f0 ! b)"
    using assms(1) by (simp add: SineGen_f02uv_def comp_def)
  have lf: "length ?fr = T" using assms(2) by (simp add: fr)
  have "upp > 0" using assms(3) by (cases upp) simp_all
  then have d: "t div upp < T"
    using assms(3) by (simp add: less_mult_imp_div_less)
  have l: "length (along_time 1 (interpolate_nearest upp) ?fr) = T * upp"
    by (rule along_time_length) (use lf in simp_all)
  have rl: "length (along_time 1 (interpolate_nearest upp) ?fr ! t) = 1"
    by (rule along_time_nth(2) [where n = "T * upp" and k = 0]) (use lf assms(3) in simp_all)
  have "along_time 1 (interpolate_nearest upp) ?fr ! t ! 0
      = interpolate_nearest upp (series 0 ?fr) ! t"
    by (rule along_time_nth(1) [where n = "T * upp"]) (use lf assms(3) in simp_all)
  also have "\<dots> = series 0 ?fr ! (t div upp)"
    using assms(3) lf by (simp add: interpolate_nearest_nth)
  also have "\<dots> = ?fr ! (t div upp) ! 0"
    using d lf by (simp add: series_nth)
  also have "\<dots> = (if Fin (voiced_threshold self) < f0 ! b ! (t div upp) then 1 else 0)"
    using d assms(2) by (simp add: fr)
  finally have v: "along_time 1 (interpolate_nearest upp) ?fr ! t ! 0
      = (if Fin (voiced_threshold self) < f0 ! b ! (t div upp) then 1 else 0)" .
  have "along_time 1 (interpolate_nearest upp) ?fr ! t
      = [if Fin (voiced_threshold self) < f0 ! b ! (t div upp) then 1 else 0]"
    using rl v by (cases "along_time 1 (interpolate_nearest upp) ?fr ! t") simp_all
  moreover have "b < length (SineGen_f02uv self (map (map (\<lambda>v. [v])) f0))"
    using assms(1) by (simp add: SineGen_f02uv_def)
  ultimately show "map (along_time 1 (interpolate_nearest upp))
           (SineGen_f02uv self (map (map (\<lambda>v. [v])) f0)) ! b ! t
      = [if Fin (voiced_threshold self) < f0 ! b ! (t div upp) then 1 else 0]"
    by simp
  show "length (map (along_time 1 (interpolate_nearest upp))
           (SineGen_f02uv self (map (map (\<lambda>v. [v])) f0)) ! b) = T * upp"
    using \<open>b < length (SineGen_f02uv self (map (map (\<lambda>v. [v])) f0))\<close> l by simp
qed

lemma randn_nth:
  assumes "b < B" and "t < T'" and "k < D"
  shows "rows_of B T' (rows_of (B * T') D (map Fin (fst (torch_randn (B * T' * D) g)))) ! b ! t ! k
      = Fin (normal_draws g (consumed g + (b * T' + t) * D + k))"
    and "length (rows_of B T' (rows_of (B * T') D (map Fin (fst (torch_randn (B * T' * D) g)))) ! b)
      = T'"
    and "length (rows_of B T' (rows_of (B * T') D (map Fin (fst (torch_randn (B * T' * D) g))))
           ! b ! t) = D"
proof -
  let ?xs = "map Fin (fst (torch_randn (B * T' * D) g))"
  let ?R = "rows_of (B * T') D ?xs"
  have len: "length ?xs = B * T' * D" by (simp add: torch_randn_def)
  have "Suc b * T' \<le> B * T'" using assms(1) by (simp add: Suc_leI mult_le_mono1 del: mult_Suc)
  then have i: "b * T' + t < B * T'" using assms(2) by simp
  have o: "rows_of B T' ?R ! b ! t = ?R ! (b * T' + t)"
    and ol: "length (rows_of B T' ?R ! b) = T'"
    using rows_of_nth [OF assms(1,2), of ?R] by simp_all
  have r: "?R ! (b * T' + t) ! k = ?xs ! ((b * T' + t) * D + k)"
    and rl: "length (?R ! (b * T' + t)) = D"
    using rows_of_nth [OF i assms(3), of ?xs] len by simp_all
  have "Suc (b * T' + t) * D \<le> B * T' * D"
    using i by (simp add: Suc_leI mult_le_mono1 del: mult_Suc)
  then have "(b * T' + t) * D + k < B * T' * D" using assms(3) by simp
  then have x: "?xs ! ((b * T' + t) * D + k)
      = Fin (normal_draws g (consumed g + (b * T' + t) * D + k))"
    by (simp add: torch_randn_def add.assoc)
  show "rows_of B T' ?R ! b ! t ! k = Fin (normal_draws g (consumed g + (b * T' + t) * D + k))"
    using o r x by simp
  show "length (rows_of B T' ?R ! b) = T'" using ol .
  show "length (rows_of B T' ?R ! b ! t) = D" using o rl by simp
qed

lemma SineGen_rad_values_length:
  "length (SineGen_rad_values sr f0_buf rand_ini) = min (length f0_buf) (length rand_ini)"
  by (simp add: SineGen_rad_values_def)

lemma time_length_eq:
  "f0 \<noteq> [] \<Longrightarrow> \<forall>r\<in>set f0. length r = T \<Longrightarrow> time_length f0 = T"
  by (cases f0) (simp_all add: time_length_def)

section \<open>Properties of SineGen\<close>

lemma fmod1_div_Fin: "sr \<noteq> 0 \<Longrightarrow> fmod1 (div_scalar (Fin a) sr) = Fin (mod1 (a / sr))"
  by simp

lemma noise_amp_value:
  "(if c then (1 :: float) else 0) * Fin ns + div_scalar ((1 - (if c then 1 else 0)) * Fin sa) 3
     = Fin (if c then ns else sa / 3)"
  by simp

lemma Fin_diff_less_0: "Fin a - Fin b < 0 \<longleftrightarrow> a - b < 0"
  by simp

text \<open>
  A sampling rate of 0 raises nothing: the division gives an infinity, whose remainder
  modulo 1 is NaN, so every sine is NaN, while \<open>uv\<close> and the noise are as for any other
  sampling rate, and the generator has advanced by the uniform and the normal draw.
\<close>

lemma SineGen_forward_zero_sampling_rate:
  "SineGen_forward (SineGen_init (Some 0) 0 (1 / 10) (3 / 1000) 0) [[Fin 50]] 1 ex_gen
     = (Inr ([[[NaN]]], [[[Fin 1]]], [[[Fin (3 / 1000)]]]), ex_gen\<lparr>consumed := 2\<rparr>)"
  by (simp add: SineGen_forward_def SineGen_init_def SineGen_f0_buf_def torch_rand_def
      torch_randn_def rows_of_def time_length_def SineGen_rad_values_def SineGen_sine_waves_def
      SineGen_increments_def SineGen_upsampled_def SineGen_cumsum_shift_def shift_of_def
      along_time_def series_def cumsum_def interpolate_nearest_def interpolate_linear_def
      SineGen_f02uv_def with_frame_value_def ex_gen_def Let_def)

text \<open>
  C4. For a \<open>SineGen\<close> as its constructor builds it (\<open>dim = harmonic_num + 1\<close>), a sampling
  rate that is a number other than 0, a pitch curve of finite numbers \<open>p\<close> of shape
  \<open>[B, T]\<close> with \<open>T > 0\<close>, and \<open>upp > 0\<close>, \<open>SineGen.forward\<close> returns, after
  \<open>B * dim\<close> uniform and \<open>B * T * upp * dim\<close> normal draws. The phase increment \<open>rad\<close> of
  frame \<open>j\<close> and harmonic \<open>k\<close> is the fractional part of \<open>p * (k + 1) / sampling_rate\<close>; at
  frame 0 the fundamental (\<open>k = 0\<close>) gets no initial phase and every higher harmonic gets a
  draw of its own from the uniform generator. \<open>phase\<close> is the cumulative sum of the
  increments over the frames, times \<open>upp\<close>, interpolated linearly to the samples and
  reduced modulo 1; \<open>shift\<close> is \<open>-1\<close> at a sample where that phase is smaller than at the
  sample before, and 0 elsewhere and at sample 0. The sine of sample \<open>t\<close> is
  \<open>sine_amp * sin (2 * pi * s)\<close>, where \<open>s\<close> is the sum over the samples up to \<open>t\<close> of the
  fractional part of their frame's increment plus their shift. \<open>uv\<close> is 1 where the
  frame's pitch exceeds the voiced threshold and 0 where it is at or below it; the noise
  is \<open>noise_std\<close> times a normal draw in voiced samples and \<open>sine_amp / 3\<close> times a
  normal draw in unvoiced ones; the output is the sine plus the noise in voiced samples
  and the noise alone in unvoiced ones.
\<close>

theorem SineGen_forward_harmonics:
  assumes "dim self = harmonic_num self + 1"
    and "sampling_rate self = Some sr" and "sr \<noteq> 0"
    and "p \<noteq> []" and "\<forall>r\<in>set p. length r = T" and "0 < T" and "0 < upp"
  shows "\<exists>sine_waves uv noise gen' rad phase shift.
      SineGen_forward self (map (map Fin) p) upp gen = (Inr (sine_waves, uv, noise), gen')
    \<and> consumed gen' = consumed gen + length p * dim self + length p * (T * upp) * dim self
    \<and> (\<forall>b<length p. \<forall>j<T. \<forall>k<dim self.
          rad b j k
            = mod1 (p ! b ! j * real (k + 1) / sr)
              + (if j = 0 \<and> k \<noteq> 0
                 then uniform_draws gen (consumed gen + b * dim self + k) else 0))
    \<and> (\<forall>b<length p. \<forall>t<T * upp. \<forall>k<dim self.
          phase b t k
            = (let pos = (if T * upp > 1 then real t * real (T - 1) / real (T * upp - 1) else 0);
                   lo = nat \<lfloor>pos\<rfloor>;
                   hi = min (lo + 1) (T - 1);
                   w = pos - real lo
               in mod1 ((1 - w) * ((\<Sum>i\<le>lo. rad b i k) * real upp)
                        + w * ((\<Sum>i\<le>hi. rad b i k) * real upp)))
        \<and> shift b t k = (if 0 < t \<and> phase b t k - phase b (t - 1) k < 0 then - 1 else 0)
        \<and> uv ! b ! t = [Fin (if voiced_threshold self < p ! b ! (t div upp) then 1 else 0)]
        \<and> noise ! b ! t ! k
            = Fin ((if voiced_threshold self < p ! b ! (t div upp)
                    then noise_std self else sine_amp self / 3)
                   * normal_draws gen
                       (consumed gen + length p * dim self + (b * (T * upp) + t) * dim self + k))
        \<and> sine_waves ! b ! t ! k
            = Fin (if voiced_threshold self < p ! b ! (t div upp)
                   then sin ((\<Sum>s\<le>t. mod1 (rad b (s div upp) k) + shift b s k) * 2 * pi)
                        * sine_amp self
                   else 0)
              + noise ! b ! t ! k)"
proof -
  define f0 where "f0 = map (map Fin) p"
  define B where "B = length p"
  define D where "D = dim self"
  define T' where "T' = T * upp"
  define f0_buf where "f0_buf = map (map (\<lambda>v. map (\<lambda>k. v * Fin (real (k + 1))) [0..<D])) f0"
  define gen1 where "gen1 = snd (torch_rand (B * D) gen)"
  define rand_ini where
    "rand_ini = map (\<lambda>r. r[0 := 0]) (rows_of B D (map Fin (fst (torch_rand (B * D) gen))))"
  define rad where "rad = SineGen_rad_values sr f0_buf rand_ini"
  define sw where "sw = map (SineGen_sine_waves self upp) rad"
  define uv where "uv = map (along_time 1 (interpolate_nearest upp))
                          (SineGen_f02uv self (map (map (\<lambda>v. [v])) f0))"
  define noise_amp where
    "noise_amp = map (map (map (\<lambda>u. u * Fin (noise_std self)
                                 + div_scalar ((1 - u) * Fin (sine_amp self)) 3))) uv"
  define gen2 where "gen2 = snd (torch_randn (B * T' * D) gen1)"
  define randn where
    "randn = rows_of B T' (rows_of (B * T') D (map Fin (fst (torch_randn (B * T' * D) gen1))))"
  define noise where "noise = with_frame_value (\<lambda>n a. a * n) randn noise_amp"
  define out where "out = map2 (map2 (map2 (+))) (with_frame_value (*) sw uv) noise"
  define radr where
    "radr = (\<lambda>b j k. mod1 (p ! b ! j * real (k + 1) / sr)
                     + (if j = 0 \<and> k \<noteq> 0
                        then uniform_draws gen (consumed gen + b * D + k) else 0))"
  define col where "col = (\<lambda>b k. map (\<lambda>j. (\<Sum>i\<le>j. radr b i k) * real upp) [0..<T])"
  define pos where
    "pos = (\<lambda>t. if T * upp > 1 then real t * real (T - 1) / real (T * upp - 1) else 0)"
  define phase where
    "phase = (\<lambda>b t k. mod1 ((1 - (pos t - real (nat \<lfloor>pos t\<rfloor>)))
                               * ((\<Sum>i\<le>nat \<lfloor>pos t\<rfloor>. radr b i k) * real upp)
                             + (pos t - real (nat \<lfloor>pos t\<rfloor>))
                               * ((\<Sum>i\<le>min (nat \<lfloor>pos t\<rfloor> + 1) (T - 1). radr b i k)
                                  * real upp)))"
  define shift where
    "shift = (\<lambda>b t k. if 0 < t \<and> phase b t k - phase b (t - 1) k < 0 then - 1 else 0 :: real)"
  have Dpos: "D > 0" using assms(1) by (simp add: D_def)
  have lf0: "length f0 = B" by (simp add: f0_def B_def)
  have rows: "\<And>b. b < B \<Longrightarrow> length (f0 ! b) = T"
    using assms(5) by (simp add: B_def f0_def)
  have f0v: "f0 ! b ! j = Fin (p ! b ! j)" if "b < B" "j < T" for b j
    using that assms(5) by (simp add: B_def f0_def)
  have ne: "f0 \<noteq> []" and allT: "\<forall>r\<in>set f0. length r = T"
    using assms(4,5) by (auto simp: f0_def)
  have tl: "time_length f0 = T" using time_length_eq [OF ne allT] .
  have unwrap: "map (map (\<lambda>r. r ! 0)) (map (map (\<lambda>v. [v])) f0) = f0"
    by (simp add: comp_def)
  have buf: "SineGen_f0_buf self f0 = Inr f0_buf"
    using SineGen_f0_buf_ok [OF assms(1)] by (simp add: f0_buf_def D_def)
  have lbuf: "length f0_buf = B" by (simp add: f0_buf_def lf0)
  have lrad: "length rad = B"
    by (simp add: rad_def SineGen_rad_values_def lbuf rand_ini_def)
  have lsw: "length sw = B" by (simp add: sw_def lrad)
  have fw: "SineGen_forward self f0 upp gen = (Inr (out, uv, noise), gen2)"
    unfolding SineGen_forward_def Let_def unwrap buf
    using assms(2,6,7)
    by (simp add: tl lbuf split_beta SineGen_rad_values_length
        out_def noise_def randn_def gen2_def noise_amp_def uv_def sw_def rad_def rand_ini_def
        gen1_def T'_def D_def)
  have g1: "normal_draws gen1 = normal_draws gen" "consumed gen1 = consumed gen + B * D"
    by (simp_all add: gen1_def torch_rand_def)
  have g2: "consumed gen2 = consumed gen + B * D + B * T' * D"
    by (simp add: gen2_def torch_randn_def g1)
  have radv: "rad ! b ! j ! k = Fin (radr b j k)"
    and radl: "length (rad ! b) = T" and radr: "length (rad ! b ! j) = D"
    if "b < B" "j < T" "k < D" for b j k
  proof -
    have 1: "length f0_buf = length rand_ini" by (simp add: lbuf rand_ini_def)
    have 2: "b < length f0_buf" using that lbuf by simp
    have 3: "length (f0_buf ! b) = T" using that rows lf0 by (simp add: f0_buf_def)
    have 4: "length (f0_buf ! b ! j) = D" using that rows lf0 by (simp add: f0_buf_def)
    have 5: "length (rand_ini ! b) = D"
      unfolding rand_ini_def using rand_ini_nth(2) [OF that(1,3)] .
    have 6: "f0_buf ! b ! j ! k = Fin (p ! b ! j * real (k + 1))"
      using that rows lf0 f0v [OF that(1,2)] by (simp add: f0_buf_def)
    have 7: "rand_ini ! b ! k
        = Fin (if k = 0 then 0 else uniform_draws gen (consumed gen + b * D + k))"
      unfolding rand_ini_def using rand_ini_nth(1) [OF that(1,3)] .
    have "rad ! b ! j ! k
        = fmod1 (div_scalar (f0_buf ! b ! j ! k) sr) + (if j = 0 then rand_ini ! b ! k else 0)"
      unfolding rad_def by (rule SineGen_rad_values_nth(1) [OF 1 2 3 that(2) 4 5 that(3)])
    then show "rad ! b ! j ! k = Fin (radr b j k)"
      using assms(3) by (simp add: 6 7 radr_def)
    show "length (rad ! b) = T"
      unfolding rad_def using SineGen_rad_values_nth(2) [OF 1 2 3 that(2) 4 5 that(3)] .
    show "length (rad ! b ! j) = D"
      unfolding rad_def using SineGen_rad_values_nth(3) [OF 1 2 3 that(2) 4 5 that(3)] .
  qed
  have colv: "map (\<lambda>j. (\<Sum>i\<le>j. rad ! b ! i ! k) * Fin (real upp)) [0..<T] = map Fin (col b k)"
    if "b < B" "k < D" for b k
  proof -
    have "(\<Sum>i\<le>j. rad ! b ! i ! k) = Fin (\<Sum>i\<le>j. radr b i k)" if "j < T" for j
    proof -
      have "(\<Sum>i\<le>j. rad ! b ! i ! k) = (\<Sum>i\<le>j. Fin (radr b i k))"
        by (rule sum.cong) (use radv \<open>b < B\<close> \<open>k < D\<close> that in simp_all)
      then show ?thesis by (simp add: sum_Fin)
    qed
    then show ?thesis by (simp add: col_def)
  qed
  have lcol: "length (col b k) = T" for b k by (simp add: col_def)
  have phv: "fmod1 (interpolate_linear upp
                      (map (\<lambda>j. (\<Sum>i\<le>j. rad ! b ! i ! k) * Fin (real upp)) [0..<T]) ! t)
      = Fin (phase b t k)"
    if "b < B" "t < T'" "k < D" for b t k
  proof -
    have t: "t < length (col b k) * upp" using that(2) by (simp add: lcol T'_def)
    have lo: "nat \<lfloor>pos t\<rfloor> < T"
      unfolding pos_def using linear_position_bound [of t T upp] that(2) by (simp add: T'_def)
    have hi: "min (nat \<lfloor>pos t\<rfloor> + 1) (T - 1) < T"
      using assms(6) by (intro min.strict_coboundedI2) simp
    have "interpolate_linear upp (map Fin (col b k)) ! t
        = Fin ((1 - (pos t - real (nat \<lfloor>pos t\<rfloor>))) * col b k ! nat \<lfloor>pos t\<rfloor>
              + (pos t - real (nat \<lfloor>pos t\<rfloor>)) * col b k ! min (nat \<lfloor>pos t\<rfloor> + 1) (T - 1))"
      using interpolate_linear_Fin [OF t] by (simp add: lcol pos_def Let_def)
    moreover have "col b k ! nat \<lfloor>pos t\<rfloor> = (\<Sum>i\<le>nat \<lfloor>pos t\<rfloor>. radr b i k) * real upp"
      using lo by (simp add: col_def)
    moreover have "col b k ! min (nat \<lfloor>pos t\<rfloor> + 1) (T - 1)
        = (\<Sum>i\<le>min (nat \<lfloor>pos t\<rfloor> + 1) (T - 1). radr b i k) * real upp"
      using hi by (simp add: col_def)
    ultimately show ?thesis
      by (simp add: colv [OF that(1,3)] phase_def)
  qed
  have shv: "SineGen_cumsum_shift D upp (rad ! b) ! t ! k = Fin (shift b t k)"
    if "b < B" "t < T'" "k < D" for b t k
  proof -
    have rl: "length (rad ! b) = T" using radl [OF that(1) assms(6) that(3)] .
    have t': "t < T * upp" using that(2) by (simp add: T'_def)
    have "t - 1 < T'" using that(2) by simp
    note p1 = phv [OF that] and p0 = phv [OF that(1) this that(3)]
    show ?thesis
      unfolding SineGen_cumsum_shift_nth(1) [OF Dpos rl t' that(3)] p1 p0
      by (simp add: shift_def)
  qed
  have incv: "SineGen_increments D upp (rad ! b) ! t ! k
      = Fin (mod1 (radr b (t div upp) k) + shift b t k)"
    if "b < B" "t < T'" "k < D" for b t k
  proof -
    have rl: "length (rad ! b) = T" using radl [OF that(1) assms(6) that(3)] .
    have rr: "\<And>j. j < T \<Longrightarrow> length (rad ! b ! j) = D" using radr [OF that(1) _ that(3)] .
    have t': "t < T * upp" using that(2) by (simp add: T'_def)
    have d: "t div upp < T"
      using t' assms(7) by (simp add: less_mult_imp_div_less)
    have "SineGen_increments D upp (rad ! b) ! t ! k
        = fmod1 (rad ! b ! (t div upp) ! k) + SineGen_cumsum_shift D upp (rad ! b) ! t ! k"
      by (rule SineGen_increments_nth(1) [OF Dpos rl rr t' that(3)])
    then show ?thesis
      by (simp add: radv [OF that(1) d that(3)] shv [OF that])
  qed
  have point: "uv ! b ! t = [Fin (if voiced_threshold self < p ! b ! (t div upp) then 1 else 0)]
        \<and> noise ! b ! t ! k
            = Fin ((if voiced_threshold self < p ! b ! (t div upp)
                    then noise_std self else sine_amp self / 3)
                   * normal_draws gen (consumed gen + B * D + (b * T' + t) * D + k))
        \<and> out ! b ! t ! k
            = Fin (if voiced_threshold self < p ! b ! (t div upp)
                   then sin ((\<Sum>s\<le>t. mod1 (radr b (s div upp) k) + shift b s k) * 2 * pi)
                        * sine_amp self
                   else 0)
              + noise ! b ! t ! k"
    if b: "b < B" and t: "t < T'" and k: "k < D" for b t k
  proof -
    have rl: "length (rad ! b) = T" using radl [OF b assms(6) k] .
    have rr: "\<And>j. j < T \<Longrightarrow> length (rad ! b ! j) = D" using radr [OF b _ k] .
    have t': "t < T * upp" using t by (simp add: T'_def)
    have d: "t div upp < T"
      using t' assms(7) by (simp add: less_mult_imp_div_less)
    have bf: "b < length f0" using b lf0 by simp
    have "uv ! b ! t = [if Fin (voiced_threshold self) < f0 ! b ! (t div upp) then 1 else 0]"
      unfolding uv_def using uv_upsampled_nth(1) [OF bf rows [OF b] t'] .
    then have c2: "uv ! b ! t
        = [Fin (if voiced_threshold self < p ! b ! (t div upp) then 1 else 0)]"
      by (simp add: f0v [OF b d])
    have uvl: "length (uv ! b) = T * upp"
      unfolding uv_def using uv_upsampled_nth(2) [OF bf rows [OF b] t'] .
    have luv: "length uv = B" by (simp add: uv_def SineGen_f02uv_def lf0)
    have na: "noise_amp ! b ! t
        = [Fin (if voiced_threshold self < p ! b ! (t div upp)
                then noise_std self else sine_amp self / 3)]"
      using b t' luv uvl c2 by (simp add: noise_amp_def)
    have lna: "length noise_amp = B" and lnab: "length (noise_amp ! b) = T * upp"
      using b luv uvl by (simp_all add: noise_amp_def)
    have rn: "randn ! b ! t ! k = Fin (normal_draws gen1 (consumed gen1 + (b * T' + t) * D + k))"
      and rnl: "length (randn ! b) = T'" and rnr: "length (randn ! b ! t) = D"
      unfolding randn_def using randn_nth [OF b t k] by simp_all
    have lrn: "length randn = B" by (simp add: randn_def)
    have nz: "noise ! b ! t ! k = noise_amp ! b ! t ! 0 * randn ! b ! t ! k"
      and nzr: "length (noise ! b ! t) = D"
      unfolding noise_def
      using with_frame_value_nth [of b randn noise_amp t k "\<lambda>n a. a * n"]
        b t t' k lrn lna lnab rnl rnr by (simp_all add: T'_def)
    have lnz: "length noise = B" and lnzb: "length (noise ! b) = T'"
      unfolding noise_def
      using with_frame_value_length [of "\<lambda>n a. a * n" randn noise_amp]
        with_frame_value_length_nth [of b randn noise_amp "\<lambda>n a. a * n"]
        b lrn lna lnab rnl by (simp_all add: T'_def)
    have c3: "noise ! b ! t ! k
            = Fin ((if voiced_threshold self < p ! b ! (t div upp)
                    then noise_std self else sine_amp self / 3)
                   * normal_draws gen (consumed gen + B * D + (b * T' + t) * D + k))"
      using nz na rn g1 by (simp add: add.assoc)
    have "(\<Sum>s\<le>t. SineGen_increments D upp (rad ! b) ! s ! k)
        = (\<Sum>s\<le>t. Fin (mod1 (radr b (s div upp) k) + shift b s k))"
      by (rule sum.cong) (use incv [OF b _ k] t in simp_all)
    then have sm: "(\<Sum>s\<le>t. SineGen_increments D upp (rad ! b) ! s ! k)
        = Fin (\<Sum>s\<le>t. mod1 (radr b (s div upp) k) + shift b s k)"
      by (simp add: sum_Fin)
    have "sw ! b ! t ! k
        = fsin ((\<Sum>s\<le>t. SineGen_increments D upp (rad ! b) ! s ! k) * 2 * Fin pi)
          * Fin (sine_amp self)"
      unfolding sw_def D_def
      using SineGen_sine_waves_nth(1) [of self "rad ! b" T t upp k] Dpos rl rr t' k b lrad
      by (simp add: D_def)
    then have swv: "sw ! b ! t ! k
        = Fin (sin ((\<Sum>s\<le>t. mod1 (radr b (s div upp) k) + shift b s k) * 2 * pi)
               * sine_amp self)"
      by (simp add: sm)
    have swl: "length (sw ! b) = T * upp" and swr: "length (sw ! b ! t) = D"
      unfolding sw_def D_def
      using SineGen_sine_waves_nth(2,3) [of self "rad ! b" T t upp k] Dpos rl rr t' k b lrad
      by (simp_all add: D_def)
    have m: "with_frame_value (*) sw uv ! b ! t ! k = sw ! b ! t ! k * uv ! b ! t ! 0"
      and mr: "length (with_frame_value (*) sw uv ! b ! t) = D"
      using with_frame_value_nth [of b sw uv t k "(*)"] b t' k lsw luv swl uvl swr by simp_all
    have ml: "length (with_frame_value (*) sw uv) = B"
      and mlb: "length (with_frame_value (*) sw uv ! b) = T * upp"
      using with_frame_value_length [of "(*)" sw uv]
        with_frame_value_length_nth [of b sw uv "(*)"] b lsw luv swl uvl by simp_all
    have "out ! b ! t ! k = sw ! b ! t ! k * uv ! b ! t ! 0 + noise ! b ! t ! k"
      unfolding out_def using b t t' k ml mlb mr lnz lnzb nzr m by (simp add: T'_def)
    then have c4: "out ! b ! t ! k
            = Fin (if voiced_threshold self < p ! b ! (t div upp)
                   then sin ((\<Sum>s\<le>t. mod1 (radr b (s div upp) k) + shift b s k) * 2 * pi)
                        * sine_amp self
                   else 0)
              + noise ! b ! t ! k"
      by (simp add: swv c2)
    show ?thesis using c2 c3 c4 by blast
  qed
  have ph: "phase b t k
            = (let pos = (if T * upp > 1 then real t * real (T - 1) / real (T * upp - 1) else 0);
                   lo = nat \<lfloor>pos\<rfloor>;
                   hi = min (lo + 1) (T - 1);
                   w = pos - real lo
               in mod1 ((1 - w) * ((\<Sum>i\<le>lo. radr b i k) * real upp)
                        + w * ((\<Sum>i\<le>hi. radr b i k) * real upp)))" for b t k
    by (simp add: phase_def pos_def Let_def)
  have sh: "shift b t k = (if 0 < t \<and> phase b t k - phase b (t - 1) k < 0 then - 1 else 0)"
    for b t k
    by (simp add: shift_def)
  have rd: "radr b j k
            = mod1 (p ! b ! j * real (k + 1) / sr)
              + (if j = 0 \<and> k \<noteq> 0
                 then uniform_draws gen (consumed gen + b * dim self + k) else 0)" for b j k
    by (simp add: radr_def D_def)
  have fin: "\<forall>b<length p. \<forall>t<T * upp. \<forall>k<dim self.
          phase b t k
            = (let pos = (if T * upp > 1 then real t * real (T - 1) / real (T * upp - 1) else 0);
                   lo = nat \<lfloor>pos\<rfloor>;
                   hi = min (lo + 1) (T - 1);
                   w = pos - real lo
               in mod1 ((1 - w) * ((\<Sum>i\<le>lo. radr b i k) * real upp)
                        + w * ((\<Sum>i\<le>hi. radr b i k) * real upp)))
        \<and> shift b t k = (if 0 < t \<and> phase b t k - phase b (t - 1) k < 0 then - 1 else 0)
        \<and> uv ! b ! t = [Fin (if voiced_threshold self < p ! b ! (t div upp) then 1 else 0)]
        \<and> noise ! b ! t ! k
            = Fin ((if voiced_threshold self < p ! b ! (t div upp)
                    then noise_std self else sine_amp self / 3)
                   * normal_draws gen
                       (consumed gen + length p * dim self + (b * (T * upp) + t) * dim self + k))
        \<and> out ! b ! t ! k
            = Fin (if voiced_threshold self < p ! b ! (t div upp)
                   then sin ((\<Sum>s\<le>t. mod1 (radr b (s div upp) k) + shift b s k) * 2 * pi)
                        * sine_amp self
                   else 0)
              + noise ! b ! t ! k"
    using point ph sh
    by (simp only: B_def [symmetric] D_def [symmetric] T'_def [symmetric]) blast
  have cons: "consumed gen2
      = consumed gen + length p * dim self + length p * (T * upp) * dim self"
    using g2 by (simp add: B_def D_def T'_def)
  show ?thesis
    apply (rule exI [of _ out], rule exI [of _ uv], rule exI [of _ noise], rule exI [of _ gen2],
        rule exI [of _ radr], rule exI [of _ phase], rule exI [of _ shift])
    using fw cons rd fin unfolding f0_def by blast
qed

theorem SineGen_forward_harmonics_witness:
  "(\<exists>sine_waves uv noise gen' (rad :: nat \<Rightarrow> nat \<Rightarrow> nat \<Rightarrow> real)
        (phase :: nat \<Rightarrow> nat \<Rightarrow> nat \<Rightarrow> real) (shift :: nat \<Rightarrow> nat \<Rightarrow> nat \<Rightarrow> real).
      SineGen_forward ex_sine [[Fin 25, Fin 25]] 2 ex_gen = (Inr (sine_waves, uv, noise), gen')
    \<and> consumed gen' = 10
    \<and> rad 0 0 0 = 1 / 4 \<and> rad 0 1 0 = 1 / 4
    \<and> phase 0 0 0 = 1 / 2 \<and> phase 0 1 0 = 2 / 3 \<and> phase 0 2 0 = 5 / 6 \<and> phase 0 3 0 = 0
    \<and> shift 0 0 0 = 0 \<and> shift 0 1 0 = 0 \<and> shift 0 2 0 = 0 \<and> shift 0 3 0 = - 1
    \<and> uv ! 0 ! 3 = [Fin 1]
    \<and> noise ! 0 ! 0 ! 0 = Fin (3 / 1000)
    \<and> sine_waves ! 0 ! 0 ! 0 = Fin (103 / 1000)
    \<and> sine_waves ! 0 ! 3 ! 0 = Fin (3 / 1000))
   \<and> (\<exists>sine_waves uv noise gen'.
      SineGen_forward ex_sine [[Fin 50, Fin 0]] 1 ex_gen = (Inr (sine_waves, uv, noise), gen')
    \<and> uv ! 0 ! 0 = [Fin 1] \<and> uv ! 0 ! 1 = [Fin 0]
    \<and> noise ! 0 ! 1 ! 1 = Fin (1 / 30)
    \<and> sine_waves ! 0 ! 1 ! 0 = Fin (1 / 30)
    \<and> sine_waves ! 0 ! 1 ! 1 = Fin (1 / 30))"
proof -
  have h1: "dim ex_sine = harmonic_num ex_sine + 1"
    and h2: "sampling_rate ex_sine = Some 100"
    and d: "dim ex_sine = 2" and th: "voiced_threshold ex_sine = 0"
    and a: "sine_amp ex_sine = 1 / 10" and n: "noise_std ex_sine = 3 / 1000"
    by (simp_all add: ex_sine_def SineGen_init_def)
  have nd: "normal_draws ex_gen = (\<lambda>i. 1)" and ud: "uniform_draws ex_gen = (\<lambda>i. 1 / 2)"
    and cg: "consumed ex_gen = 0"
    by (simp_all add: ex_gen_def)
  have h3: "(100 :: real) \<noteq> 0" and h6: "0 < (2 :: nat)" and h7: "0 < (1 :: nat)"
    by simp_all
  have p4: "[[25, 25 :: real]] \<noteq> []" and p5: "\<forall>r\<in>set [[25, 25 :: real]]. length r = 2"
    and q4: "[[50, 0 :: real]] \<noteq> []" and q5: "\<forall>r\<in>set [[50, 0 :: real]]. length r = 2"
    by simp_all
  have m14: "mod1 (1 / 4) = 1 / 4" and m12: "mod1 (1 / 2) = 1 / 2" and m23: "mod1 (2 / 3) = 2 / 3"
    and m56: "mod1 (5 / 6) = 5 / 6" and m1: "mod1 1 = 0"
    by (simp_all add: mod1_def)
  have first: "\<exists>sine_waves uv noise gen' (rad :: nat \<Rightarrow> nat \<Rightarrow> nat \<Rightarrow> real)
        (phase :: nat \<Rightarrow> nat \<Rightarrow> nat \<Rightarrow> real) (shift :: nat \<Rightarrow> nat \<Rightarrow> nat \<Rightarrow> real).
      SineGen_forward ex_sine [[Fin 25, Fin 25]] 2 ex_gen = (Inr (sine_waves, uv, noise), gen')
    \<and> consumed gen' = 10
    \<and> rad 0 0 0 = 1 / 4 \<and> rad 0 1 0 = 1 / 4
    \<and> phase 0 0 0 = 1 / 2 \<and> phase 0 1 0 = 2 / 3 \<and> phase 0 2 0 = 5 / 6 \<and> phase 0 3 0 = 0
    \<and> shift 0 0 0 = 0 \<and> shift 0 1 0 = 0 \<and> shift 0 2 0 = 0 \<and> shift 0 3 0 = - 1
    \<and> uv ! 0 ! 3 = [Fin 1]
    \<and> noise ! 0 ! 0 ! 0 = Fin (3 / 1000)
    \<and> sine_waves ! 0 ! 0 ! 0 = Fin (103 / 1000)
    \<and> sine_waves ! 0 ! 3 ! 0 = Fin (3 / 1000)"
  proof -
    from SineGen_forward_harmonics [OF h1 h2 h3 p4 p5 h6 h6, of ex_gen]
    obtain sine_waves uv noise gen' rad phase shift where
      fw: "SineGen_forward ex_sine (map (map Fin) [[25, 25]]) 2 ex_gen
            = (Inr (sine_waves, uv, noise), gen')"
      and cs: "consumed gen' = consumed ex_gen + length [[25, 25 :: real]] * dim ex_sine
                 + length [[25, 25 :: real]] * (2 * 2) * dim ex_sine"
      and rd: "\<forall>b<length [[25, 25 :: real]]. \<forall>j<2. \<forall>k<dim ex_sine.
          rad b j k
            = mod1 ([[25, 25]] ! b ! j * real (k + 1) / 100)
              + (if j = 0 \<and> k \<noteq> 0
                 then uniform_draws ex_gen (consumed ex_gen + b * dim ex_sine + k) else 0)"
      and pt: "\<forall>b<length [[25, 25 :: real]]. \<forall>t<2 * 2. \<forall>k<dim ex_sine.
          phase b t k
            = (let pos = (if 2 * 2 > (1 :: nat)
                          then real t * real (2 - 1 :: nat) / real (2 * 2 - 1 :: nat) else 0);
                   lo = nat \<lfloor>pos\<rfloor>;
                   hi = min (lo + 1) (2 - 1);
                   w = pos - real lo
               in mod1 ((1 - w) * ((\<Sum>i\<le>lo. rad b i k) * real (2 :: nat))
                        + w * ((\<Sum>i\<le>hi. rad b i k) * real (2 :: nat))))
        \<and> shift b t k = (if 0 < t \<and> phase b t k - phase b (t - 1) k < 0 then - 1 else 0)
        \<and> uv ! b ! t = [Fin (if voiced_threshold ex_sine < [[25, 25]] ! b ! (t div 2)
                             then 1 else 0)]
        \<and> noise ! b ! t ! k
            = Fin ((if voiced_threshold ex_sine < [[25, 25]] ! b ! (t div 2)
                    then noise_std ex_sine else sine_amp ex_sine / 3)
                   * normal_draws ex_gen
                       (consumed ex_gen + length [[25, 25 :: real]] * dim ex_sine
                          + (b * (2 * 2) + t) * dim ex_sine + k))
        \<and> sine_waves ! b ! t ! k
            = Fin (if voiced_threshold ex_sine < [[25, 25]] ! b ! (t div 2)
                   then sin ((\<Sum>s\<le>t. mod1 (rad b (s div 2) k) + shift b s k) * 2 * pi)
                        * sine_amp ex_sine
                   else 0)
              + noise ! b ! t ! k"
      by blast
    have r0: "rad 0 0 0 = 1 / 4" and r1: "rad 0 (Suc 0) 0 = 1 / 4"
      using rd [rule_format, of 0 0 0] rd [rule_format, of 0 1 0] by (simp_all add: d m14)
    have ph0: "phase 0 0 0 = 1 / 2"
      using pt [rule_format, of 0 0 0] by (simp add: d r0 r1 m12 Let_def)
    have ph1: "phase 0 (Suc 0) 0 = 2 / 3"
      using pt [rule_format, of 0 1 0] by (simp add: d r0 r1 m23 Let_def)
    have ph2: "phase 0 2 0 = 5 / 6"
      using pt [rule_format, of 0 2 0] by (simp add: d r0 r1 m56 Let_def)
    have ph3: "phase 0 3 0 = 0"
      using pt [rule_format, of 0 3 0] by (simp add: d r0 r1 m1 Let_def)
    have s0: "shift 0 0 0 = 0"
      using pt [rule_format, of 0 0 0] by (simp add: d)
    have s1: "shift 0 (Suc 0) 0 = 0"
      using pt [rule_format, of 0 1 0] by (simp add: d ph0 ph1)
    have s2: "shift 0 2 0 = 0"
      using pt [rule_format, of 0 2 0] by (simp add: d ph1 ph2)
    have s3: "shift 0 3 0 = - 1"
      using pt [rule_format, of 0 3 0] by (simp add: d ph2 ph3)
    have u3: "uv ! 0 ! 3 = [Fin 1]"
      using pt [rule_format, of 0 3 0] by (simp add: d th)
    have n0: "noise ! 0 ! 0 ! 0 = Fin (3 / 1000)"
      using pt [rule_format, of 0 0 0] by (simp add: d th n nd)
    have n3: "noise ! 0 ! 3 ! 0 = Fin (3 / 1000)"
      using pt [rule_format, of 0 3 0] by (simp add: d th n nd)
    have w0: "sine_waves ! 0 ! 0 ! 0 = Fin (103 / 1000)"
      using pt [rule_format, of 0 0 0] by (simp add: d th a n0 r0 s0 m14)
    have set3: "{..3 :: nat} = {0, 1, 2, 3}" by auto
    have sum3: "(\<Sum>s\<le>3. mod1 (rad 0 (s div 2) 0) + shift 0 s 0) = 0"
      by (simp add: set3 r0 r1 s0 s1 s2 s3 m14)
    have w3: "sine_waves ! 0 ! 3 ! 0 = Fin (3 / 1000)"
      using pt [rule_format, of 0 3 0] by (simp add: d th a n3 sum3)
    have c: "consumed gen' = 10" using cs by (simp add: d cg)
    show ?thesis
      apply (rule exI [of _ sine_waves], rule exI [of _ uv], rule exI [of _ noise],
          rule exI [of _ gen'], rule exI [of _ rad], rule exI [of _ phase], rule exI [of _ shift])
      using fw c r0 r1 ph0 ph1 ph2 ph3 s0 s1 s2 s3 u3 n0 w0 w3 by simp
  qed
  have second: "\<exists>sine_waves uv noise gen'.
      SineGen_forward ex_sine [[Fin 50, Fin 0]] 1 ex_gen = (Inr (sine_waves, uv, noise), gen')
    \<and> uv ! 0 ! 0 = [Fin 1] \<and> uv ! 0 ! 1 = [Fin 0]
    \<and> noise ! 0 ! 1 ! 1 = Fin (1 / 30)
    \<and> sine_waves ! 0 ! 1 ! 0 = Fin (1 / 30)
    \<and> sine_waves ! 0 ! 1 ! 1 = Fin (1 / 30)"
  proof -
    from SineGen_forward_harmonics [OF h1 h2 h3 q4 q5 h6 h7, of ex_gen]
    obtain sine_waves uv noise gen' rad phase shift where
      fw: "SineGen_forward ex_sine (map (map Fin) [[50, 0]]) 1 ex_gen
            = (Inr (sine_waves, uv, noise), gen')"
      and pt: "\<forall>b<length [[50, 0 :: real]]. \<forall>t<2 * 1. \<forall>k<dim ex_sine.
          phase b t k
            = (let pos = (if 2 * 1 > (1 :: nat)
                          then real t * real (2 - 1 :: nat) / real (2 * 1 - 1 :: nat) else 0);
                   lo = nat \<lfloor>pos\<rfloor>;
                   hi = min (lo + 1) (2 - 1);
                   w = pos - real lo
               in mod1 ((1 - w) * ((\<Sum>i\<le>lo. rad b i k) * real (1 :: nat))
                        + w * ((\<Sum>i\<le>hi. rad b i k) * real (1 :: nat))))
        \<and> shift b t k = (if 0 < t \<and> phase b t k - phase b (t - 1) k < 0 then - 1 else 0)
        \<and> uv ! b ! t = [Fin (if voiced_threshold ex_sine < [[50, 0]] ! b ! (t div 1)
                             then 1 else 0)]
        \<and> noise ! b ! t ! k
            = Fin ((if voiced_threshold ex_sine < [[50, 0]] ! b ! (t div 1)
                    then noise_std ex_sine else sine_amp ex_sine / 3)
                   * normal_draws ex_gen
                       (consumed ex_gen + length [[50, 0 :: real]] * dim ex_sine
                          + (b * (2 * 1) + t) * dim ex_sine + k))
        \<and> sine_waves ! b ! t ! k
            = Fin (if voiced_threshold ex_sine < [[50, 0]] ! b ! (t div 1)
                   then sin ((\<Sum>s\<le>t. mod1 (rad b (s div 1) k) + shift b s k) * 2 * pi)
                        * sine_amp ex_sine
                   else 0)
              + noise ! b ! t ! k"
      by blast
    have u0: "uv ! 0 ! 0 = [Fin 1]"
      using pt [rule_format, of 0 0 0] by (simp add: d th)
    have u1: "uv ! 0 ! Suc 0 = [Fin 0]" and n10: "noise ! 0 ! Suc 0 ! 0 = Fin (1 / 30)"
      using pt [rule_format, of 0 1 0] by (simp_all add: d th a nd)
    have n11: "noise ! 0 ! Suc 0 ! Suc 0 = Fin (1 / 30)"
      using pt [rule_format, of 0 1 1] by (simp add: d th a nd)
    have w10: "sine_waves ! 0 ! Suc 0 ! 0 = Fin (1 / 30)"
      using pt [rule_format, of 0 1 0] by (simp add: d th n10)
    have w11: "sine_waves ! 0 ! Suc 0 ! Suc 0 = Fin (1 / 30)"
      using pt [rule_format, of 0 1 1] by (simp add: d th n11)
    show ?thesis
      apply (rule exI [of _ sine_waves], rule exI [of _ uv], rule exI [of _ noise],
          rule exI [of _ gen'])
      using fw u0 u1 n11 w10 w11 by simp
  qed
  show ?thesis using first second by (rule conjI)
qed

section \<open>Properties of Generator and GeneratorNSF\<close>

lemma sequence_all_Inr:
  "(\<And>z. z \<in> set zs \<Longrightarrow> f z = Inr (h z)) \<Longrightarrow> sequence (map f zs) = Inr (map h zs)"
  by (induction zs) simp_all

lemma bzip_same_length:
  assumes "length xs = length ys"
    and "\<And>x y. (x, y) \<in> set (zip xs ys) \<Longrightarrow> f x y = Inr (h x y)"
  shows "bzip f xs ys = Inr (map2 h xs ys)"
proof -
  have "sequence (map (\<lambda>(x, y). f x y) (zip xs ys)) = Inr (map (\<lambda>(x, y). h x y) (zip xs ys))"
    by (rule sequence_all_Inr) (use assms(2) in auto)
  then show ?thesis using assms(1) by (simp add: bzip_def)
qed

lemma tadd_same_shape:
  assumes "shape3 a = shape3 b"
  shows "tadd a b = Inr (padd a b)" and "shape3 (padd a b) = shape3 a"
proof -
  have l1: "length a = length b"
    using assms by (metis length_map shape3_def)
  have rows1: "length x = length y"
    and rows2: "\<And>r s. (r, s) \<in> set (zip x y) \<Longrightarrow> length r = length s"
    if "(x, y) \<in> set (zip a b)" for x y
  proof -
    from that obtain i where i: "i < length a" "x = a ! i" "y = b ! i"
      using l1 by (auto simp: set_zip)
    have "map length x = map length y"
      using assms i l1 by (metis length_map nth_map shape3_def)
    then have xy: "length x = length y"
      and n: "\<And>j. j < length x \<Longrightarrow> length (x ! j) = length (y ! j)"
      by (metis length_map, metis length_map nth_map)
    show "length x = length y" using xy .
    show "length r = length s" if "(r, s) \<in> set (zip x y)" for r s
      using that n xy by (auto simp: set_zip)
  qed
  have lv3: "bzip (\<lambda>a b. Inr (a + b)) r s = Inr (map2 (+) r s)" if "length r = length s"
    for r s :: "float list"
    by (rule bzip_same_length) (use that in simp_all)
  have lv2: "bzip (bzip (\<lambda>a b. Inr (a + b))) x y = Inr (map2 (map2 (+)) x y)"
    if "(x, y) \<in> set (zip a b)" for x y
    by (rule bzip_same_length) (use rows1 [OF that] rows2 [OF that] lv3 in auto)
  show "tadd a b = Inr (padd a b)"
    unfolding tadd_def padd_def by (rule bzip_same_length) (use l1 lv2 in auto)
  have "map (map length) (map2 (map2 (map2 (+))) a b) = map (map length) a"
  proof (rule nth_equalityI)
    show "length (map (map length) (map2 (map2 (map2 (+))) a b)) = length (map (map length) a)"
      using l1 by simp
  next
    fix i assume "i < length (map (map length) (map2 (map2 (map2 (+))) a b))"
    then have i: "i < length a" "i < length b" using l1 by simp_all
    then have z: "(a ! i, b ! i) \<in> set (zip a b)" by (auto simp: set_zip)
    have r: "length (a ! i) = length (b ! i)"
      using rows1 [OF z] .
    have rr: "length (a ! i ! j) = length (b ! i ! j)" if "j < length (a ! i)" for j
    proof -
      have "(a ! i ! j, b ! i ! j) \<in> set (zip (a ! i) (b ! i))"
        using that r by (auto simp: set_zip)
      then show ?thesis by (rule rows2 [OF z])
    qed
    have "map length (map2 (map2 (+)) (a ! i) (b ! i)) = map length (a ! i)"
      using r rr by (intro nth_equalityI) simp_all
    then show "map (map length) (map2 (map2 (map2 (+))) a b) ! i = map (map length) a ! i"
      using i by simp
  qed
  then show "shape3 (padd a b) = shape3 a"
    by (simp add: shape3_def padd_def)
qed

lemma foldl_padd_shape:
  "shape3 a = S \<Longrightarrow> (\<And>r. r \<in> set outs \<Longrightarrow> shape3 r = S) \<Longrightarrow> shape3 (foldl padd a outs) = S"
proof (induction outs arbitrary: a)
  case Nil
  then show ?case by simp
next
  case (Cons r outs)
  have "shape3 (padd a r) = S"
    using tadd_same_shape(2) [of a r] Cons.prems by simp
  then show ?case using Cons by simp
qed

lemma resblock_sum_same_shape:
  assumes "list_all2 (\<lambda>idx r. \<exists>block. py_item rb idx = Inr block \<and> block x = Inr r) idxs outs"
    and "\<And>r. r \<in> set outs \<Longrightarrow> shape3 r = S" and "shape3 a = S"
  shows "resblock_sum rb x idxs (Some a) = Inr (Some (foldl padd a outs))"
  using assms
proof (induction idxs outs arbitrary: a rule: list_all2_induct)
  case Nil
  then show ?case by simp
next
  case (Cons idx idxs r outs)
  from Cons.hyps(1) obtain block where b: "py_item rb idx = Inr block" "block x = Inr r"
    by blast
  have sr: "shape3 r = S" using Cons.prems(1) by simp
  have t: "tadd a r = Inr (padd a r)" and ts: "shape3 (padd a r) = S"
    using tadd_same_shape [of a r] sr Cons.prems(2) by simp_all
  have "resblock_sum rb x idxs (Some (padd a r)) = Inr (Some (foldl padd (padd a r) outs))"
    by (rule Cons.IH) (use Cons.prems(1) ts in simp_all)
  then show ?case by (simp add: b t)
qed

lemma mix_resblocks_average:
  assumes "0 < nk" and "length outs = nk"
    and "\<And>j. j < nk \<Longrightarrow>
           \<exists>block. py_item rb (i * nk + j) = Inr block \<and> block x = Inr (outs ! j)
                 \<and> shape3 (outs ! j) = S"
  shows "mix_resblocks rb nk i x
      = Inr (tmap (\<lambda>v. div_scalar v (real nk)) (foldl padd (hd outs) (tl outs)))"
proof -
  obtain r0 rest where o: "outs = r0 # rest"
    using assms(1,2) by (cases outs) auto
  have up: "[0..<nk] = 0 # [1..<nk]" using assms(1) by (simp add: upt_conv_Cons)
  from assms(3) [of 0] assms(1) obtain block0 where
    b0: "py_item rb (i * nk) = Inr block0" "block0 x = Inr r0" "shape3 r0 = S"
    by (auto simp: o)
  have la: "list_all2 (\<lambda>idx r. \<exists>block. py_item rb idx = Inr block \<and> block x = Inr r)
              (map (\<lambda>j. i * nk + j) [1..<nk]) rest"
  proof (rule list_all2_all_nthI)
    show "length (map (\<lambda>j. i * nk + j) [1..<nk]) = length rest"
      using assms(2) by (simp add: o)
  next
    fix n assume "n < length (map (\<lambda>j. i * nk + j) [1..<nk])"
    then have n: "Suc n < nk" by simp
    from assms(3) [OF n] show "\<exists>block. py_item rb (map (\<lambda>j. i * nk + j) [1..<nk] ! n) = Inr block
        \<and> block x = Inr (rest ! n)"
      using n by (auto simp: o)
  qed
  have sh: "shape3 r = S" if "r \<in> set rest" for r
  proof -
    from that obtain n where n: "n < length rest" "r = rest ! n"
      by (auto simp: in_set_conv_nth)
    then have "Suc n < nk" using assms(2) by (simp add: o)
    from assms(3) [OF this] show ?thesis using n by (auto simp: o)
  qed
  have "resblock_sum rb x (map (\<lambda>j. i * nk + j) [1..<nk]) (Some r0)
      = Inr (Some (foldl padd r0 rest))"
    by (rule resblock_sum_same_shape [OF la sh b0(3)])
  then have "resblock_sum rb x (map (\<lambda>j. i * nk + j) [0..<nk]) None
      = Inr (Some (foldl padd r0 rest))"
    by (simp add: up b0 del: upt_Suc)
  then show ?thesis by (simp add: mix_resblocks_def o)
qed

lemma ftanh_bounded: "ftanh u = NaN \<or> Fin (- 1) \<le> ftanh u \<and> ftanh u \<le> Fin 1"
proof (cases u)
  case (Fin a)
  have "- 1 \<le> tanh a \<and> tanh a \<le> 1"
    using tanh_real_gt_neg1 [of a] tanh_real_lt_1 [of a] by simp
  then show ?thesis using Fin by simp
qed simp_all

lemma tmap_ftanh_bounded:
  "\<forall>r\<in>set (tmap ftanh y). \<forall>c\<in>set r. \<forall>v\<in>set c. v = NaN \<or> Fin (- 1) \<le> v \<and> v \<le> Fin 1"
  using ftanh_bounded by (auto simp: tmap_def)

lemma Generator_forward_chain:
  assumes "Generator_forward slope self x g = Inr y"
  shows "\<exists>x1 x2 x3 z. conv_pre self x = Inr x1 \<and> add_cond self x1 g = Inr x2
      \<and> Generator_stages slope self [0..<num_upsamples self] x2 = Inr x3
      \<and> conv_post self (leaky_relu (1 / 100) x3) = Inr z \<and> y = tmap ftanh z"
  using assms unfolding Generator_forward_def
  by (auto split: sum.splits)

lemma GeneratorNSF_forward_chain:
  assumes "GeneratorNSF_forward slope self x f0 g gen = (Inr y, self', gen')"
  shows "\<exists>src m1 har a b x1 x2 x3 z.
        SourceModuleHnNSF_forward (m_source self) f0 (self_upp self) gen = (Inr src, m1, gen')
      \<and> self' = self\<lparr>m_source := m1\<rparr>
      \<and> unpack3 src = Inr (PTensor har, a, b)
      \<and> conv_pre self x = Inr x1 \<and> add_cond self x1 g = Inr x2
      \<and> GeneratorNSF_stages slope self' (transpose12 har) [0..<num_upsamples self] x2 = Inr x3
      \<and> conv_post self (leaky_relu (1 / 100) x3) = Inr z \<and> y = tmap ftanh z"
proof -
  obtain r m1 gen1 where
    sm: "SourceModuleHnNSF_forward (m_source self) f0 (self_upp self) gen = (r, m1, gen1)"
    by (cases "SourceModuleHnNSF_forward (m_source self) f0 (self_upp self) gen") auto
  let ?s = "self\<lparr>m_source := m1\<rparr>"
  from assms have s': "self' = ?s" and g': "gen' = gen1"
    by (simp_all add: GeneratorNSF_forward_def sm Let_def)
  from assms obtain src where r: "r = Inr src"
    by (cases r) (simp_all add: GeneratorNSF_forward_def sm Let_def)
  from assms obtain hs a b where u: "unpack3 src = Inr (hs, a, b)"
    by (cases "unpack3 src") (auto simp: GeneratorNSF_forward_def sm Let_def r)
  from assms obtain har where h: "hs = PTensor har"
    by (cases hs) (simp_all add: GeneratorNSF_forward_def sm Let_def r u)
  from assms have full: "GeneratorNSF_forward slope self x f0 g gen = (Inr y, ?s, gen1)"
    using s' g' by simp
  from full have rest: "(case conv_pre self x of
        Inl e \<Rightarrow> Inl e
      | Inr x1 \<Rightarrow>
      (case add_cond ?s x1 g of
        Inl e \<Rightarrow> Inl e
      | Inr x2 \<Rightarrow>
      (case GeneratorNSF_stages slope ?s (transpose12 har) [0..<num_upsamples self] x2 of
        Inl e \<Rightarrow> Inl e
      | Inr x3 \<Rightarrow>
      (case conv_post self (leaky_relu (1 / 100) x3) of
        Inl e \<Rightarrow> Inl e
      | Inr z \<Rightarrow> Inr (tmap ftanh z))))) = Inr y"
    by (simp add: GeneratorNSF_forward_def sm Let_def r u h cong: sum.case_cong)
  have ac: "add_cond ?s v g = add_cond self v g" for v
    by (cases g) (simp_all add: add_cond_def)
  from rest obtain x1 x2 x3 z where
    "conv_pre self x = Inr x1" "add_cond self x1 g = Inr x2"
    "GeneratorNSF_stages slope ?s (transpose12 har) [0..<num_upsamples self] x2 = Inr x3"
    "conv_post self (leaky_relu (1 / 100) x3) = Inr z" "y = tmap ftanh z"
    unfolding ac by (auto split: sum.splits)
  then show ?thesis using sm r u h s' g' by blast
qed

lemma padd_nth:
  assumes "shape3 a = shape3 b" and "i < length a" and "j < length (a ! i)"
    and "k < length (a ! i ! j)"
  shows "padd a b ! i ! j ! k = a ! i ! j ! k + b ! i ! j ! k"
proof -
  have l1: "length a = length b" using assms(1) by (metis length_map shape3_def)
  have "map length (a ! i) = map length (b ! i)"
    using assms(1,2) l1 by (metis length_map nth_map shape3_def)
  then have l2: "length (a ! i) = length (b ! i)"
    and l3: "length (a ! i ! j) = length (b ! i ! j)"
    using assms(3) by (metis length_map, metis length_map nth_map)
  show ?thesis using assms(2,3,4) l1 l2 l3 by (simp add: padd_def)
qed

lemma foldl_padd_nth:
  assumes "shape3 a = S" and "\<And>r. r \<in> set outs \<Longrightarrow> shape3 r = S"
    and "i < length a" and "j < length (a ! i)" and "k < length (a ! i ! j)"
  shows "foldl padd a outs ! i ! j ! k = a ! i ! j ! k + (\<Sum>r\<leftarrow>outs. r ! i ! j ! k)"
  using assms
proof (induction outs arbitrary: a)
  case Nil
  then show ?case by simp
next
  case (Cons r outs)
  have e: "shape3 a = shape3 r" using Cons.prems(1,2) by simp
  have s: "shape3 (padd a r) = S" using tadd_same_shape(2) [OF e] Cons.prems(1) by simp
  have len: "map (map length) (padd a r) = map (map length) a"
    using tadd_same_shape(2) [OF e] by (simp add: shape3_def)
  have i: "i < length (padd a r)" using Cons.prems(3) len by (metis length_map)
  have "map length (padd a r ! i) = map length (a ! i)"
    using len i Cons.prems(3) by (metis nth_map)
  then have j: "j < length (padd a r ! i)" and k: "k < length (padd a r ! i ! j)"
    using Cons.prems(4,5) by (metis length_map, metis length_map nth_map)
  have "foldl padd (padd a r) outs ! i ! j ! k
      = padd a r ! i ! j ! k + (\<Sum>r\<leftarrow>outs. r ! i ! j ! k)"
    by (rule Cons.IH [OF s _ i j k]) (use Cons.prems(2) in simp)
  then show ?case
    using padd_nth [OF e Cons.prems(3,4,5)] by (simp add: add.assoc)
qed

lemma mix_resblocks_pointwise:
  assumes "0 < nk" and "length outs = nk"
    and "\<And>j. j < nk \<Longrightarrow>
           \<exists>block. py_item rb (i * nk + j) = Inr block \<and> block x = Inr (outs ! j)
                 \<and> shape3 (outs ! j) = S"
  shows "\<exists>m. mix_resblocks rb nk i x = Inr m \<and> shape3 m = S
           \<and> (\<forall>b c t. b < length m \<longrightarrow> c < length (m ! b) \<longrightarrow> t < length (m ! b ! c)
                 \<longrightarrow> m ! b ! c ! t = div_scalar (\<Sum>j<nk. outs ! j ! b ! c ! t) (real nk))"
proof -
  obtain r0 rest where o: "outs = r0 # rest"
    using assms(1,2) by (cases outs) auto
  have sh: "shape3 r = S" if "r \<in> set outs" for r
  proof -
    from that obtain n where n: "n < length outs" "r = outs ! n"
      by (auto simp: in_set_conv_nth)
    from assms(3) [of n] n assms(2) show ?thesis by auto
  qed
  let ?s = "foldl padd r0 rest"
  let ?m = "tmap (\<lambda>v. div_scalar v (real nk)) ?s"
  have m: "mix_resblocks rb nk i x = Inr ?m"
    using mix_resblocks_average [OF assms] by (simp add: o)
  have ss: "shape3 ?s = S"
    by (rule foldl_padd_shape) (use sh o in simp_all)
  have sm: "shape3 ?m = shape3 ?s"
    by (simp add: shape3_def tmap_def comp_def)
  have pt: "?m ! b ! c ! t = div_scalar (\<Sum>j<nk. outs ! j ! b ! c ! t) (real nk)"
    if "b < length ?m" "c < length (?m ! b)" "t < length (?m ! b ! c)" for b c t
  proof -
    have b: "b < length ?s" and c: "c < length (?s ! b)" and t: "t < length (?s ! b ! c)"
      using that by (simp_all add: tmap_def)
    have "map (map length) r0 = map (map length) ?s"
      using ss sh [of r0] o by (simp add: shape3_def)
    then have b0: "b < length r0" and "map length (r0 ! b) = map length (?s ! b)"
      using b by (metis length_map, metis length_map nth_map)
    then have c0: "c < length (r0 ! b)" and t0: "t < length (r0 ! b ! c)"
      using c t by (metis length_map, metis length_map nth_map)
    have "?s ! b ! c ! t = r0 ! b ! c ! t + (\<Sum>r\<leftarrow>rest. r ! b ! c ! t)"
      by (rule foldl_padd_nth [OF _ _ b0 c0 t0, of S]) (use sh o in simp_all)
    also have "\<dots> = (\<Sum>r\<leftarrow>outs. r ! b ! c ! t)" by (simp add: o)
    also have "\<dots> = (\<Sum>j<nk. outs ! j ! b ! c ! t)"
      using assms(2) by (simp add: sum_list_sum_nth atLeast0LessThan)
    finally show ?thesis using b c t by (simp add: tmap_def)
  qed
  show ?thesis using m ss sm pt by auto
qed

lemma SineGen_forward_returns:
  assumes "dim self = harmonic_num self + 1"
    and "sampling_rate self = Some sr"
    and "f0 \<noteq> []" and "\<forall>r\<in>set f0. length r = T" and "0 < T" and "0 < upp"
  shows "\<exists>res gen'. SineGen_forward self f0 upp gen = (Inr res, gen')"
proof -
  have tl: "time_length f0 = T" using time_length_eq [OF assms(3,4)] .
  have unwrap: "map (map (\<lambda>r. r ! 0)) (map (map (\<lambda>v. [v])) f0) = f0"
    by (simp add: comp_def)
  show ?thesis
    unfolding SineGen_forward_def Let_def unwrap SineGen_f0_buf_ok [OF assms(1)]
    using assms(2,5,6) by (simp add: tl split_beta)
qed

text \<open>
  C5. A waveform that \<open>Generator.forward\<close> returns is the elementwise \<open>tanh\<close> of what
  \<open>conv_post\<close> returned for the leaky ReLU of the result of the upsampling stages, which
  started from \<open>conv_pre\<close> of the input with the conditioning added; for
  \<open>GeneratorNSF.forward\<close> the same holds, with the stages also given the transposed
  harmonic source that the source module returned. Every sample of the waveform is NaN
  or lies in \<open>[-1, 1]\<close>. Without stages left the loop returns its input; a stage that
  completes has taken the leaky ReLU of its input through the upsampling layer of its
  index (in \<open>GeneratorNSF\<close>, then added the noise convolution of the harmonic source),
  then through \<open>mix_resblocks\<close>, and the remaining stages have run on the result. When the
  \<open>num_kernels > 0\<close> residual blocks of a stage return outputs of one shape, the result of
  \<open>mix_resblocks\<close> has that shape and each of its entries is the sum of the blocks'
  entries divided by \<open>num_kernels\<close>.
\<close>

theorem generator_forward_tanh_bounded:
  "(Generator_forward slope G x g = Inr y \<longrightarrow>
       (\<exists>x1 x2 x3 z. conv_pre G x = Inr x1 \<and> add_cond G x1 g = Inr x2
          \<and> Generator_stages slope G [0..<num_upsamples G] x2 = Inr x3
          \<and> conv_post G (leaky_relu (1 / 100) x3) = Inr z \<and> y = tmap ftanh z)
     \<and> (\<forall>r\<in>set y. \<forall>c\<in>set r. \<forall>v\<in>set c. v = NaN \<or> Fin (- 1) \<le> v \<and> v \<le> Fin 1))
   \<and> (GeneratorNSF_forward slope N x f0 g gen = (Inr y', N', gen') \<longrightarrow>
       (\<exists>src m1 har a b x1 x2 x3 z.
            SourceModuleHnNSF_forward (m_source N) f0 (self_upp N) gen = (Inr src, m1, gen')
          \<and> N' = N\<lparr>m_source := m1\<rparr>
          \<and> unpack3 src = Inr (PTensor har, a, b)
          \<and> conv_pre N x = Inr x1 \<and> add_cond N x1 g = Inr x2
          \<and> GeneratorNSF_stages slope N' (transpose12 har) [0..<num_upsamples N] x2 = Inr x3
          \<and> conv_post N (leaky_relu (1 / 100) x3) = Inr z \<and> y' = tmap ftanh z)
     \<and> (\<forall>r\<in>set y'. \<forall>c\<in>set r. \<forall>v\<in>set c. v = NaN \<or> Fin (- 1) \<le> v \<and> v \<le> Fin 1))
   \<and> Generator_stages slope G [] u = Inr u
   \<and> GeneratorNSF_stages slope N har_source [] u = Inr u
   \<and> (Generator_stages slope G (i # rest) u = Inr u' \<longrightarrow>
       (\<exists>up u1 u2. py_item (ups G) i = Inr up \<and> up (leaky_relu slope u) = Inr u1
          \<and> mix_resblocks (resblocks G) (num_kernels G) i u1 = Inr u2
          \<and> Generator_stages slope G rest u2 = Inr u'))
   \<and> (GeneratorNSF_stages slope N har_source (i # rest) u = Inr u' \<longrightarrow>
       (\<exists>up u1 noise_conv n u2 u3. py_item (ups N) i = Inr up \<and> up (leaky_relu slope u) = Inr u1
          \<and> py_item (noise_convs N) i = Inr noise_conv \<and> noise_conv har_source = Inr n
          \<and> iadd u1 n = Inr u2
          \<and> mix_resblocks (resblocks N) (num_kernels N) i u2 = Inr u3
          \<and> GeneratorNSF_stages slope N har_source rest u3 = Inr u'))
   \<and> (0 < nk \<and> length outs = nk
        \<and> (\<forall>j<nk. \<exists>block. py_item rb (i * nk + j) = Inr block \<and> block w = Inr (outs ! j)
                      \<and> shape3 (outs ! j) = S) \<longrightarrow>
       (\<exists>m. mix_resblocks rb nk i w = Inr m \<and> shape3 m = S
          \<and> (\<forall>b c t. b < length m \<longrightarrow> c < length (m ! b) \<longrightarrow> t < length (m ! b ! c)
                \<longrightarrow> m ! b ! c ! t
                    = div_scalar (\<Sum>j<nk. outs ! j ! b ! c ! t) (real nk))))"
proof -
  have 1: "Generator_forward slope G x g = Inr y \<longrightarrow>
       (\<exists>x1 x2 x3 z. conv_pre G x = Inr x1 \<and> add_cond G x1 g = Inr x2
          \<and> Generator_stages slope G [0..<num_upsamples G] x2 = Inr x3
          \<and> conv_post G (leaky_relu (1 / 100) x3) = Inr z \<and> y = tmap ftanh z)
     \<and> (\<forall>r\<in>set y. \<forall>c\<in>set r. \<forall>v\<in>set c. v = NaN \<or> Fin (- 1) \<le> v \<and> v \<le> Fin 1)"
  proof
    assume r: "Generator_forward slope G x g = Inr y"
    from Generator_forward_chain [OF r] obtain x1 x2 x3 z where
      c: "conv_pre G x = Inr x1" "add_cond G x1 g = Inr x2"
        "Generator_stages slope G [0..<num_upsamples G] x2 = Inr x3"
        "conv_post G (leaky_relu (1 / 100) x3) = Inr z" "y = tmap ftanh z"
      by blast
    have "\<forall>r\<in>set y. \<forall>c\<in>set r. \<forall>v\<in>set c. v = NaN \<or> Fin (- 1) \<le> v \<and> v \<le> Fin 1"
      unfolding c(5) by (rule tmap_ftanh_bounded)
    then show "(\<exists>x1 x2 x3 z. conv_pre G x = Inr x1 \<and> add_cond G x1 g = Inr x2
          \<and> Generator_stages slope G [0..<num_upsamples G] x2 = Inr x3
          \<and> conv_post G (leaky_relu (1 / 100) x3) = Inr z \<and> y = tmap ftanh z)
     \<and> (\<forall>r\<in>set y. \<forall>c\<in>set r. \<forall>v\<in>set c. v = NaN \<or> Fin (- 1) \<le> v \<and> v \<le> Fin 1)"
      using c by blast
  qed
  have 2: "GeneratorNSF_forward slope N x f0 g gen = (Inr y', N', gen') \<longrightarrow>
       (\<exists>src m1 har a b x1 x2 x3 z.
            SourceModuleHnNSF_forward (m_source N) f0 (self_upp N) gen = (Inr src, m1, gen')
          \<and> N' = N\<lparr>m_source := m1\<rparr>
          \<and> unpack3 src = Inr (PTensor har, a, b)
          \<and> conv_pre N x = Inr x1 \<and> add_cond N x1 g = Inr x2
          \<and> GeneratorNSF_stages slope N' (transpose12 har) [0..<num_upsamples N] x2 = Inr x3
          \<and> conv_post N (leaky_relu (1 / 100) x3) = Inr z \<and> y' = tmap ftanh z)
     \<and> (\<forall>r\<in>set y'. \<forall>c\<in>set r. \<forall>v\<in>set c. v = NaN \<or> Fin (- 1) \<le> v \<and> v \<le> Fin 1)"
  proof
    assume r: "GeneratorNSF_forward slope N x f0 g gen = (Inr y', N', gen')"
    from GeneratorNSF_forward_chain [OF r] obtain src m1 har a b x1 x2 x3 z where
      c: "SourceModuleHnNSF_forward (m_source N) f0 (self_upp N) gen = (Inr src, m1, gen')"
        "N' = N\<lparr>m_source := m1\<rparr>" "unpack3 src = Inr (PTensor har, a, b)"
        "conv_pre N x = Inr x1" "add_cond N x1 g = Inr x2"
        "GeneratorNSF_stages slope N' (transpose12 har) [0..<num_upsamples N] x2 = Inr x3"
        "conv_post N (leaky_relu (1 / 100) x3) = Inr z" and y: "y' = tmap ftanh z"
      by blast
    have "\<forall>r\<in>set y'. \<forall>c\<in>set r. \<forall>v\<in>set c. v = NaN \<or> Fin (- 1) \<le> v \<and> v \<le> Fin 1"
      unfolding y by (rule tmap_ftanh_bounded)
    then show "(\<exists>src m1 har a b x1 x2 x3 z.
            SourceModuleHnNSF_forward (m_source N) f0 (self_upp N) gen = (Inr src, m1, gen')
          \<and> N' = N\<lparr>m_source := m1\<rparr>
          \<and> unpack3 src = Inr (PTensor har, a, b)
          \<and> conv_pre N x = Inr x1 \<and> add_cond N x1 g = Inr x2
          \<and> GeneratorNSF_stages slope N' (transpose12 har) [0..<num_upsamples N] x2 = Inr x3
          \<and> conv_post N (leaky_relu (1 / 100) x3) = Inr z \<and> y' = tmap ftanh z)
     \<and> (\<forall>r\<in>set y'. \<forall>c\<in>set r. \<forall>v\<in>set c. v = NaN \<or> Fin (- 1) \<le> v \<and> v \<le> Fin 1)"
      using c y by blast
  qed
  have 3: "Generator_stages slope G (i # rest) u = Inr u' \<longrightarrow>
       (\<exists>up u1 u2. py_item (ups G) i = Inr up \<and> up (leaky_relu slope u) = Inr u1
          \<and> mix_resblocks (resblocks G) (num_kernels G) i u1 = Inr u2
          \<and> Generator_stages slope G rest u2 = Inr u')"
    by (auto split: sum.splits)
  have 4: "GeneratorNSF_stages slope N har_source (i # rest) u = Inr u' \<longrightarrow>
       (\<exists>up u1 noise_conv n u2 u3. py_item (ups N) i = Inr up \<and> up (leaky_relu slope u) = Inr u1
          \<and> py_item (noise_convs N) i = Inr noise_conv \<and> noise_conv har_source = Inr n
          \<and> iadd u1 n = Inr u2
          \<and> mix_resblocks (resblocks N) (num_kernels N) i u2 = Inr u3
          \<and> GeneratorNSF_stages slope N har_source rest u3 = Inr u')"
    by (auto split: sum.splits)
  have 5: "0 < nk \<and> length outs = nk
        \<and> (\<forall>j<nk. \<exists>block. py_item rb (i * nk + j) = Inr block \<and> block w = Inr (outs ! j)
                      \<and> shape3 (outs ! j) = S) \<longrightarrow>
       (\<exists>m. mix_resblocks rb nk i w = Inr m \<and> shape3 m = S
          \<and> (\<forall>b c t. b < length m \<longrightarrow> c < length (m ! b) \<longrightarrow> t < length (m ! b ! c)
                \<longrightarrow> m ! b ! c ! t
                    = div_scalar (\<Sum>j<nk. outs ! j ! b ! c ! t) (real nk)))"
    using mix_resblocks_pointwise [of nk outs rb i w S] by blast
  have 6: "Generator_stages slope G [] u = Inr u"
    and 7: "GeneratorNSF_stages slope N har_source [] u = Inr u"
    by simp_all
  show ?thesis using 1 2 3 4 5 6 7 by blast
qed

theorem generator_forward_tanh_bounded_witness:
  "Generator_forward (1 / 10) ex_generator [[[Fin 1]]] None = Inr [[[Fin (tanh 3)]]]
   \<and> Fin (- 1) \<le> Fin (tanh 3) \<and> Fin (tanh 3) \<le> Fin 1
   \<and> conv_pre ex_generator [[[Fin 1]]] = Inr [[[Fin 2]]]
   \<and> Generator_stages (1 / 10) ex_generator [0] [[[Fin 2]]] = Inr [[[Fin 6]]]
   \<and> conv_post ex_generator (leaky_relu (1 / 100) [[[Fin 6]]]) = Inr [[[Fin 3]]]
   \<and> fst (GeneratorNSF_forward (1 / 10) ex_generator_nsf [[[Fin 1]]] [[Fin 50]] None ex_gen)
       = Inr [[[Fin (tanh 4)]]]
   \<and> Fin (- 1) \<le> Fin (tanh 4) \<and> Fin (tanh 4) \<le> Fin 1
   \<and> mix_resblocks (resblocks ex_generator) 2 0 [[[Fin 4]]] = Inr [[[Fin 6]]]"
proof -
  have u: "[0..<2] = [0, Suc 0]" by (simp add: numeral_2_eq_2)
  have G: "num_kernels ex_generator = 2" "num_upsamples ex_generator = 1"
    "conv_pre ex_generator = (\<lambda>x. Inr (tmap (\<lambda>v. v + 1) x))"
    "ups ex_generator = [\<lambda>x. Inr (tmap (\<lambda>v. v * 2) x)]"
    "conv_post ex_generator = (\<lambda>x. Inr (tmap (\<lambda>v. v * Fin (1 / 2)) x))"
    "cond ex_generator = None"
    by (simp_all add: ex_generator_def)
  have N: "num_kernels ex_generator_nsf = 2" "num_upsamples ex_generator_nsf = 1"
    "conv_pre ex_generator_nsf = (\<lambda>x. Inr (tmap (\<lambda>v. v + 1) x))"
    "ups ex_generator_nsf = [\<lambda>x. Inr (tmap (\<lambda>v. v * 2) x)]"
    "conv_post ex_generator_nsf = (\<lambda>x. Inr (tmap (\<lambda>v. v * Fin (1 / 2)) x))"
    "cond ex_generator_nsf = None" "m_source ex_generator_nsf = ex_source"
    "self_upp ex_generator_nsf = 1"
    "noise_convs ex_generator_nsf = [\<lambda>h. Inr (tmap (\<lambda>v. v + 2) h)]"
    by (simp_all add: ex_generator_nsf_def)
  have mix: "mix_resblocks (resblocks ex_generator) 2 0 [[[Fin v]]] = Inr [[[Fin (v + 2)]]]"
    and mixn: "mix_resblocks (resblocks ex_generator_nsf) 2 0 [[[Fin v]]] = Inr [[[Fin (v + 2)]]]"
    for v
    by (simp_all add: ex_generator_def ex_generator_nsf_def mix_resblocks_def py_item_def
        tadd_def bzip_def tmap_def u)
  have lr: "0 < v \<Longrightarrow> leaky_relu s [[[Fin v]]] = [[[Fin v]]]" for s v
    by (simp add: leaky_relu_def tmap_def)
  have cp: "conv_pre ex_generator [[[Fin 1]]] = Inr [[[Fin 2]]]"
    by (simp add: G tmap_def)
  have cpn: "conv_pre ex_generator_nsf [[[Fin 1]]] = Inr [[[Fin 2]]]"
    by (simp add: N tmap_def)
  have pon: "conv_post ex_generator_nsf (leaky_relu (1 / 100) [[[Fin 8]]]) = Inr [[[Fin 4]]]"
    by (simp add: N lr tmap_def)
  have st: "Generator_stages (1 / 10) ex_generator [0] [[[Fin 2]]] = Inr [[[Fin 6]]]"
    by (simp add: G py_item_def lr mix tmap_def)
  have po: "conv_post ex_generator (leaky_relu (1 / 100) [[[Fin 6]]]) = Inr [[[Fin 3]]]"
    by (simp add: G lr tmap_def)
  have g: "Generator_forward (1 / 10) ex_generator [[[Fin 1]]] None = Inr [[[Fin (tanh 3)]]]"
    by (simp add: Generator_forward_def add_cond_def G(2) cp st po tmap_def
        del: Generator_stages.simps)
  obtain res gen' where
    sg: "SineGen_forward (SineGen_init (Some 100) 0 (1 / 10) (3 / 1000) 0) [[Fin 50]] (Suc 0)
           ex_gen = (Inr res, gen')"
    using SineGen_forward_returns [of "SineGen_init (Some 100) 0 (1 / 10) (3 / 1000) 0" 100
        "[[Fin 50]]" 1 "Suc 0" ex_gen]
    by (auto simp: SineGen_init_def)
  obtain sw uv nz where res: "res = (sw, uv, nz)" by (cases res)
  have src: "SourceModuleHnNSF_forward ex_source [[Fin 50]] (Suc 0) ex_gen
      = (Inr (PTuple [PTensor [[[Fin 0]]], PNone, PNone]), ex_source\<lparr>ddtype := Some Float32\<rparr>, gen')"
    by (simp add: SourceModuleHnNSF_forward_def ex_source_def sg res tmap_def Let_def)
  have stn: "GeneratorNSF_stages (1 / 10)
        (ex_generator_nsf\<lparr>m_source := ex_source\<lparr>ddtype := Some Float32\<rparr>\<rparr>) [[[Fin 0]]] [0] [[[Fin 2]]]
      = Inr [[[Fin 8]]]"
    by (simp add: N py_item_def lr mixn tmap_def iadd_def izip_def)
  have n: "GeneratorNSF_forward (1 / 10) ex_generator_nsf [[[Fin 1]]] [[Fin 50]] None ex_gen
       = (Inr [[[Fin (tanh 4)]]],
          ex_generator_nsf\<lparr>m_source := ex_source\<lparr>ddtype := Some Float32\<rparr>\<rparr>, gen')"
    by (simp add: GeneratorNSF_forward_def N(2,7,8) src add_cond_def cpn stn pon tmap_def
        transpose12_def Let_def del: GeneratorNSF_stages.simps)
  note th = generator_forward_tanh_bounded [where slope = "1 / 10" and G = ex_generator
      and x = "[[[Fin 1]]]" and g = None and y = "[[[Fin (tanh 3)]]]" and N = ex_generator_nsf
      and ?f0.0 = "[[Fin 50]]" and gen = ex_gen and y' = "[[[Fin (tanh 4)]]]"
      and N' = "ex_generator_nsf\<lparr>m_source := ex_source\<lparr>ddtype := Some Float32\<rparr>\<rparr>"
      and gen' = gen']
  have b1: "\<forall>r\<in>set [[[Fin (tanh 3)]]]. \<forall>c\<in>set r. \<forall>v\<in>set c.
      v = NaN \<or> Fin (- 1) \<le> v \<and> v \<le> Fin 1"
    using th [THEN conjunct1, THEN mp, OF g] by (rule conjunct2)
  have b2: "\<forall>r\<in>set [[[Fin (tanh 4)]]]. \<forall>c\<in>set r. \<forall>v\<in>set c.
      v = NaN \<or> Fin (- 1) \<le> v \<and> v \<le> Fin 1"
    using th [THEN conjunct2, THEN conjunct1, THEN mp, OF n] by (rule conjunct2)
  have m: "mix_resblocks (resblocks ex_generator) 2 0 [[[Fin 4]]] = Inr [[[Fin 6]]]"
    using mix [of 4] by simp
  have "Fin (- 1) \<le> Fin (tanh 3) \<and> Fin (tanh 3) \<le> Fin 1"
    and "Fin (- 1) \<le> Fin (tanh 4) \<and> Fin (tanh 4) \<le> Fin 1"
    using b1 b2 by simp_all
  then show ?thesis using g n cp st po m by simp
qed

text \<open>
  A waveform need not lie in \<open>[-1, 1]\<close>: a NaN in the input passes through every layer of
  the example generator and through \<open>tanh\<close>, and NaN is neither at least \<open>-1\<close> nor at most 1.
\<close>

theorem generator_forward_nan:
  "Generator_forward (1 / 10) ex_generator [[[NaN]]] None = Inr [[[NaN]]]
   \<and> \<not> (Fin (- 1) \<le> NaN \<and> NaN \<le> Fin 1)"
proof -
  have u: "[0..<2] = [0, Suc 0]" by (simp add: numeral_2_eq_2)
  have G: "num_kernels ex_generator = 2" "num_upsamples ex_generator = 1"
    "conv_pre ex_generator = (\<lambda>x. Inr (tmap (\<lambda>v. v + 1) x))"
    "ups ex_generator = [\<lambda>x. Inr (tmap (\<lambda>v. v * 2) x)]"
    "conv_post ex_generator = (\<lambda>x. Inr (tmap (\<lambda>v. v * Fin (1 / 2)) x))"
    "cond ex_generator = None"
    by (simp_all add: ex_generator_def)
  have mix: "mix_resblocks (resblocks ex_generator) 2 0 [[[NaN]]] = Inr [[[NaN]]]"
    by (simp add: ex_generator_def mix_resblocks_def py_item_def tadd_def bzip_def tmap_def u)
  have lr: "leaky_relu s [[[NaN]]] = [[[NaN]]]" for s
    by (simp add: leaky_relu_def tmap_def)
  have "Generator_forward (1 / 10) ex_generator [[[NaN]]] None = Inr [[[NaN]]]"
    by (simp add: Generator_forward_def G add_cond_def py_item_def tmap_def lr mix)
  then show ?thesis by (simp add: less_eq_float_def)
qed

section \<open>Properties of TextEncoder and the synthesizer\<close>

lemma TextEncoder_encode_pair:
  "TextEncoder_encode sm self x lengths = Inr r \<Longrightarrow> \<exists>a b. r = PTuple [a, b]"
  unfolding TextEncoder_encode_def Let_def
  by (auto split: sum.splits)

lemma TextEncoder_forward_pair:
  "TextEncoder_forward sm self phone pitch lengths = Inr r \<Longrightarrow> \<exists>a b. r = PTuple [a, b]"
  unfolding TextEncoder_forward_def
  by (auto dest: TextEncoder_encode_pair split: sum.splits option.splits)

lemma infer_raises:
  "\<exists>e. infer slope sm self phone phone_lengths pitch nsff0 sid rate gen = (Inl e, self, gen)"
proof (cases "emb_g self sid")
  case (Inl e)
  then show ?thesis by (simp add: infer_def)
next
  case g: (Inr embedded)
  show ?thesis
  proof (cases "TextEncoder_forward sm (enc_p self) phone pitch phone_lengths")
    case (Inl e)
    then show ?thesis using g by (simp add: infer_def)
  next
    case (Inr returned)
    then obtain a b where "returned = PTuple [a, b]"
      using TextEncoder_forward_pair by blast
    then show ?thesis using g Inr by (simp add: infer_def)
  qed
qed

lemma infer_ValueError:
  assumes "emb_g self sid = Inr embedded"
    and "TextEncoder_forward sm (enc_p self) phone pitch phone_lengths = Inr returned"
  shows "infer slope sm self phone phone_lengths pitch nsff0 sid rate gen
      = (Inl ValueError, self, gen)"
proof -
  obtain a b where "returned = PTuple [a, b]"
    using TextEncoder_forward_pair [OF assms(2)] by blast
  then show ?thesis using assms by (simp add: infer_def)
qed

lemma TextEncoder_encode_emb_pitch [simp]:
  "TextEncoder_encode sm (self\<lparr>emb_pitch := E\<rparr>) x lengths = TextEncoder_encode sm self x lengths"
  by (simp add: TextEncoder_encode_def Let_def cong: sum.case_cong)



lemma ex_encoder_returns_pair:
  "TextEncoder_forward ex_mask ex_encoder [[[Fin 1]]] (Some [[2]]) [1]
     = Inr (PTuple [PTuple [PTensor [[[Fin 3]]], PTensor [[[Fin 3]]]], PTensor [[[Fin 1]]]])"
proof -
  have u: "[0..<2] = [0, Suc 0]" by (simp add: numeral_2_eq_2)
  have t: "tadd [[[Fin 1]]] [[[Fin 2]]] = Inr [[[Fin 3]]]"
    by (simp add: tadd_def bzip_def)
  have l: "leaky_relu (1 / 10) [[[Fin 3]]] = [[[Fin 3]]]"
    by (simp add: leaky_relu_def tmap_def)
  have tr: "transpose12 [[[Fin 3]]] = [[[Fin 3]]]"
    by (simp add: transpose12_def transpose.simps)
  have m: "tmul [[[Fin 3]]] [[[Fin 1]]] = Inr [[[Fin 3]]]" "tmul [[[Fin 3]], [[Fin 3]]] [[[Fin 1]]] = Inr [[[Fin 3]], [[Fin 3]]]"
    by (simp_all add: tmul_def bzip_def)
  have sp: "torch_split [[[Fin 3], [Fin 3]]] (Suc 0) = Inr [[[[Fin 3]]], [[[Fin 3]]]]"
    by (simp add: torch_split_def size1_def u)
  have m2: "tmul [[[Fin 3], [Fin 3]]] [[[Fin 1]]] = Inr [[[Fin 3], [Fin 3]]]"
    by (simp add: tmul_def bzip_def)
  show ?thesis
    by (simp add: TextEncoder_forward_def TextEncoder_encode_def ex_encoder_def
        ex_pitch_embedding_def t l tr m m2 sp tmap_def size2_def ex_mask_def Let_def)
qed

text \<open>
  C1. Every call of \<open>infer\<close> raises and leaves the module and the random-number generator
  as they were: no noise is drawn and no prior latent is sampled. Whenever the speaker
  embedding and the text encoder return, the exception is the \<open>ValueError\<close> of line 272,
  as for the one-frame input of the example.
\<close>

theorem infer_never_samples_prior:
  "(\<exists>e. infer slope sm self phone phone_lengths pitch nsff0 sid rate gen = (Inl e, self, gen))
   \<and> infer (1 / 10) ex_mask ex_synth [[[Fin 1]]] [1] (Some [[2]]) [[Fin 50]] [0] None ex_gen
       = (Inl ValueError, ex_synth, ex_gen)"
proof -
  have g: "emb_g ex_synth [0] = Inr [[Fin 0]]" by (simp add: ex_synth_def)
  have e: "enc_p ex_synth = ex_encoder" by (simp add: ex_synth_def)
  have "infer (1 / 10) ex_mask ex_synth [[[Fin 1]]] [1] (Some [[2]]) [[Fin 50]] [0] None ex_gen
       = (Inl ValueError, ex_synth, ex_gen)"
    by (rule infer_ValueError [OF g]) (simp add: e ex_encoder_returns_pair)
  then show ?thesis using infer_raises by blast
qed

text \<open>
  C2. With three frames and \<open>rate = 1/4\<close> the call raises the \<open>ValueError\<close> of line 272
  before it reaches the truncation. The truncation itself, lines 274 to 276, computes
  \<open>head = int(3 * 0.25) = 0\<close> and slices with \<^verbatim>\<open>[-0:]\<close>, which keeps all three time steps of
  the latent, the mask and the pitch instead of none.
\<close>

theorem infer_truncation_at_head_zero:
  "infer (1 / 10) ex_mask ex_synth [[[Fin 1], [Fin 1], [Fin 1]]] [3] None [[Fin 100, Fin 110, Fin 120]] [0] (Some (1 / 4))
       ex_gen
     = (Inl ValueError, ex_synth, ex_gen)
   \<and> py_int (real (size2 [[[Fin 1, Fin 2, Fin 3]]]) * (1 / 4)) = 0
   \<and> truncate_by_rate (Some (1 / 4)) [[[Fin 1, Fin 2, Fin 3]]] [[[Fin 1, Fin 1, Fin 1]]] [[Fin 100, Fin 110, Fin 120]]
       = ([[[Fin 1, Fin 2, Fin 3]]], [[[Fin 1, Fin 1, Fin 1]]], [[Fin 100, Fin 110, Fin 120]])"
proof -
  have g: "emb_g ex_synth [0] = Inr [[Fin 0]]" by (simp add: ex_synth_def)
  obtain e where e: "infer (1 / 10) ex_mask ex_synth [[[Fin 1], [Fin 1], [Fin 1]]] [3] None
      [[Fin 100, Fin 110, Fin 120]] [0] (Some (1 / 4)) ex_gen = (Inl e, ex_synth, ex_gen)"
    using infer_raises by blast
  have u: "[0..<2] = [0, Suc 0]" by (simp add: numeral_2_eq_2)
  have u3: "[0..<3] = [0, Suc 0, 2]" by (simp add: numeral_3_eq_3 numeral_2_eq_2)
  have l: "leaky_relu (1 / 10) [[[Fin 1], [Fin 1], [Fin 1]]] = [[[Fin 1], [Fin 1], [Fin 1]]]"
    by (simp add: leaky_relu_def tmap_def)
  have tr: "transpose12 [[[Fin 1], [Fin 1], [Fin 1]]] = [[[Fin 1, Fin 1, Fin 1]]]"
    by (simp add: transpose12_def transpose.simps)
  have m: "tmul [[[Fin 1, Fin 1, Fin 1]]] [[[Fin 1, Fin 1, Fin 1]]] = Inr [[[Fin 1, Fin 1, Fin 1]]]"
    "tmul [[[Fin 1, Fin 1, Fin 1], [Fin 1, Fin 1, Fin 1]]] [[[Fin 1, Fin 1, Fin 1]]] = Inr [[[Fin 1, Fin 1, Fin 1], [Fin 1, Fin 1, Fin 1]]]"
    by (simp_all add: tmul_def bzip_def)
  have sp: "torch_split [[[Fin 1, Fin 1, Fin 1], [Fin 1, Fin 1, Fin 1]]] (Suc 0) = Inr [[[[Fin 1, Fin 1, Fin 1]]], [[[Fin 1, Fin 1, Fin 1]]]]"
    by (simp add: torch_split_def size1_def u)
  have "TextEncoder_forward ex_mask ex_encoder [[[Fin 1], [Fin 1], [Fin 1]]] None [3]
      = Inr (PTuple [PTuple [PTensor [[[Fin 1, Fin 1, Fin 1]]], PTensor [[[Fin 1, Fin 1, Fin 1]]]], PTensor [[[Fin 1, Fin 1, Fin 1]]]])"
    by (simp add: TextEncoder_forward_def TextEncoder_encode_def ex_encoder_def
        l tr m sp tmap_def size2_def ex_mask_def Let_def u3)
  then have 1: "infer (1 / 10) ex_mask ex_synth [[[Fin 1], [Fin 1], [Fin 1]]] [3] None
      [[Fin 100, Fin 110, Fin 120]] [0] (Some (1 / 4)) ex_gen = (Inl ValueError, ex_synth, ex_gen)"
    by (intro infer_ValueError [OF g]) (simp add: ex_synth_def)
  have 2: "py_int (real (size2 [[[Fin 1, Fin 2, Fin 3]]]) * (1 / 4)) = 0"
    by (simp add: py_int_def size2_def)
  have 3: "truncate_by_rate (Some (1 / 4)) [[[Fin 1, Fin 2, Fin 3]]] [[[Fin 1, Fin 1, Fin 1]]] [[Fin 100, Fin 110, Fin 120]]
       = ([[[Fin 1, Fin 2, Fin 3]]], [[[Fin 1, Fin 1, Fin 1]]], [[Fin 100, Fin 110, Fin 120]])"
    by (simp add: truncate_by_rate_def py_int_def size2_def slice_from_def Let_def)
  show ?thesis using 1 2 3 by blast
qed

text \<open>
  C6. No call of \<open>infer\<close> returns a waveform; two calls in a row on the example, with the
  same inputs and the same state of the generator, both raise the \<open>ValueError\<close> of line
  272.
\<close>

theorem infer_twice_raises:
  "fst (infer slope sm self phone phone_lengths pitch nsff0 sid rate gen) \<noteq> Inr out
   \<and> fst (infer (1 / 10) ex_mask ex_synth [[[Fin 1]]] [1] (Some [[2]]) [[Fin 50]] [0] None ex_gen)
       = Inl ValueError
   \<and> fst (infer (1 / 10) ex_mask
            (fst (snd (infer (1 / 10) ex_mask ex_synth [[[Fin 1]]] [1] (Some [[2]]) [[Fin 50]] [0] None
                         ex_gen)))
            [[[Fin 1]]] [1] (Some [[2]]) [[Fin 50]] [0] None ex_gen)
       = Inl ValueError"
proof -
  have g: "emb_g ex_synth [0] = Inr [[Fin 0]]" by (simp add: ex_synth_def)
  have e: "enc_p ex_synth = ex_encoder" by (simp add: ex_synth_def)
  have c: "infer (1 / 10) ex_mask ex_synth [[[Fin 1]]] [1] (Some [[2]]) [[Fin 50]] [0] None ex_gen
       = (Inl ValueError, ex_synth, ex_gen)"
    by (rule infer_ValueError [OF g]) (simp add: e ex_encoder_returns_pair)
  obtain e' where "infer slope sm self phone phone_lengths pitch nsff0 sid rate gen
      = (Inl e', self, gen)"
    using infer_raises by blast
  then show ?thesis using c by simp
qed

text \<open>
  The one attribute that a forward pass writes: \<open>SourceModuleHnNSF.forward\<close> stores
  \<open>ddtype\<close> when the module has none, and changes no attribute when it has one, whether
  the pass returns or raises.
\<close>

lemma SourceModuleHnNSF_forward_ddtype:
  "fst (snd (SourceModuleHnNSF_forward self x upp gen))
     = (case ddtype self of
          None \<Rightarrow> self\<lparr>ddtype := Some (l_linear_weight_dtype self)\<rparr>
        | Some d \<Rightarrow> self)"
  by (simp add: SourceModuleHnNSF_forward_def Let_def split: option.splits prod.splits
      sum.splits)


end
